(* ===== verification/Rust_Text.thy ===== *)
theory Rust_Text
  imports Rust_Prelude
begin

section \<open>Numbers as text, and paths\<close>

text \<open>
  Decimal printing (\<open>to_string\<close>, \<open>format!("{n}")\<close>) and parsing (\<open>str::parse\<close> at an
  integer type: an optional sign, at least one digit, no overflow), and the part of
  \<open>std::path\<close> the source uses: \<open>Path::join\<close> on the text of a path, and
  \<open>components\<close>, \<open>file_name\<close>, \<open>parent\<close>, \<open>extension\<close> on its components, which is
  also what Rust compares when it compares two paths.
\<close>

subsection \<open>Decimal numbers\<close>

definition digit :: "nat \<Rightarrow> char" where
  "digit n = char_of (48 + n)"

fun dec :: "nat \<Rightarrow> string" where
  "dec n = (if n < 10 then [digit n] else dec (n div 10) @ [digit (n mod 10)])"

declare dec.simps [simp del]

definition dec_int :: "int \<Rightarrow> string" where
  "dec_int i = (if i < 0 then CHR ''-'' # dec (nat (- i)) else dec (nat i))"

definition digit_val :: "char \<Rightarrow> nat option" where
  "digit_val c =
     (if (48::nat) \<le> of_char c \<and> (of_char c::nat) \<le> 57 then Some (of_char c - 48) else None)"

fun digits_acc :: "nat \<Rightarrow> string \<Rightarrow> nat option" where
  "digits_acc a [] = Some a"
| "digits_acc a (c # s) =
     (case digit_val c of None \<Rightarrow> None | Some d \<Rightarrow> digits_acc (10 * a + d) s)"

definition parse_nat :: "string \<Rightarrow> nat option" where
  "parse_nat s = (if s = [] then None else digits_acc 0 s)"

definition parse_unsigned :: "nat \<Rightarrow> string \<Rightarrow> nat option" where
  "parse_unsigned w s =
     (case parse_nat (case s of c # t \<Rightarrow> if c = CHR ''+'' then t else s | [] \<Rightarrow> []) of
        None \<Rightarrow> None
      | Some n \<Rightarrow> if n < 2 ^ w then Some n else None)"

definition parse_signed :: "nat \<Rightarrow> string \<Rightarrow> int option" where
  "parse_signed w s =
     (let r = (case s of
                 [] \<Rightarrow> None
               | c # t \<Rightarrow>
                   if c = CHR ''-'' then map_option (\<lambda>n. - int n) (parse_nat t)
                   else if c = CHR ''+'' then map_option int (parse_nat t)
                   else map_option int (parse_nat s))
      in case r of
           None \<Rightarrow> None
         | Some i \<Rightarrow> if - (2 ^ (w - 1)) \<le> i \<and> i < 2 ^ (w - 1) then Some i else None)"

lemma digit_val_digit [simp]: "n < 10 \<Longrightarrow> digit_val (digit n) = Some n"
  by (simp add: digit_def digit_val_def)

lemma digits_acc_append: "digits_acc a (s @ t) = Option.bind (digits_acc a s) (\<lambda>b. digits_acc b t)"
  by (induction s arbitrary: a) (auto split: option.splits)

lemma digits_acc_dec [simp]: "digits_acc 0 (dec n) = Some n"
proof (induction n rule: dec.induct)
  case (1 n)
  show ?case
  proof (cases "n < 10")
    case True
    then show ?thesis by (simp add: dec.simps [of n])
  next
    case False
    with 1 show ?thesis by (simp add: dec.simps [of n] digits_acc_append)
  qed
qed

lemma dec_nonempty [simp]: "dec n \<noteq> []"
  by (simp add: dec.simps [of n])

lemma parse_nat_dec [simp]: "parse_nat (dec n) = Some n"
  by (simp add: parse_nat_def)

lemma dec_inject [simp]: "dec m = dec n \<longleftrightarrow> m = n"
  by (metis digits_acc_dec option.inject)

lemma digits_acc_chars: "digits_acc a s = Some n \<Longrightarrow> c \<in> set s \<Longrightarrow> digit_val c \<noteq> None"
  by (induction s arbitrary: a) (auto split: option.splits)

lemma dec_chars: "c \<in> set (dec n) \<Longrightarrow> digit_val c \<noteq> None"
  by (rule digits_acc_chars [OF digits_acc_dec])

lemma dec_no_char: "digit_val c = None \<Longrightarrow> c \<notin> set (dec n)"
  using dec_chars by blast

lemma dec_no_sep [simp]:
  "CHR ''.'' \<notin> set (dec n)" "CHR ''/'' \<notin> set (dec n)" "CHR '':'' \<notin> set (dec n)"
  "CHR ''+'' \<notin> set (dec n)" "CHR ''-'' \<notin> set (dec n)"
  by (rule dec_no_char, simp add: digit_val_def)+

lemma dec_hd: "dec n = c # t \<Longrightarrow> c \<noteq> CHR ''+'' \<and> c \<noteq> CHR ''-''"
  using dec_no_sep(4,5) [of n] by (metis list.set_intros(1))

lemma parse_unsigned_dec: "n < 2 ^ w \<Longrightarrow> parse_unsigned w (dec n) = Some n"
proof -
  assume "n < 2 ^ w"
  moreover obtain c t where "dec n = c # t" by (cases "dec n") auto
  moreover from this have "c \<noteq> CHR ''+''" using dec_hd by blast
  ultimately show ?thesis
    using parse_nat_dec [of n] by (simp add: parse_unsigned_def)
qed

lemma parse_unsigned_bound: "parse_unsigned w s = Some n \<Longrightarrow> n < 2 ^ w"
  by (auto simp: parse_unsigned_def split: option.splits if_splits)

lemma parse_signed_bound:
  "parse_signed w s = Some i \<Longrightarrow> - (2 ^ (w - 1)) \<le> i \<and> i < 2 ^ (w - 1)"
  by (auto simp: parse_signed_def Let_def split: option.splits if_splits)

subsection \<open>Paths\<close>

definition path_join :: "path \<Rightarrow> path \<Rightarrow> path" where
  "path_join a b =
     (if starts_with b ''/'' then b
      else if a = [] \<or> last a = CHR ''/'' then a @ b
      else a @ ''/'' @ b)"

datatype component = RootDir | CurDir | ParentDir | Normal string

fun comp_rest :: "string list \<Rightarrow> component list" where
  "comp_rest [] = []"
| "comp_rest (p # ps) =
     (if p = [] \<or> p = ''.'' then comp_rest ps
      else (if p = ''..'' then ParentDir else Normal p) # comp_rest ps)"

definition components :: "path \<Rightarrow> component list" where
  "components s =
     (if starts_with s ''/'' then RootDir # comp_rest (split_char (CHR ''/'') s)
      else case split_char (CHR ''/'') s of
             [] \<Rightarrow> []
           | p # ps \<Rightarrow> if p = ''.'' then CurDir # comp_rest ps else comp_rest (p # ps))"

definition file_name :: "component list \<Rightarrow> string option" where
  "file_name cs = (if cs = [] then None else case last cs of Normal n \<Rightarrow> Some n | _ \<Rightarrow> None)"

definition parent :: "component list \<Rightarrow> component list option" where
  "parent cs =
     (if cs = [] then None else case last cs of RootDir \<Rightarrow> None | _ \<Rightarrow> Some (butlast cs))"

definition is_absolute :: "path \<Rightarrow> bool" where
  "is_absolute s \<longleftrightarrow> starts_with s ''/''"

text \<open>Joining at the level of components: an absolute right operand replaces the left one,
  a leading \<open>.\<close> of the right operand disappears unless the left one is empty.\<close>

definition comp_join :: "component list \<Rightarrow> component list \<Rightarrow> component list" where
  "comp_join a b =
     (case b of
        RootDir # _ \<Rightarrow> b
      | CurDir # b' \<Rightarrow> if a = [] then b else a @ b'
      | _ \<Rightarrow> a @ b)"

definition extension :: "component list \<Rightarrow> string option" where
  "extension cs =
     (case file_name cs of
        None \<Rightarrow> None
      | Some n \<Rightarrow> (case rsplit_once (CHR ''.'') n of
                     None \<Rightarrow> None
                   | Some (b, e) \<Rightarrow> if b = [] then None else Some e))"

lemma comp_rest_append: "comp_rest (ps @ qs) = comp_rest ps @ comp_rest qs"
  by (induction ps) auto

lemma comp_rest_no_root: "RootDir \<notin> set (comp_rest ps)" "CurDir \<notin> set (comp_rest ps)"
  by (induction ps) auto

lemma split_char_append:
  "split_char c (a @ c # b) = split_char c a @ split_char c b"
proof (induction a)
  case (Cons x a)
  obtain p ps where "split_char c a = p # ps" by (cases "split_char c a") auto
  with Cons show ?case by auto
qed simp

lemma split_char_id: "c \<notin> set s \<Longrightarrow> split_char c s = [s]"
  by (induction s) auto

lemma file_name_snoc [simp]: "file_name (cs @ [Normal n]) = Some n"
  by (simp add: file_name_def)

lemma parent_snoc [simp]: "parent (cs @ [Normal n]) = Some cs"
  by (simp add: parent_def)

end
