(* ===== verification/Core_Types.thy ===== *)
theory Core_Types
  imports Rust_Text
begin

section \<open>Shared types: digests, descriptors, namespaces, mounts\<close>

text \<open>
  The crate \<open>core-types\<close>. SHA-256 and the hex encoding of its result come from the crates
  \<open>sha2\<close> and \<open>hex\<close>, which are not part of the repository: they are the parameter \<open>sha\<close>,
  a function from the bytes hashed to the hex text of the digest. What the code relies on
  is \<open>sha_hex_ok\<close>: the text has 64 characters, all of them lower-case hex digits. No
  theorem assumes that two inputs have different digests unless it says so.
\<close>

subsection \<open>Data\<close>

record digest =
  hex :: string

datatype core_error =
    InvalidDigest string
  | UnsupportedAlgorithm string
  | DigestLength nat nat
  | DigestMismatch digest digest
  | SizeMismatch u64 u64

record descriptor =
  desc_media_type :: string
  desc_digest :: digest
  desc_size :: u64

record mount =
  mount_type :: string
  mount_source :: string
  mount_options :: "string list"

type_synonym namespace = string

definition ns_CRI :: namespace where
  "ns_CRI = ''k8s.io''"

definition ns_DEFAULT :: namespace where
  "ns_DEFAULT = ''default''"

subsection \<open>Operations\<close>

definition is_ascii_hexdigit :: "char \<Rightarrow> bool" where
  "is_ascii_hexdigit c \<longleftrightarrow>
     (let n = (of_char c :: nat) in
      48 \<le> n \<and> n \<le> 57 \<or> 65 \<le> n \<and> n \<le> 70 \<or> 97 \<le> n \<and> n \<le> 102)"

definition sha256 :: "(bytes \<Rightarrow> string) \<Rightarrow> bytes \<Rightarrow> digest" where
  "sha256 sha bs = \<lparr>hex = sha bs\<rparr>"

definition algorithm :: "digest \<Rightarrow> string" where
  "algorithm d = ''sha256''"

definition digest_blob_path :: "digest \<Rightarrow> string" where
  "digest_blob_path d = ''sha256/'' @ hex d"

definition digest_to_string :: "digest \<Rightarrow> string" where
  "digest_to_string d = ''sha256:'' @ hex d"

definition digest_from_str :: "string \<Rightarrow> core_error + digest" where
  "digest_from_str s =
     rbind (ok_or (InvalidDigest s) (split_once (CHR '':'') s)) (\<lambda>(algo, hex_part).
       if algo \<noteq> ''sha256'' then Inl (UnsupportedAlgorithm algo)
       else if length hex_part \<noteq> 64 then Inl (DigestLength 64 (length hex_part))
       else if \<not> list_all is_ascii_hexdigit hex_part then Inl (InvalidDigest s)
       else Inr \<lparr>hex = to_ascii_lowercase hex_part\<rparr>)"

definition str_bytes :: "string \<Rightarrow> bytes" where
  "str_bytes s = map of_char s"

subsection \<open>Well-formed digests\<close>

definition is_lower_hex :: "char \<Rightarrow> bool" where
  "is_lower_hex c \<longleftrightarrow> is_ascii_hexdigit c \<and> to_lower c = c"

definition wf_hex :: "string \<Rightarrow> bool" where
  "wf_hex h \<longleftrightarrow> length h = 64 \<and> list_all is_lower_hex h"

definition wf_digest :: "digest \<Rightarrow> bool" where
  "wf_digest d \<longleftrightarrow> wf_hex (hex d)"

definition sha_hex_ok :: "(bytes \<Rightarrow> string) \<Rightarrow> bool" where
  "sha_hex_ok sha \<longleftrightarrow> (\<forall>bs. wf_hex (sha bs))"

text \<open>A concrete function that satisfies \<open>sha_hex_ok\<close>, for closed examples: the last
  byte's two hex digits in front of 62 zeros. It is no hash.\<close>

definition hex_digit :: "nat \<Rightarrow> char" where
  "hex_digit n = (if n < 10 then char_of (48 + n) else char_of (87 + n))"

definition sample_sha :: "bytes \<Rightarrow> string" where
  "sample_sha bs =
     (let n = unat (last (0 # bs)) in
      [hex_digit (n div 16), hex_digit (n mod 16)] @ replicate 62 (CHR ''0''))"

lemma to_lower_hexdigit: "is_ascii_hexdigit c \<Longrightarrow> is_lower_hex (to_lower c)"
proof (cases "is_upper_ascii c")
  case True
  assume h: "is_ascii_hexdigit c"
  from True have "(of_char c + 32 :: nat) < 256" by (simp add: is_upper_ascii_def)
  then have "(of_char (char_of (of_char c + (32::nat))) :: nat) = of_char c + 32" by simp
  with True h show ?thesis
    by (simp add: is_lower_hex_def is_ascii_hexdigit_def to_lower_def is_upper_ascii_def Let_def)
next
  case False
  assume "is_ascii_hexdigit c"
  with False show ?thesis by (simp add: is_lower_hex_def to_lower_def)
qed

lemma lower_hex_fixed: "list_all is_lower_hex h \<Longrightarrow> to_ascii_lowercase h = h"
  by (induction h) (auto simp: to_ascii_lowercase_def is_lower_hex_def)

lemma lower_hex_hexdigit: "list_all is_lower_hex h \<Longrightarrow> list_all is_ascii_hexdigit h"
  by (auto simp: list_all_iff is_lower_hex_def)

lemma lower_hex_no_sep:
  "list_all is_lower_hex h \<Longrightarrow> CHR '':'' \<notin> set h \<and> CHR ''/'' \<notin> set h \<and> CHR ''.'' \<notin> set h"
  by (auto simp: list_all_iff is_lower_hex_def is_ascii_hexdigit_def)

lemma digest_from_str_iff:
  "digest_from_str s = Inr d \<longleftrightarrow>
     (\<exists>h. s = ''sha256:'' @ h \<and> length h = 64 \<and> list_all is_ascii_hexdigit h
        \<and> d = \<lparr>hex = to_ascii_lowercase h\<rparr>)"
proof -
  have "split_once (CHR '':'') s = Some (''sha256'', h) \<longleftrightarrow> s = ''sha256:'' @ h" for h
    by (simp add: split_once_Some)
  then show ?thesis
    by (auto simp: digest_from_str_def split: prod.splits if_splits)
qed

lemma digest_from_str_wf: "digest_from_str s = Inr d \<Longrightarrow> wf_digest d"
  using to_lower_hexdigit
  by (fastforce simp: digest_from_str_iff wf_digest_def wf_hex_def to_ascii_lowercase_def
      list_all_iff)

lemma digest_parse_print:
  assumes "wf_digest d"
  shows "digest_from_str (digest_to_string d) = Inr d"
proof -
  from assms have h: "length (hex d) = 64" "list_all is_lower_hex (hex d)"
    by (auto simp: wf_digest_def wf_hex_def)
  then have "d = \<lparr>hex = to_ascii_lowercase (hex d)\<rparr>"
    by (simp add: lower_hex_fixed)
  with h show ?thesis
    using lower_hex_hexdigit by (auto simp: digest_from_str_iff digest_to_string_def)
qed

lemma sha256_wf: "sha_hex_ok sha \<Longrightarrow> wf_digest (sha256 sha bs)"
  by (simp add: sha_hex_ok_def wf_digest_def sha256_def)

lemma digest_to_string_inject [simp]: "digest_to_string d = digest_to_string e \<longleftrightarrow> d = e"
  by (cases d; cases e) (simp add: digest_to_string_def)

lemma hex_digit_lower: "n < 16 \<Longrightarrow> is_lower_hex (hex_digit n)"
  by (auto simp: hex_digit_def is_lower_hex_def is_ascii_hexdigit_def to_lower_def is_upper_ascii_def)

lemma sample_sha_ok: "sha_hex_ok sample_sha"
proof -
  have "unat (b :: u8) div 16 < 16" for b
    using unsigned_less [where w = b and ?'a = nat] by simp
  moreover have "is_lower_hex (CHR ''0'')"
    by (simp add: is_lower_hex_def is_ascii_hexdigit_def to_lower_def is_upper_ascii_def)
  ultimately show ?thesis
    by (simp add: sha_hex_ok_def wf_hex_def sample_sha_def Let_def list_all_iff hex_digit_lower)
qed

subsection \<open>Properties\<close>

text \<open>Parsing a digest's printed form gives the digest back, and every text the parser
  accepts prints back as itself with the hex part in lower case, so the text form of a
  digest is canonical: two texts that parse to the same digest differ in letter case only.\<close>

theorem digest_text_roundtrip:
  "(wf_digest d \<longrightarrow> digest_from_str (digest_to_string d) = Inr d) \<and>
   (digest_from_str s = Inr e \<longrightarrow> wf_digest e \<and> digest_to_string e = to_ascii_lowercase s)"
proof (intro conjI impI)
  assume "wf_digest d"
  then show "digest_from_str (digest_to_string d) = Inr d" by (rule digest_parse_print)
next
  assume h: "digest_from_str s = Inr e"
  then show "wf_digest e" by (rule digest_from_str_wf)
  have "to_ascii_lowercase ''sha256:'' = ''sha256:''" by (simp add: to_ascii_lowercase_def to_lower_def is_upper_ascii_def)
  with h show "digest_to_string e = to_ascii_lowercase s"
    by (auto simp: digest_from_str_iff digest_to_string_def to_ascii_lowercase_def)
qed

theorem digest_text_roundtrip_witness:
  "digest_from_str (digest_to_string (sha256 sample_sha [7])) = Inr (sha256 sample_sha [7]) \<and>
   digest_to_string (sha256 sample_sha [7]) =
     to_ascii_lowercase (digest_to_string (sha256 sample_sha [7]))"
proof -
  let ?d = "sha256 sample_sha [7]"
  have wf: "wf_digest ?d" by (rule sha256_wf [OF sample_sha_ok])
  have p: "digest_from_str (digest_to_string ?d) = Inr ?d"
    using digest_text_roundtrip [of ?d] wf by blast
  show ?thesis
    using p digest_text_roundtrip [of ?d "digest_to_string ?d" ?d] by blast
qed

end
