(* ===== verification/Rust_Effects.thy ===== *)
theory Rust_Effects
  imports Rust_Prelude
begin

section \<open>Programs with state and errors\<close>

text \<open>
  A function of the source that changes state and returns a \<open>Result\<close> is a program: a
  function from the state to its result and the state it leaves. \<open>pbind\<close> is the \<open>?\<close>
  operator between two statements (on an error the rest is skipped and the state stays as
  it was left), \<open>attempt\<close> is a call whose \<open>Result\<close> is inspected or dropped
  (\<open>let _ = ...\<close>, \<open>.ok()\<close>), \<open>pmap\<close> and \<open>piter\<close> are loops with an early return.

  \<open>steps R m\<close> says that every run of \<open>m\<close>, successful or not, relates the state before
  to the state after by \<open>R\<close>. The locale \<open>step_order\<close> proves the rules that compose
  such facts once, for every reflexive and transitive \<open>R\<close>; the components interpret it
  on the relations they need.
\<close>

type_synonym ('s, 'e, 'a) prog = "'s \<Rightarrow> ('e + 'a) \<times> 's"

definition pret :: "'a \<Rightarrow> ('s, 'e, 'a) prog" where
  "pret x s = (Inr x, s)"

definition pfail :: "'e \<Rightarrow> ('s, 'e, 'a) prog" where
  "pfail e s = (Inl e, s)"

definition pbind :: "('s, 'e, 'a) prog \<Rightarrow> ('a \<Rightarrow> ('s, 'e, 'b) prog) \<Rightarrow> ('s, 'e, 'b) prog" where
  "pbind m f s = (case m s of (Inl e, s') \<Rightarrow> (Inl e, s') | (Inr x, s') \<Rightarrow> f x s')"

definition pget :: "('s \<Rightarrow> 'a) \<Rightarrow> ('s, 'e, 'a) prog" where
  "pget f s = (Inr (f s), s)"

definition pmod :: "('s \<Rightarrow> 's) \<Rightarrow> ('s, 'e, unit) prog" where
  "pmod f s = (Inr (), f s)"

definition plift :: "'e + 'a \<Rightarrow> ('s, 'e, 'a) prog" where
  "plift r s = (r, s)"

definition attempt :: "('s, 'e, 'a) prog \<Rightarrow> ('s, 'f, 'e + 'a) prog" where
  "attempt m s = (let (r, s') = m s in (Inr r, s'))"

definition with_err :: "('e \<Rightarrow> 'f) \<Rightarrow> ('s, 'e, 'a) prog \<Rightarrow> ('s, 'f, 'a) prog" where
  "with_err h m s = (let (r, s') = m s in (map_err h r, s'))"

definition pseq :: "('s, 'e, 'a) prog \<Rightarrow> ('s, 'e, 'b) prog \<Rightarrow> ('s, 'e, 'b) prog" where
  "pseq m n = pbind m (\<lambda>_. n)"

definition pguard :: "bool \<Rightarrow> 'e \<Rightarrow> ('s, 'e, unit) prog" where
  "pguard b e = (if b then pret () else pfail e)"

definition pwhen :: "bool \<Rightarrow> ('s, 'e, unit) prog \<Rightarrow> ('s, 'e, unit) prog" where
  "pwhen b m = (if b then m else pret ())"

primrec pmap :: "('x \<Rightarrow> ('s, 'e, 'a) prog) \<Rightarrow> 'x list \<Rightarrow> ('s, 'e, 'a list) prog" where
  "pmap f [] = pret []"
| "pmap f (x # xs) = pbind (f x) (\<lambda>y. pbind (pmap f xs) (\<lambda>ys. pret (y # ys)))"

primrec piter :: "('x \<Rightarrow> ('s, 'e, unit) prog) \<Rightarrow> 'x list \<Rightarrow> ('s, 'e, unit) prog" where
  "piter f [] = pret ()"
| "piter f (x # xs) = pseq (f x) (piter f xs)"

primrec pfold :: "('b \<Rightarrow> 'x \<Rightarrow> ('s, 'e, 'b) prog) \<Rightarrow> 'b \<Rightarrow> 'x list \<Rightarrow> ('s, 'e, 'b) prog" where
  "pfold f b [] = pret b"
| "pfold f b (x # xs) = pbind (f b x) (\<lambda>c. pfold f c xs)"

named_theorems prog_simps \<open>evaluation of programs\<close>

lemma pret_run [prog_simps]: "pret x s = (Inr x, s)"
  by (simp add: pret_def)

lemma pfail_run [prog_simps]: "pfail e s = (Inl e, s)"
  by (simp add: pfail_def)

lemma pget_run [prog_simps]: "pget f s = (Inr (f s), s)"
  by (simp add: pget_def)

lemma pmod_run [prog_simps]: "pmod f s = (Inr (), f s)"
  by (simp add: pmod_def)

lemma plift_run [prog_simps]: "plift r s = (r, s)"
  by (simp add: plift_def)

lemma pbind_run [prog_simps]:
  "pbind m f s = (case m s of (Inl e, s') \<Rightarrow> (Inl e, s') | (Inr x, s') \<Rightarrow> f x s')"
  by (simp add: pbind_def)

lemma attempt_run [prog_simps]: "attempt m s = (Inr (fst (m s)), snd (m s))"
  by (simp add: attempt_def split: prod.splits)

lemma with_err_run [prog_simps]: "with_err h m s = (map_err h (fst (m s)), snd (m s))"
  by (simp add: with_err_def split: prod.splits)

lemma pseq_run [prog_simps]:
  "pseq m n s = (case m s of (Inl e, s') \<Rightarrow> (Inl e, s') | (Inr x, s') \<Rightarrow> n s')"
  by (simp add: pseq_def pbind_def)

lemma pguard_run [prog_simps]: "pguard b e s = (if b then Inr () else Inl e, s)"
  by (simp add: pguard_def prog_simps)

lemma pwhen_run [prog_simps]: "pwhen b m s = (if b then m s else (Inr (), s))"
  by (simp add: pwhen_def prog_simps)

lemma pbind_Inr:
  "pbind m f s = (Inr y, t) \<longleftrightarrow> (\<exists>x u. m s = (Inr x, u) \<and> f x u = (Inr y, t))"
  by (auto simp: pbind_def split: prod.splits sum.splits)

lemma pseq_Inr:
  "pseq m n s = (Inr y, t) \<longleftrightarrow> (\<exists>x u. m s = (Inr x, u) \<and> n u = (Inr y, t))"
  by (simp add: pseq_def pbind_Inr)

lemma with_err_Inr [simp]: "with_err h m s = (Inr y, t) \<longleftrightarrow> m s = (Inr y, t)"
  by (auto simp: with_err_def split: prod.splits)

lemma attempt_Inr: "attempt m s = (Inr r, t) \<longleftrightarrow> m s = (r, t)"
  by (auto simp: attempt_def split: prod.splits)

text \<open>Inversion: how a program came to its result. \<open>prog_leaf\<close> evaluates the atoms.\<close>

lemma pbind_eq:
  "pbind m f s = (r, t) \<longleftrightarrow>
     (\<exists>e. m s = (Inl e, t) \<and> r = Inl e) \<or> (\<exists>x u. m s = (Inr x, u) \<and> f x u = (r, t))"
  by (auto simp: pbind_def split: prod.splits sum.splits)

lemma pseq_eq:
  "pseq m n s = (r, t) \<longleftrightarrow>
     (\<exists>e. m s = (Inl e, t) \<and> r = Inl e) \<or> (\<exists>x u. m s = (Inr x, u) \<and> n u = (r, t))"
  by (simp add: pseq_def pbind_eq)

lemma attempt_eq: "attempt m s = (r, t) \<longleftrightarrow> (\<exists>x. m s = (x, t) \<and> r = Inr x)"
  by (auto simp: attempt_def split: prod.splits)

lemma with_err_eq: "with_err h m s = (r, t) \<longleftrightarrow> (\<exists>x. m s = (x, t) \<and> map_err h x = r)"
  by (auto simp: with_err_def split: prod.splits)

lemma pwhen_eq: "pwhen b m s = (r, t) \<longleftrightarrow> b \<and> m s = (r, t) \<or> \<not> b \<and> r = Inr () \<and> s = t"
  by (auto simp: pwhen_def prog_simps)

lemmas prog_leaf = pret_run pfail_run pget_run pmod_run plift_run pguard_run
lemmas prog_Inr = pbind_Inr pseq_Inr attempt_Inr prog_leaf
lemmas prog_eq = pbind_eq pseq_eq attempt_eq with_err_eq pwhen_eq prog_leaf

lemma pfold_append: "pfold f b (xs @ ys) = pbind (pfold f b xs) (\<lambda>c. pfold f c ys)"
  by (induction xs arbitrary: b) (auto simp: fun_eq_iff prog_simps split: prod.splits sum.splits)

text \<open>Programs that cannot return an error.\<close>

definition infallible :: "('s, 'e, 'a) prog \<Rightarrow> bool" where
  "infallible m \<longleftrightarrow> (\<forall>s. \<exists>x t. m s = (Inr x, t))"

lemma infallible_pfold: "(\<And>b x. infallible (f b x)) \<Longrightarrow> infallible (pfold f b xs)"
  unfolding infallible_def
proof (induction xs arbitrary: b)
  case (Cons x xs)
  show ?case
  proof
    fix s
    obtain c t where "f b x s = (Inr c, t)" using Cons.prems by blast
    then show "\<exists>y u. pfold f b (x # xs) s = (Inr y, u)"
      using Cons.IH [OF Cons.prems, of c] by (simp add: prog_simps)
  qed
qed (simp add: prog_simps)

subsection \<open>Relations between the state before and after\<close>

definition steps :: "('s \<Rightarrow> 's \<Rightarrow> bool) \<Rightarrow> ('s, 'e, 'a) prog \<Rightarrow> bool" where
  "steps R m \<longleftrightarrow> (\<forall>s. R s (snd (m s)))"

lemma stepsD: "steps R m \<Longrightarrow> m s = (r, t) \<Longrightarrow> R s t"
  by (metis snd_conv steps_def)

lemma stepsI: "(\<And>s. R s (snd (m s))) \<Longrightarrow> steps R m"
  by (simp add: steps_def)

text \<open>\<open>steps_if P R m\<close>: the same for the runs that start in a state with \<open>P\<close>.\<close>

definition steps_if :: "('s \<Rightarrow> bool) \<Rightarrow> ('s \<Rightarrow> 's \<Rightarrow> bool) \<Rightarrow> ('s, 'e, 'a) prog \<Rightarrow> bool" where
  "steps_if P R m \<longleftrightarrow> (\<forall>s. P s \<longrightarrow> R s (snd (m s)))"

lemma steps_ifI: "(\<And>s r t. P s \<Longrightarrow> m s = (r, t) \<Longrightarrow> R s t) \<Longrightarrow> steps_if P R m"
  unfolding steps_if_def by (metis prod.collapse)

lemma steps_ifD: "steps_if P R m \<Longrightarrow> P s \<Longrightarrow> m s = (r, t) \<Longrightarrow> R s t"
  by (metis snd_conv steps_if_def)

lemma steps_steps_if: "steps R m \<Longrightarrow> steps_if P R m"
  by (simp add: steps_def steps_if_def)

lemma steps_if_steps: "steps_if (\<lambda>_. True) R m \<Longrightarrow> steps R m"
  by (simp add: steps_def steps_if_def)

lemma steps_weaken: "steps R m \<Longrightarrow> (\<And>s t. R s t \<Longrightarrow> S s t) \<Longrightarrow> steps S m"
  by (simp add: steps_def)

locale step_order =
  fixes R :: "'s \<Rightarrow> 's \<Rightarrow> bool"
  assumes order_refl: "R s s"
    and order_trans: "R s t \<Longrightarrow> R t u \<Longrightarrow> R s u"
begin

lemma steps_pret: "steps R (pret x)"
  by (simp add: steps_def prog_simps order_refl)

lemma steps_pfail: "steps R (pfail e)"
  by (simp add: steps_def prog_simps order_refl)

lemma steps_pget: "steps R (pget f)"
  by (simp add: steps_def prog_simps order_refl)

lemma steps_plift: "steps R (plift r)"
  by (simp add: steps_def prog_simps order_refl)

lemma steps_pguard: "steps R (pguard b e)"
  by (simp add: steps_def prog_simps order_refl)

lemma steps_pbind_run:
  assumes m: "steps R m" and f: "\<And>s x t. m s = (Inr x, t) \<Longrightarrow> steps R (f x)"
  shows "steps R (pbind m f)"
proof (rule stepsI)
  fix s
  obtain r t where mt: "m s = (r, t)" by (cases "m s")
  with m have st: "R s t" by (rule stepsD)
  show "R s (snd (pbind m f s))"
  proof (cases r)
    case (Inl e)
    with mt st show ?thesis by (simp add: prog_simps)
  next
    case (Inr x)
    have "R t (snd (f x t))" using f mt Inr by (auto simp: steps_def)
    with mt st Inr show ?thesis by (auto simp: prog_simps intro: order_trans)
  qed
qed

lemma steps_pbind: "steps R m \<Longrightarrow> (\<And>x. steps R (f x)) \<Longrightarrow> steps R (pbind m f)"
  by (rule steps_pbind_run)

lemma steps_pseq: "steps R m \<Longrightarrow> steps R n \<Longrightarrow> steps R (pseq m n)"
  by (simp add: pseq_def steps_pbind)

lemma steps_attempt: "steps R m \<Longrightarrow> steps R (attempt m)"
  by (simp add: steps_def prog_simps)

lemma steps_with_err: "steps R m \<Longrightarrow> steps R (with_err h m)"
  by (simp add: steps_def prog_simps)

lemma steps_pwhen: "(b \<Longrightarrow> steps R m) \<Longrightarrow> steps R (pwhen b m)"
  by (simp add: pwhen_def steps_pret)

lemma steps_pmap: "(\<And>x. x \<in> set xs \<Longrightarrow> steps R (f x)) \<Longrightarrow> steps R (pmap f xs)"
  by (induction xs) (auto intro!: steps_pret steps_pbind)

lemma steps_piter: "(\<And>x. x \<in> set xs \<Longrightarrow> steps R (f x)) \<Longrightarrow> steps R (piter f xs)"
  by (induction xs) (auto intro!: steps_pret steps_pseq)

lemma steps_pfold: "(\<And>b x. x \<in> set xs \<Longrightarrow> steps R (f b x)) \<Longrightarrow> steps R (pfold f b xs)"
  by (induction xs arbitrary: b) (auto intro!: steps_pret steps_pbind)

lemma steps_if_pbind:
  assumes m: "steps_if P R m" and f: "\<And>s x t. P s \<Longrightarrow> m s = (Inr x, t) \<Longrightarrow> R t (snd (f x t))"
  shows "steps_if P R (pbind m f)"
proof (rule steps_ifI)
  fix s r t assume P: "P s" and run: "pbind m f s = (r, t)"
  obtain x u where u: "m s = (x, u)" by (cases "m s")
  with m P have "R s u" by (rule steps_ifD)
  with run u f [OF P] show "R s t" by (cases x) (auto simp: prog_simps intro: order_trans)
qed

text \<open>A part that keeps \<open>P\<close>, and then the rest.\<close>

lemma steps_if_keep:
  assumes "steps Q m" and "\<And>s t. Q s t \<Longrightarrow> R s t" and "\<And>s t. Q s t \<Longrightarrow> P s \<Longrightarrow> P t"
    and f: "\<And>x. steps_if P R (f x)"
  shows "steps_if P R (pbind m f)"
proof (rule steps_if_pbind)
  show "steps_if P R m" using assms(1,2) by (auto simp: steps_if_def steps_def)
  fix s x t assume "P s" "m s = (Inr x, t)"
  with assms(1,3) have "P t" by (metis stepsD)
  with f show "R t (snd (f x t))" by (simp add: steps_if_def)
qed

lemmas steps_rules = steps_pret steps_pfail steps_pget steps_plift steps_pguard steps_pbind
  steps_pseq steps_attempt steps_with_err steps_pwhen steps_pmap steps_piter steps_pfold

end

subsection \<open>Systems of interleaved steps\<close>

text \<open>The reachable states of a step relation, and the invariant rule.\<close>

inductive reachable :: "('s \<Rightarrow> bool) \<Rightarrow> ('s \<Rightarrow> 's \<Rightarrow> bool) \<Rightarrow> 's \<Rightarrow> bool"
  for init :: "'s \<Rightarrow> bool" and step :: "'s \<Rightarrow> 's \<Rightarrow> bool"
where
  reach_init: "init s \<Longrightarrow> reachable init step s"
| reach_step: "reachable init step s \<Longrightarrow> step s t \<Longrightarrow> reachable init step t"

locale invariant_system =
  fixes init :: "'s \<Rightarrow> bool" and step :: "'s \<Rightarrow> 's \<Rightarrow> bool" and inv :: "'s \<Rightarrow> bool"
  assumes inv_init: "init s \<Longrightarrow> inv s"
    and inv_step: "inv s \<Longrightarrow> step s t \<Longrightarrow> inv t"
begin

lemma reachable_inv: "reachable init step s \<Longrightarrow> inv s"
  by (induction rule: reachable.induct) (auto intro: inv_init inv_step)

end

end
