(* ===== verification/File_System.thy ===== *)
theory File_System
  imports Rust_Effects Rust_Text "HOL-Library.AList"
begin

section \<open>The file system the program runs on\<close>

text \<open>
  \<open>std::fs\<close> as the source uses it. A path is the list of its components below a fixed
  root, a file system is an association list from paths to nodes, and the world \<open>os\<close>
  also holds a schedule: the outcomes the environment chooses for the calls to come. A call
  consumes one entry. \<open>IoFail\<close> makes it fail (a full disk, a permission, a stale handle),
  \<open>IoShort n\<close> lets a \<open>write\<close> accept \<open>n\<close> bytes only, and an empty schedule means
  that the rest of the calls succeed. So a statement for every world covers every pattern of
  failures. The world is extensible: a component adds its own state to it.
\<close>

type_synonym fpath = "string list"

datatype node = File bytes | Dir

datatype io_error =
    NotFound
  | AlreadyExists
  | IsADirectory
  | NotADirectory
  | DirectoryNotEmpty
  | WriteZero
  | Fault

datatype io_event = IoOk | IoFail | IoShort nat

type_synonym fsys = "(fpath \<times> node) list"

record os =
  os_fs :: fsys
  os_sched :: "io_event list"
  os_pid :: u32
  os_seq :: u64

definition next_event :: "'z os_scheme \<Rightarrow> io_event" where
  "next_event w = (case os_sched w of [] \<Rightarrow> IoOk | e # _ \<Rightarrow> e)"

definition tick :: "'z os_scheme \<Rightarrow> 'z os_scheme" where
  "tick w = w\<lparr>os_sched := tl (os_sched w)\<rparr>"

definition lookup :: "'z os_scheme \<Rightarrow> fpath \<Rightarrow> node option" where
  "lookup w p = map_of (os_fs w) p"

definition set_node :: "fpath \<Rightarrow> node \<Rightarrow> 'z os_scheme \<Rightarrow> 'z os_scheme" where
  "set_node p n w = w\<lparr>os_fs := AList.update p n (os_fs w)\<rparr>"

definition del_node :: "fpath \<Rightarrow> 'z os_scheme \<Rightarrow> 'z os_scheme" where
  "del_node p w = w\<lparr>os_fs := AList.delete p (os_fs w)\<rparr>"

text \<open>A call that may fail: the schedule decides first, then the call itself.\<close>

definition syscall :: "('z os_scheme \<Rightarrow> io_error + ('a \<times> 'z os_scheme)) \<Rightarrow> ('z os_scheme, io_error, 'a) prog" where
  "syscall f w =
     (if next_event w = IoFail then (Inl Fault, tick w)
      else case f (tick w) of Inl e \<Rightarrow> (Inl e, tick w) | Inr (x, w') \<Rightarrow> (Inr x, w'))"

definition is_file :: "fpath \<Rightarrow> ('z os_scheme, 'e, bool) prog" where
  "is_file p w =
     (Inr (next_event w \<noteq> IoFail \<and> (case lookup w p of Some (File _) \<Rightarrow> True | _ \<Rightarrow> False)), tick w)"

definition is_dir :: "fpath \<Rightarrow> ('z os_scheme, 'e, bool) prog" where
  "is_dir p w = (Inr (next_event w \<noteq> IoFail \<and> (p = [] \<or> lookup w p = Some Dir)), tick w)"

definition path_exists :: "fpath \<Rightarrow> ('z os_scheme, 'e, bool) prog" where
  "path_exists p w = (Inr (next_event w \<noteq> IoFail \<and> (p = [] \<or> lookup w p \<noteq> None)), tick w)"

definition parent_ok :: "'z os_scheme \<Rightarrow> fpath \<Rightarrow> bool" where
  "parent_ok w p \<longleftrightarrow> p \<noteq> [] \<and> (butlast p = [] \<or> lookup w (butlast p) = Some Dir)"

definition create_dir :: "fpath \<Rightarrow> ('z os_scheme, io_error, unit) prog" where
  "create_dir p = syscall (\<lambda>w.
     if \<not> parent_ok w p then Inl NotFound
     else case lookup w p of
            None \<Rightarrow> Inr ((), set_node p Dir w)
          | Some _ \<Rightarrow> Inl AlreadyExists)"

text \<open>\<open>create_dir_all\<close> makes the missing directories from the outermost inwards; a
  directory that is already there is no error, a file in the way is one. When it fails half
  way, the directories made so far stay.\<close>

definition ensure_dir :: "fpath \<Rightarrow> ('z os_scheme, io_error, unit) prog" where
  "ensure_dir p = syscall (\<lambda>w.
     case lookup w p of
       None \<Rightarrow> Inr ((), set_node p Dir w)
     | Some Dir \<Rightarrow> Inr ((), w)
     | Some (File _) \<Rightarrow> Inl NotADirectory)"

fun create_dirs :: "fpath \<Rightarrow> fpath \<Rightarrow> ('z os_scheme, io_error, unit) prog" where
  "create_dirs pre [] = pret ()"
| "create_dirs pre (c # cs) =
     pseq (ensure_dir (pre @ [c])) (create_dirs (pre @ [c]) cs)"

definition create_dir_all :: "fpath \<Rightarrow> ('z os_scheme, io_error, unit) prog" where
  "create_dir_all p = create_dirs [] p"

definition read_file :: "fpath \<Rightarrow> ('z os_scheme, io_error, bytes) prog" where
  "read_file p = syscall (\<lambda>w.
     case lookup w p of
       None \<Rightarrow> Inl NotFound
     | Some Dir \<Rightarrow> Inl IsADirectory
     | Some (File bs) \<Rightarrow> Inr (bs, w))"

definition create_file :: "fpath \<Rightarrow> ('z os_scheme, io_error, unit) prog" where
  "create_file p = syscall (\<lambda>w.
     if \<not> parent_ok w p then Inl NotFound
     else if lookup w p = Some Dir then Inl IsADirectory
     else Inr ((), set_node p (File []) w))"

text \<open>A \<open>write\<close> through an open handle at offset \<open>pos\<close>. When the name is gone the
  bytes go to a file no path reaches.\<close>

definition splice :: "nat \<Rightarrow> bytes \<Rightarrow> bytes \<Rightarrow> bytes" where
  "splice pos chunk bs =
     take pos (bs @ replicate (pos - length bs) 0) @ chunk @ drop (pos + length chunk) bs"

definition accepted :: "io_event \<Rightarrow> bytes \<Rightarrow> nat" where
  "accepted ev buf = (case ev of IoShort n \<Rightarrow> min n (length buf) | _ \<Rightarrow> length buf)"

definition write_at :: "fpath \<Rightarrow> nat \<Rightarrow> bytes \<Rightarrow> ('z os_scheme, io_error, nat) prog" where
  "write_at p pos buf w =
     (if next_event w = IoFail then (Inl Fault, tick w)
      else let n = accepted (next_event w) buf; w' = tick w in
           (Inr n, case lookup w' p of
                     Some (File bs) \<Rightarrow> set_node p (File (splice pos (take n buf) bs)) w'
                   | _ \<Rightarrow> w'))"

text \<open>\<open>flush\<close> and \<open>sync_all\<close> on a file handle change nothing and may fail.\<close>

definition sync_handle :: "('z os_scheme, io_error, unit) prog" where
  "sync_handle = syscall (\<lambda>w. Inr ((), w))"

definition remove_file :: "fpath \<Rightarrow> ('z os_scheme, io_error, unit) prog" where
  "remove_file p = syscall (\<lambda>w.
     case lookup w p of
       None \<Rightarrow> Inl NotFound
     | Some Dir \<Rightarrow> Inl IsADirectory
     | Some (File _) \<Rightarrow> Inr ((), del_node p w))"

definition below :: "fpath \<Rightarrow> fpath \<Rightarrow> bool" where
  "below p q \<longleftrightarrow> take (length p) q = p"

definition remove_dir_all :: "fpath \<Rightarrow> ('z os_scheme, io_error, unit) prog" where
  "remove_dir_all p = syscall (\<lambda>w.
     case lookup w p of
       None \<Rightarrow> Inl NotFound
     | Some (File _) \<Rightarrow> Inl NotADirectory
     | Some Dir \<Rightarrow> Inr ((), w\<lparr>os_fs := filter (\<lambda>(q, _). \<not> below p q) (os_fs w)\<rparr>))"

text \<open>\<open>rename\<close> of a file: it replaces a file at the destination in one step.\<close>

definition rename :: "fpath \<Rightarrow> fpath \<Rightarrow> ('z os_scheme, io_error, unit) prog" where
  "rename p q = syscall (\<lambda>w.
     case lookup w p of
       Some (File bs) \<Rightarrow>
         if \<not> parent_ok w q then Inl NotFound
         else if lookup w q = Some Dir then Inl IsADirectory
         else Inr ((), set_node q (File bs) (del_node p w))
     | Some Dir \<Rightarrow> Inl IsADirectory
     | None \<Rightarrow> Inl NotFound)"

definition dir_entries :: "fpath \<Rightarrow> fsys \<Rightarrow> (fpath \<times> node) list" where
  "dir_entries p fs = filter (\<lambda>(q, _). q \<noteq> [] \<and> butlast q = p) fs"

definition read_dir :: "fpath \<Rightarrow> ('z os_scheme, io_error, (fpath \<times> node) list) prog" where
  "read_dir p = syscall (\<lambda>w.
     if p = [] \<or> lookup w p = Some Dir then Inr (dir_entries p (os_fs w), w) else Inl NotFound)"

subsection \<open>Reading the world after a call\<close>

named_theorems fs_simps \<open>lookups after file-system calls\<close>

lemma lookup_set [fs_simps]: "lookup (set_node p n w) q = (if q = p then Some n else lookup w q)"
  by (simp add: lookup_def set_node_def update_conv')

lemma lookup_del [fs_simps]: "lookup (del_node p w) q = (if q = p then None else lookup w q)"
  by (simp add: lookup_def del_node_def delete_conv')

lemma lookup_tick [fs_simps]: "lookup (tick w) q = lookup w q"
  by (simp add: lookup_def tick_def)

lemma lookup_seq [fs_simps]: "lookup (os_seq_update f w) q = lookup w q"
  by (simp add: lookup_def)

lemma os_seq_same [fs_simps]:
  "os_seq (tick w) = os_seq w" "os_seq (set_node p n w) = os_seq w" "os_seq (del_node p w) = os_seq w"
  "os_pid (tick w) = os_pid w" "os_pid (set_node p n w) = os_pid w" "os_pid (del_node p w) = os_pid w"
  by (simp_all add: tick_def set_node_def del_node_def)

lemma sched_simps [fs_simps]:
  "os_sched (tick w) = tl (os_sched w)" "os_sched (set_node p n w) = os_sched w"
  "os_sched (del_node p w) = os_sched w"
  by (simp_all add: tick_def set_node_def del_node_def)

lemma splice_append [simp]: "splice (length bs) chunk bs = bs @ chunk"
  by (simp add: splice_def)

lemma below_refl [simp]: "below p p"
  by (simp add: below_def)

lemma below_iff: "below p q \<longleftrightarrow> (\<exists>t. q = p @ t)"
  unfolding below_def by (metis append_eq_conv_conj append_take_drop_id)

subsection \<open>What a call leaves alone\<close>

text \<open>\<open>frame P w w'\<close>: every file outside \<open>P\<close> is as it was, with its contents, no file
  is new outside \<open>P\<close>, and the process id and the staging counter are as they were.\<close>

definition frame :: "(fpath \<Rightarrow> bool) \<Rightarrow> 'z os_scheme \<Rightarrow> 'z os_scheme \<Rightarrow> bool" where
  "frame P w w' \<longleftrightarrow>
     (\<forall>q bs. \<not> P q \<longrightarrow> lookup w' q = Some (File bs) \<longleftrightarrow> lookup w q = Some (File bs))
     \<and> os_pid w' = os_pid w \<and> os_seq w' = os_seq w"

lemma frame_file:
  "frame P w w' \<Longrightarrow> \<not> P q \<Longrightarrow> lookup w' q = Some (File bs) \<longleftrightarrow> lookup w q = Some (File bs)"
  by (simp add: frame_def)

lemma frame_os: "frame P w w' \<Longrightarrow> os_pid w' = os_pid w \<and> os_seq w' = os_seq w"
  by (simp add: frame_def)

interpretation frm: step_order "frame P" for P
  by unfold_locales (auto simp: frame_def)

lemma frame_syscall:
  assumes "\<And>w x w'. f w = Inr (x, w') \<Longrightarrow> frame P w w'"
  shows "steps (frame P) (syscall f)"
proof (rule stepsI)
  fix w :: "'a os_scheme"
  have t: "frame P w (tick w)" by (simp add: frame_def fs_simps)
  show "frame P w (snd (syscall f w))"
  proof (cases "f (tick w)")
    case (Inr y)
    obtain x w' where y: "y = (x, w')" by (cases y)
    with Inr assms have "frame P (tick w) w'" by blast
    with Inr y t show ?thesis by (auto simp: syscall_def intro: frm.order_trans)
  qed (use t in \<open>simp add: syscall_def\<close>)
qed

lemma frame_is_file: "steps (frame P) (is_file p)"
  by (rule stepsI) (simp add: is_file_def frame_def fs_simps)

lemma frame_is_dir: "steps (frame P) (is_dir p)"
  by (rule stepsI) (simp add: is_dir_def frame_def fs_simps)

lemma frame_path_exists: "steps (frame P) (path_exists p)"
  by (rule stepsI) (simp add: path_exists_def frame_def fs_simps)

lemma frame_read_file: "steps (frame P) (read_file p)"
  unfolding read_file_def
  by (rule frame_syscall) (auto simp: frame_def split: option.splits node.splits)

lemma frame_sync_handle: "steps (frame P) sync_handle"
  unfolding sync_handle_def by (rule frame_syscall) (auto simp: frame_def)

lemma frame_create_file: "P p \<Longrightarrow> steps (frame P) (create_file p)"
  unfolding create_file_def
  by (rule frame_syscall) (auto simp: frame_def fs_simps split: if_splits)

lemma frame_remove_file: "P p \<Longrightarrow> steps (frame P) (remove_file p)"
  unfolding remove_file_def
  by (rule frame_syscall) (auto simp: frame_def fs_simps split: option.splits node.splits if_splits)

lemma frame_rename: "P p \<Longrightarrow> P q \<Longrightarrow> steps (frame P) (rename p q)"
  unfolding rename_def
  by (rule frame_syscall) (auto simp: frame_def fs_simps split: option.splits node.splits if_splits)

lemma frame_write_at: "P p \<Longrightarrow> steps (frame P) (write_at p pos buf)"
  by (rule stepsI) (auto simp: write_at_def frame_def fs_simps Let_def split: option.splits node.splits)

text \<open>Making directories changes nothing that is there.\<close>

definition dirs_added :: "fpath \<Rightarrow> 'z os_scheme \<Rightarrow> 'z os_scheme \<Rightarrow> bool" where
  "dirs_added p w w' \<longleftrightarrow>
     (\<forall>q. lookup w' q = lookup w q \<or> below q p \<and> lookup w q = None \<and> lookup w' q = Some Dir)
     \<and> os_pid w' = os_pid w \<and> os_seq w' = os_seq w"

interpretation dadd: step_order "dirs_added p" for p
proof
  fix s t u :: "'a os_scheme"
  show "dirs_added p s s" by (simp add: dirs_added_def)
  assume "dirs_added p s t" "dirs_added p t u"
  then show "dirs_added p s u" unfolding dirs_added_def by metis
qed

lemma dirs_added_keeps: "dirs_added p w w' \<Longrightarrow> lookup w q = Some n \<Longrightarrow> lookup w' q = Some n"
  unfolding dirs_added_def by (metis option.distinct(1))

lemma dirs_added_file [simp]:
  "dirs_added p w w' \<Longrightarrow> lookup w' q = Some (File bs) \<longleftrightarrow> lookup w q = Some (File bs)"
  unfolding dirs_added_def by (metis node.distinct(1) option.distinct(1) option.inject)

lemma dirs_added_outside: "dirs_added p w w' \<Longrightarrow> \<not> below q p \<Longrightarrow> lookup w' q = lookup w q"
  by (auto simp: dirs_added_def)

lemma dirs_added_os: "dirs_added p w w' \<Longrightarrow> os_pid w' = os_pid w \<and> os_seq w' = os_seq w"
  by (simp add: dirs_added_def)

lemma dirs_added_syscall:
  assumes "\<And>w x w'. f w = Inr (x, w') \<Longrightarrow> dirs_added p w w'"
  shows "steps (dirs_added p) (syscall f)"
proof (rule stepsI)
  fix w :: "'a os_scheme"
  have t: "dirs_added p w (tick w)" by (simp add: dirs_added_def fs_simps)
  show "dirs_added p w (snd (syscall f w))"
  proof (cases "f (tick w)")
    case (Inr y)
    obtain x w' where y: "y = (x, w')" by (cases y)
    with Inr assms have "dirs_added p (tick w) w'" by blast
    with Inr y t show ?thesis by (auto simp: syscall_def intro: dadd.order_trans)
  qed (use t in \<open>simp add: syscall_def\<close>)
qed

lemma ensure_dir_adds: "below q p \<Longrightarrow> steps (dirs_added p) (ensure_dir q)"
  unfolding ensure_dir_def
  by (rule dirs_added_syscall)
    (auto simp: dirs_added_def fs_simps split: option.splits node.splits if_splits)

lemma ensure_dir_done: "ensure_dir p w = (Inr u, w') \<Longrightarrow> lookup w' p = Some Dir"
  by (auto simp: ensure_dir_def syscall_def fs_simps split: if_splits option.splits node.splits)

lemma ensure_dir_quiet:
  assumes "os_sched w = []" "\<And>bs. lookup w p \<noteq> Some (File bs)"
  shows "\<exists>w'. ensure_dir p w = (Inr (), w') \<and> os_sched w' = []"
proof (cases "lookup w p")
  case None
  with assms show ?thesis by (simp add: ensure_dir_def syscall_def next_event_def fs_simps)
next
  case (Some n)
  with assms have "n = Dir" by (cases n) auto
  with assms Some show ?thesis by (simp add: ensure_dir_def syscall_def next_event_def fs_simps)
qed

lemma create_dirs_adds: "below (pre @ cs) p \<Longrightarrow> steps (dirs_added p) (create_dirs pre cs)"
proof (induction cs arbitrary: pre)
  case (Cons c cs)
  then have "below (pre @ [c]) p" by (auto simp: below_iff)
  with Cons.IH [of "pre @ [c]"] Cons.prems show ?case
    by (simp add: dadd.steps_pseq ensure_dir_adds)
qed (simp add: dadd.steps_pret)

lemma create_dir_all_adds: "steps (dirs_added p) (create_dir_all p)"
  unfolding create_dir_all_def by (rule create_dirs_adds) simp

text \<open>When it succeeds, the path and everything above it are directories.\<close>

lemma create_dirs_done:
  assumes "create_dirs pre cs w = (Inr u, w')" "i \<le> length cs" "0 < i"
  shows "lookup w' (pre @ take i cs) = Some Dir"
  using assms
proof (induction cs arbitrary: pre w i)
  case (Cons c cs)
  let ?p = "pre @ [c]"
  from Cons.prems(1) obtain v w1 where w1: "ensure_dir ?p w = (Inr v, w1)"
    and rest: "create_dirs ?p cs w1 = (Inr u, w')"
    by (auto simp: pseq_Inr)
  show ?case
  proof (cases "i = 1")
    case True
    have "dirs_added (?p @ cs) w1 w'"
      by (rule stepsD [OF create_dirs_adds rest]) simp
    with ensure_dir_done [OF w1] have "lookup w' ?p = Some Dir" by (simp add: dirs_added_keeps)
    with True show ?thesis by simp
  next
    case False
    with Cons.prems obtain j where j: "i = Suc j" "0 < j" "j \<le> length cs" by (cases i) auto
    from Cons.IH [OF rest j(3) j(2)] j(1) show ?thesis by simp
  qed
qed simp

lemma create_dir_all_done:
  "create_dir_all p w = (Inr u, w') \<Longrightarrow> 0 < i \<Longrightarrow> i \<le> length p \<Longrightarrow> lookup w' (take i p) = Some Dir"
  unfolding create_dir_all_def using create_dirs_done [of "[]" p w u w' i] by simp

text \<open>With no failure scheduled and no file in the way it does succeed.\<close>

lemma create_dirs_quiet:
  assumes "os_sched w = []" and "\<And>q bs. lookup w q = Some (File bs) \<Longrightarrow> \<not> below q (pre @ cs)"
  shows "\<exists>w'. create_dirs pre cs w = (Inr (), w') \<and> os_sched w' = []"
  using assms
proof (induction cs arbitrary: pre w)
  case (Cons c cs)
  let ?p = "pre @ [c]"
  have nf: "lookup w ?p \<noteq> Some (File bs)" for bs
    using Cons.prems(2) [of ?p bs] by (auto simp: below_iff)
  obtain w1 where w1: "ensure_dir ?p w = (Inr (), w1)" "os_sched w1 = []"
    using ensure_dir_quiet [OF Cons.prems(1) nf] by blast
  have add: "dirs_added ?p w w1" by (rule stepsD [OF ensure_dir_adds w1(1)]) simp
  have "\<exists>w'. create_dirs ?p cs w1 = (Inr (), w') \<and> os_sched w' = []"
  proof (rule Cons.IH [OF w1(2)])
    fix q bs
    assume "lookup w1 q = Some (File bs)"
    with add have "lookup w q = Some (File bs)" by simp
    with Cons.prems(2) show "\<not> below q (?p @ cs)" by fastforce
  qed
  with w1(1) show ?case by (auto simp: prog_simps)
qed (simp add: prog_simps)

lemma frame_create_dir_all: "steps (frame P) (create_dir_all p)"
  by (rule steps_weaken [OF create_dir_all_adds]) (simp add: frame_def dirs_added_os)

lemmas frame_calls = frame_is_file frame_is_dir frame_path_exists frame_read_file frame_sync_handle
  frame_create_file frame_remove_file frame_rename frame_write_at
  frame_create_dir_all

lemma create_dir_all_frame: "create_dir_all p u = (x, v) \<Longrightarrow> frame (\<lambda>q. False) u v"
  by (rule stepsD [OF frame_create_dir_all])

lemma create_file_frame: "create_file p u = (x, v) \<Longrightarrow> frame (\<lambda>q. q = p) u v"
  by (rule stepsD [OF frame_create_file]) simp

lemma remove_file_frame: "remove_file p u = (x, v) \<Longrightarrow> frame (\<lambda>q. q = p) u v"
  by (rule stepsD [OF frame_remove_file]) simp

lemma is_file_frame: "is_file p u = (x, v) \<Longrightarrow> frame (\<lambda>q. False) u v"
  by (rule stepsD [OF frame_is_file])

lemma rename_Inl: "rename p q u = (Inl x, v) \<Longrightarrow> frame (\<lambda>q. False) u v"
  by (auto simp: rename_def syscall_def frame_def fs_simps split: if_splits option.splits node.splits)

lemma rename_Inr:
  "rename p q u = (Inr x, v) \<Longrightarrow> \<exists>b. lookup u p = Some (File b) \<and> lookup v q = Some (File b)"
  by (auto simp: rename_def syscall_def fs_simps split: if_splits option.splits node.splits)

subsection \<open>A quiet schedule stays quiet\<close>

definition stays_quiet :: "'z os_scheme \<Rightarrow> 'z os_scheme \<Rightarrow> bool" where
  "stays_quiet w w' \<longleftrightarrow> (os_sched w = [] \<longrightarrow> os_sched w' = [])"

interpretation qt: step_order stays_quiet
  by unfold_locales (auto simp: stays_quiet_def)



lemma quiet_calls:
  "steps stays_quiet (is_file p)" "steps stays_quiet (is_dir p)" "steps stays_quiet (path_exists p)"
  "steps stays_quiet (read_file p)" "steps stays_quiet sync_handle" "steps stays_quiet (create_file p)"
  "steps stays_quiet (remove_file p)" "steps stays_quiet (rename p q)" "steps stays_quiet (ensure_dir p)"
  by (simp_all add: steps_def stays_quiet_def syscall_def is_file_def is_dir_def path_exists_def
      read_file_def sync_handle_def create_file_def remove_file_def rename_def ensure_dir_def fs_simps
      split: option.splits node.splits)

lemma quiet_create_dirs: "steps stays_quiet (create_dirs pre cs)"
  by (induction cs arbitrary: pre) (auto intro!: qt.steps_pret qt.steps_pseq quiet_calls)

lemma quiet_create_dir_all: "steps stays_quiet (create_dir_all p)"
  by (simp add: create_dir_all_def quiet_create_dirs)

lemma below_prefix_cases: "below p q \<Longrightarrow> below r q \<Longrightarrow> below p r \<or> below r p"
  by (auto simp: below_iff append_eq_append_conv2)

end
