(* ===== verification/Content_Store.thy ===== *)
theory Content_Store
  imports Core_Types File_System
begin

section \<open>The content-addressed blob store\<close>

text \<open>
  The crate \<open>content\<close> (\<open>crates/content/src/lib.rs\<close>): \<open>Store\<close> and \<open>Writer\<close> over the
  file system. A \<open>Writer\<close> holds its staging path, the offset of its open file handle
  (\<open>None\<close> once \<open>commit\<close> has taken it), the bytes its hasher was fed and the \<open>u64\<close>
  count of them. \<open>commit\<close> is the composition of the verification and the publication that
  the source runs one after the other; the step relation \<open>ingest_step\<close> interleaves the
  operations of any number of writers, other calls may come between the two halves.
  Retries of an interrupted \<open>write\<close> are not separate events.
\<close>

datatype content_error =
    CIo io_error
  | CDigestMismatch digest digest
  | CSizeMismatch u64 u64
  | CPanic string

record store =
  st_root :: fpath

record writer =
  wr_root :: fpath
  wr_staging :: fpath
  wr_file :: "nat option"
  wr_hasher :: bytes
  wr_written :: u64

subsection \<open>Store\<close>

definition open_store :: "fpath \<Rightarrow> ('z os_scheme, content_error, store) prog" where
  "open_store root =
     pseq (with_err CIo (create_dir_all (root @ [''blobs'', ''sha256''])))
       (pseq (with_err CIo (create_dir_all (root @ [''ingest''])))
          (pret \<lparr>st_root = root\<rparr>))"

definition blob_path :: "fpath \<Rightarrow> digest \<Rightarrow> fpath" where
  "blob_path root d = root @ [''blobs''] @ split_char (CHR ''/'') (digest_blob_path d)"

definition blob_exists :: "store \<Rightarrow> digest \<Rightarrow> ('z os_scheme, 'e, bool) prog" where
  "blob_exists st d = is_file (blob_path (st_root st) d)"

definition read_blob :: "store \<Rightarrow> digest \<Rightarrow> ('z os_scheme, content_error, bytes) prog" where
  "read_blob st d = with_err CIo (read_file (blob_path (st_root st) d))"

definition remove_blob :: "store \<Rightarrow> digest \<Rightarrow> ('z os_scheme, content_error, bool) prog" where
  "remove_blob st d =
     (let path = blob_path (st_root st) d in
      pbind (is_file path) (\<lambda>present.
        if present then pseq (with_err CIo (remove_file path)) (pret True)
        else pret False))"

text \<open>Each directory entry may be unreadable (an error) and its metadata may be (skipped).
  The sum is at the width of \<open>u64\<close>.\<close>

definition add_entry :: "u64 \<Rightarrow> fpath \<times> node \<Rightarrow> ('z os_scheme, content_error, u64) prog" where
  "add_entry acc e =
     pseq (with_err CIo sync_handle)
       (pbind (attempt sync_handle) (\<lambda>meta.
          pret (case (meta, snd e) of
                  (Inr _, File bs) \<Rightarrow> acc + of_nat (length bs)
                | _ \<Rightarrow> acc)))"

definition total_size :: "store \<Rightarrow> ('z os_scheme, content_error, u64) prog" where
  "total_size st =
     (let dir = st_root st @ [''blobs'', ''sha256''] in
      pbind (is_dir dir) (\<lambda>d.
        if d then pbind (with_err CIo (read_dir dir)) (pfold add_entry 0) else pret 0))"

definition stage_name :: "(bytes \<Rightarrow> string) \<Rightarrow> string \<Rightarrow> u32 \<Rightarrow> nat \<Rightarrow> string" where
  "stage_name sha ingest_ref pid seq =
     hex (sha256 sha (str_bytes ingest_ref)) @ ''.'' @ dec (unat pid) @ ''.'' @ dec seq"

definition open_writer ::
  "(bytes \<Rightarrow> string) \<Rightarrow> store \<Rightarrow> string \<Rightarrow> ('z os_scheme, content_error, writer) prog" where
  "open_writer sha st ingest_ref =
     (let staging_dir = st_root st @ [''ingest''] in
      pseq (with_err CIo (create_dir_all staging_dir))
        (pbind (pget (\<lambda>w. (os_seq w, os_pid w))) (\<lambda>(seq, pid).
           pseq (pmod (os_seq_update (\<lambda>n. n + 1)))
             (let staging = staging_dir @ [stage_name sha ingest_ref pid (unat seq)] in
              pseq (with_err CIo (create_file staging))
                (pret \<lparr>wr_root = st_root st, wr_staging = staging, wr_file = Some 0,
                       wr_hasher = [], wr_written = 0\<rparr>)))))"

subsection \<open>Writer\<close>

definition writer_write :: "writer \<Rightarrow> bytes \<Rightarrow> 'z os_scheme \<Rightarrow> (content_error + nat) \<times> writer \<times> 'z os_scheme" where
  "writer_write wr buf w =
     (case wr_file wr of
        None \<Rightarrow> (Inl (CPanic ''writer used after commit''), wr, w)
      | Some pos \<Rightarrow>
          (case write_at (wr_staging wr) pos buf w of
             (Inl e, w') \<Rightarrow> (Inl (CIo e), wr, w')
           | (Inr n, w') \<Rightarrow>
               (Inr n,
                wr\<lparr>wr_file := Some (pos + n), wr_hasher := wr_hasher wr @ take n buf,
                   wr_written := wr_written wr + of_nat n\<rparr>,
                w')))"

text \<open>\<open>Write::write_all\<close> of the standard library: write until the buffer is empty; a
  \<open>write\<close> that accepts nothing is an error.\<close>

function write_all :: "writer \<Rightarrow> bytes \<Rightarrow> 'z os_scheme \<Rightarrow> (content_error + unit) \<times> writer \<times> 'z os_scheme" where
  "write_all wr buf w =
     (if buf = [] then (Inr (), wr, w)
      else case writer_write wr buf w of
             (Inl e, wr', w') \<Rightarrow> (Inl e, wr', w')
           | (Inr n, wr', w') \<Rightarrow>
               if n = 0 then (Inl (CIo WriteZero), wr', w') else write_all wr' (drop n buf) w')"
  by pat_completeness auto
termination
  by (relation "measure (\<lambda>(wr, buf, w). length buf)") auto

declare write_all.simps [simp del]

definition from_hasher :: "(bytes \<Rightarrow> string) \<Rightarrow> bytes \<Rightarrow> content_error + digest" where
  "from_hasher sha fed =
     map_err (\<lambda>_. CPanic ''valid sha256 digest'') (digest_from_str (''sha256:'' @ sha fed))"

definition commit_verify ::
  "(bytes \<Rightarrow> string) \<Rightarrow> writer \<Rightarrow> u64 \<Rightarrow> digest \<Rightarrow> ('z os_scheme, content_error, digest) prog" where
  "commit_verify sha wr expected_size expected =
     pseq (pwhen (wr_file wr \<noteq> None) (with_err CIo (pseq sync_handle sync_handle)))
       (if wr_written wr \<noteq> expected_size then
          pseq (attempt (remove_file (wr_staging wr)))
            (pfail (CSizeMismatch expected_size (wr_written wr)))
        else
          pbind (plift (from_hasher sha (wr_hasher wr))) (\<lambda>computed.
            if computed \<noteq> expected then
              pseq (attempt (remove_file (wr_staging wr)))
                (pfail (CDigestMismatch expected computed))
            else pret computed))"

definition commit_publish :: "writer \<Rightarrow> digest \<Rightarrow> ('z os_scheme, content_error, digest) prog" where
  "commit_publish wr computed =
     (let dest = blob_path (wr_root wr) computed in
      pbind (is_file dest) (\<lambda>present.
        if present then pseq (attempt (remove_file (wr_staging wr))) (pret computed)
        else
          pseq (with_err CIo (create_dir_all (butlast dest)))
            (pseq (with_err CIo (rename (wr_staging wr) dest)) (pret computed))))"

definition commit ::
  "(bytes \<Rightarrow> string) \<Rightarrow> writer \<Rightarrow> u64 \<Rightarrow> digest \<Rightarrow> ('z os_scheme, content_error, digest) prog" where
  "commit sha wr expected_size expected =
     pbind (commit_verify sha wr expected_size expected) (commit_publish wr)"

definition drop_writer :: "writer \<Rightarrow> ('z os_scheme, content_error, unit) prog" where
  "drop_writer wr =
     pwhen (wr_file wr \<noteq> None) (pseq (attempt (remove_file (wr_staging wr))) (pret ()))"

definition write_blob ::
  "(bytes \<Rightarrow> string) \<Rightarrow> store \<Rightarrow> string \<Rightarrow> bytes \<Rightarrow> digest \<Rightarrow> ('z os_scheme, content_error, digest) prog" where
  "write_blob sha st ingest_ref bs expected =
     pbind (open_writer sha st ingest_ref) (\<lambda>wr w.
       case write_all wr bs w of
         (Inl e, wr', w') \<Rightarrow> pseq (drop_writer wr') (pfail e) w'
       | (Inr _, wr', w') \<Rightarrow> commit sha wr' (of_nat (length bs)) expected w')"

subsection \<open>Paths\<close>

definition blob_file :: "fpath \<Rightarrow> string \<Rightarrow> fpath" where
  "blob_file root h = root @ [''blobs'', ''sha256'', h]"

definition stage_file :: "(bytes \<Rightarrow> string) \<Rightarrow> fpath \<Rightarrow> string \<Rightarrow> u32 \<Rightarrow> nat \<Rightarrow> fpath" where
  "stage_file sha root ingest_ref pid seq = root @ [''ingest'', stage_name sha ingest_ref pid seq]"

lemma split_char_sha256: "split_char (CHR ''/'') (''sha256/'' @ h) = ''sha256'' # split_char (CHR ''/'') h"
  using split_char_append [of "CHR ''/''" "''sha256''" h] by simp

lemma blob_path_wf: "wf_digest d \<Longrightarrow> blob_path root d = blob_file root (hex d)"
  using lower_hex_no_sep [of "hex d"] split_char_sha256 [of "hex d"]
  by (auto simp: blob_path_def blob_file_def digest_blob_path_def wf_digest_def wf_hex_def split_char_id)

lemma stage_neq_blob [simp]:
  "stage_file sha root r pid k \<noteq> blob_file root h" "blob_file root h \<noteq> stage_file sha root r pid k"
  by (auto simp: stage_file_def blob_file_def)

lemma stage_file_seq:
  assumes "stage_file sha root r pid k = stage_file sha root r' pid' k'"
  shows "k = k'"
proof -
  let ?a = "\<lambda>r pid. hex (sha256 sha (str_bytes r)) @ ''.'' @ dec (unat pid)"
  have "?a r pid @ CHR ''.'' # dec k = ?a r' pid' @ CHR ''.'' # dec k'"
    using assms by (simp add: stage_file_def stage_name_def)
  then have "rsplit_once (CHR ''.'') (?a r pid @ CHR ''.'' # dec k) = Some (?a r' pid', dec k')"
    by (simp add: rsplit_once_Some)
  moreover have "rsplit_once (CHR ''.'') (?a r pid @ CHR ''.'' # dec k) = Some (?a r pid, dec k)"
    by (simp add: rsplit_once_Some)
  ultimately show ?thesis by simp
qed

lemma from_hasher_ok: "sha_hex_ok sha \<Longrightarrow> from_hasher sha fed = Inr (sha256 sha fed)"
  using digest_parse_print [OF sha256_wf, of sha fed]
  by (simp add: from_hasher_def digest_to_string_def sha256_def)

subsection \<open>Writers running side by side\<close>

text \<open>The state of the store while any number of ingests run: the world, and the writers that
  are open, each by an identifier of its task. A writer is \<open>Writing\<close> until its commit has
  verified it, then \<open>Verified\<close> until the publication has run. The process opens fewer than
  \<open>2 ^ 64\<close> writers: an open is enabled while \<open>INGEST_SEQ\<close> has not come round.\<close>

datatype job = Writing writer | Verified writer digest

fun job_writer :: "job \<Rightarrow> writer" where
  "job_writer (Writing wr) = wr"
| "job_writer (Verified wr d) = wr"

record ingest =
  ig_world :: os
  ig_jobs :: "nat \<Rightarrow> job option"

inductive ingest_step :: "(bytes \<Rightarrow> string) \<Rightarrow> fpath \<Rightarrow> ingest \<Rightarrow> ingest \<Rightarrow> bool"
  for sha :: "bytes \<Rightarrow> string" and root :: fpath
where
  ig_open: "jobs i = None \<Longrightarrow> os_seq w \<noteq> - 1 \<Longrightarrow> open_writer sha \<lparr>st_root = root\<rparr> r w = (Inr wr, w') \<Longrightarrow>
    ingest_step sha root \<lparr>ig_world = w, ig_jobs = jobs\<rparr> \<lparr>ig_world = w', ig_jobs = jobs(i \<mapsto> Writing wr)\<rparr>"
| ig_open_fails: "jobs i = None \<Longrightarrow> os_seq w \<noteq> - 1 \<Longrightarrow> open_writer sha \<lparr>st_root = root\<rparr> r w = (Inl e, w') \<Longrightarrow>
    ingest_step sha root \<lparr>ig_world = w, ig_jobs = jobs\<rparr> \<lparr>ig_world = w', ig_jobs = jobs\<rparr>"
| ig_write: "jobs i = Some (Writing wr) \<Longrightarrow> writer_write wr buf w = (r, wr', w') \<Longrightarrow>
    ingest_step sha root \<lparr>ig_world = w, ig_jobs = jobs\<rparr> \<lparr>ig_world = w', ig_jobs = jobs(i \<mapsto> Writing wr')\<rparr>"
| ig_drop: "jobs i = Some (Writing wr) \<Longrightarrow> drop_writer wr w = (r, w') \<Longrightarrow>
    ingest_step sha root \<lparr>ig_world = w, ig_jobs = jobs\<rparr> \<lparr>ig_world = w', ig_jobs = jobs(i := None)\<rparr>"
| ig_verify: "jobs i = Some (Writing wr) \<Longrightarrow> commit_verify sha wr sz d w = (Inr c, w') \<Longrightarrow>
    ingest_step sha root \<lparr>ig_world = w, ig_jobs = jobs\<rparr> \<lparr>ig_world = w', ig_jobs = jobs(i \<mapsto> Verified wr c)\<rparr>"
| ig_verify_fails: "jobs i = Some (Writing wr) \<Longrightarrow> commit_verify sha wr sz d w = (Inl e, w') \<Longrightarrow>
    ingest_step sha root \<lparr>ig_world = w, ig_jobs = jobs\<rparr> \<lparr>ig_world = w', ig_jobs = jobs(i := None)\<rparr>"
| ig_publish: "jobs i = Some (Verified wr d) \<Longrightarrow> commit_publish wr d w = (r, w') \<Longrightarrow>
    ingest_step sha root \<lparr>ig_world = w, ig_jobs = jobs\<rparr> \<lparr>ig_world = w', ig_jobs = jobs(i := None)\<rparr>"
| ig_remove: "wf_digest d \<Longrightarrow> remove_blob \<lparr>st_root = root\<rparr> d w = (r, w') \<Longrightarrow>
    ingest_step sha root \<lparr>ig_world = w, ig_jobs = jobs\<rparr> \<lparr>ig_world = w', ig_jobs = jobs\<rparr>"

definition blobs_ok :: "(bytes \<Rightarrow> string) \<Rightarrow> fpath \<Rightarrow> 'z os_scheme \<Rightarrow> bool" where
  "blobs_ok sha root w \<longleftrightarrow> (\<forall>h bs. lookup w (blob_file root h) = Some (File bs) \<longrightarrow> sha bs = h)"

definition is_stage :: "(bytes \<Rightarrow> string) \<Rightarrow> fpath \<Rightarrow> nat \<Rightarrow> fpath \<Rightarrow> bool" where
  "is_stage sha root n p \<longleftrightarrow> (\<exists>r pid k. p = stage_file sha root r pid k \<and> k < n)"

definition writer_ok :: "(bytes \<Rightarrow> string) \<Rightarrow> fpath \<Rightarrow> 'z os_scheme \<Rightarrow> writer \<Rightarrow> bool" where
  "writer_ok sha root w wr \<longleftrightarrow>
     wr_root wr = root
     \<and> is_stage sha root (unat (os_seq w)) (wr_staging wr)
     \<and> wr_file wr = Some (length (wr_hasher wr))
     \<and> wr_written wr = of_nat (length (wr_hasher wr))
     \<and> lookup w (wr_staging wr) = Some (File (wr_hasher wr))"

fun job_ok :: "(bytes \<Rightarrow> string) \<Rightarrow> fpath \<Rightarrow> 'z os_scheme \<Rightarrow> job \<Rightarrow> bool" where
  "job_ok sha root w (Writing wr) \<longleftrightarrow> writer_ok sha root w wr"
| "job_ok sha root w (Verified wr d) \<longleftrightarrow> writer_ok sha root w wr \<and> d = sha256 sha (wr_hasher wr)"

definition ingest_inv :: "(bytes \<Rightarrow> string) \<Rightarrow> fpath \<Rightarrow> ingest \<Rightarrow> bool" where
  "ingest_inv sha root s \<longleftrightarrow>
     blobs_ok sha root (ig_world s)
     \<and> (\<forall>i j. ig_jobs s i = Some j \<longrightarrow> job_ok sha root (ig_world s) j)
     \<and> (\<forall>i j a b. ig_jobs s i = Some a \<and> ig_jobs s j = Some b \<and> i \<noteq> j \<longrightarrow>
          wr_staging (job_writer a) \<noteq> wr_staging (job_writer b))"

definition ingest_init :: "(bytes \<Rightarrow> string) \<Rightarrow> fpath \<Rightarrow> ingest \<Rightarrow> bool" where
  "ingest_init sha root s \<longleftrightarrow> blobs_ok sha root (ig_world s) \<and> ig_jobs s = (\<lambda>_. None)"

subsection \<open>What each operation does to the files\<close>

lemma writer_write_frame:
  "writer_write wr buf w = (r, wr', w') \<Longrightarrow> frame (\<lambda>q. q = wr_staging wr) w w'"
  by (auto simp: writer_write_def write_at_def frame_def fs_simps Let_def
      split: option.splits node.splits if_splits)

lemma writer_write_ok:
  assumes "writer_ok sha root w wr" "writer_write wr buf w = (r, wr', w')"
  shows "writer_ok sha root w' wr' \<and> wr_staging wr' = wr_staging wr"
  using assms
  by (auto simp: writer_ok_def writer_write_def write_at_def Let_def fs_simps accepted_def
      split: if_splits io_event.splits)

lemma drop_writer_frame: "steps (frame (\<lambda>q. q = wr_staging wr)) (drop_writer wr)"
  unfolding drop_writer_def by (intro frm.steps_rules frame_remove_file) simp

lemma commit_verify_frame: "steps (frame (\<lambda>q. q = wr_staging wr)) (commit_verify sha wr sz d)"
  unfolding commit_verify_def
  by (auto intro!: frm.steps_rules frame_remove_file frame_sync_handle)

lemma sync_handle_frame: "sync_handle w = (r, w') \<Longrightarrow> frame (\<lambda>q. False) w w'"
  by (rule stepsD [OF frame_sync_handle])

text \<open>A verification that succeeds found the expected size and digest and changed no file.\<close>

lemma commit_verify_Inr:
  assumes "sha_hex_ok sha" "commit_verify sha wr sz d w = (Inr c, w')"
  shows "c = d \<and> d = sha256 sha (wr_hasher wr) \<and> wr_written wr = sz \<and> frame (\<lambda>q. False) w w'"
proof -
  have "steps (frame (\<lambda>q. False)) (pwhen b (with_err CIo (pseq sync_handle sync_handle)))" for b
    by (intro frm.steps_rules frame_sync_handle)
  then have f: "frame (\<lambda>q. False) u v"
    if "pwhen b (with_err CIo (pseq sync_handle sync_handle)) u = (x, v)" for b u v x
    using that by (rule stepsD)
  show ?thesis
    using assms f
    by (auto simp: commit_verify_def prog_Inr from_hasher_ok split: if_splits)
qed

lemma commit_publish_frame:
  "steps (frame (\<lambda>q. q = wr_staging wr \<or> q = blob_path (wr_root wr) d)) (commit_publish wr d)"
  unfolding commit_publish_def Let_def
  by (auto intro!: frm.steps_rules frame_calls)

lemma commit_publish_blob:
  assumes "commit_publish wr d w = (r, w')" "wr_staging wr \<noteq> blob_path (wr_root wr) d"
    and "lookup w (wr_staging wr) = Some (File c)"
    and "lookup w' (blob_path (wr_root wr) d) = Some (File bs)"
  shows "bs = c \<or> lookup w (blob_path (wr_root wr) d) = Some (File bs)"
proof -
  let ?dest = "blob_path (wr_root wr) d" and ?st = "wr_staging wr"
  have ren: "lookup v ?dest = Some (File bs) \<Longrightarrow> lookup u ?st = Some (File bs) \<or> lookup u ?dest = Some (File bs)"
    if "rename ?st ?dest u = (x, v)" for u v :: "'a os_scheme" and x
    using that assms(2)
    by (auto simp: rename_def syscall_def fs_simps split: if_splits option.splits node.splits)
  show ?thesis
    using assms
    by (auto simp: commit_publish_def Let_def prog_eq is_file_def fs_simps frame_def
        split: if_splits dest!: create_dir_all_frame remove_file_frame ren)
qed

lemma unat_succ: "(n :: u64) \<noteq> - 1 \<Longrightarrow> unat (n + 1) = Suc (unat n)"
  using unatSuc [of n] by (simp add: add.commute add_eq_0_iff)

lemma open_writer_files:
  assumes "open_writer sha \<lparr>st_root = root\<rparr> r w = (res, w')" "os_seq w \<noteq> - 1"
    and "q \<noteq> stage_file sha root r (os_pid w) (unat (os_seq w))"
  shows "lookup w' q = Some (File bs) \<longleftrightarrow> lookup w q = Some (File bs)"
  using assms
  by (auto simp: open_writer_def Let_def prog_eq frame_def fs_simps stage_file_def
      dest!: create_dir_all_frame create_file_frame)

lemma open_writer_seq:
  assumes "open_writer sha \<lparr>st_root = root\<rparr> r w = (res, w')" "os_seq w \<noteq> - 1"
  shows "unat (os_seq w) \<le> unat (os_seq w')"
  using assms
  by (auto simp: open_writer_def Let_def prog_eq frame_def unat_succ
      dest!: create_dir_all_frame create_file_frame)

lemma create_file_Inr: "create_file p w = (Inr u, w') \<Longrightarrow> lookup w' p = Some (File [])"
  by (auto simp: create_file_def syscall_def fs_simps split: if_splits)

lemma open_writer_ok:
  assumes "open_writer sha \<lparr>st_root = root\<rparr> r w = (Inr wr, w')" "os_seq w \<noteq> - 1"
  shows "writer_ok sha root w' wr
    \<and> wr_staging wr = stage_file sha root r (os_pid w) (unat (os_seq w))"
proof -
  from assms(1) obtain w1 w2 where w1: "create_dir_all (root @ [''ingest'']) w = (Inr (), w1)"
    and wr: "wr = \<lparr>wr_root = root, wr_staging = stage_file sha root r (os_pid w1) (unat (os_seq w1)),
      wr_file = Some 0, wr_hasher = [], wr_written = 0\<rparr>"
    and w2: "create_file (stage_file sha root r (os_pid w1) (unat (os_seq w1)))
      (os_seq_update (\<lambda>n. n + 1) w1) = (Inr (), w')"
    by (auto simp: open_writer_def Let_def prog_Inr stage_file_def)
  from create_dir_all_frame [OF w1] have same: "os_seq w1 = os_seq w" "os_pid w1 = os_pid w" by (auto simp: frame_def)
  from create_file_frame [OF w2] same assms(2) have "unat (os_seq w') = Suc (unat (os_seq w))"
    by (simp add: frame_def unat_succ)
  with wr same create_file_Inr [OF w2] show ?thesis
    by (auto simp: writer_ok_def is_stage_def)
qed

subsection \<open>The invariant\<close>

lemma job_ok_iff:
  "job_ok sha root w j \<longleftrightarrow>
     writer_ok sha root w (job_writer j) \<and>
     (case j of Writing _ \<Rightarrow> True | Verified wr d \<Rightarrow> d = sha256 sha (wr_hasher wr))"
  by (cases j) auto

lemma job_okD:
  "ingest_inv sha root \<lparr>ig_world = w, ig_jobs = jobs\<rparr> \<Longrightarrow> jobs i = Some j \<Longrightarrow> job_ok sha root w j"
  by (auto simp: ingest_inv_def)

lemma job_stage:
  "ingest_inv sha root \<lparr>ig_world = w, ig_jobs = jobs\<rparr> \<Longrightarrow> jobs i = Some j \<Longrightarrow>
     is_stage sha root (unat (os_seq w)) (wr_staging (job_writer j))"
  by (drule (1) job_okD) (simp add: job_ok_iff writer_ok_def)

lemma is_stage_mono: "is_stage sha root n p \<Longrightarrow> n \<le> m \<Longrightarrow> is_stage sha root m p"
  unfolding is_stage_def by (metis order_less_le_trans)

lemma ingest_inv_update:
  assumes inv: "ingest_inv sha root \<lparr>ig_world = w, ig_jobs = jobs\<rparr>"
    and blobs: "blobs_ok sha root w'"
    and seq: "unat (os_seq w) \<le> unat (os_seq w')"
    and others: "\<And>k j bs. k \<noteq> i \<Longrightarrow> jobs k = Some j \<Longrightarrow>
      lookup w (wr_staging (job_writer j)) = Some (File bs) \<Longrightarrow>
      lookup w' (wr_staging (job_writer j)) = Some (File bs)"
    and new: "\<And>j. new = Some j \<Longrightarrow> job_ok sha root w' j"
    and fresh: "\<And>j k a. new = Some j \<Longrightarrow> k \<noteq> i \<Longrightarrow> jobs k = Some a \<Longrightarrow>
      wr_staging (job_writer a) \<noteq> wr_staging (job_writer j)"
  shows "ingest_inv sha root \<lparr>ig_world = w', ig_jobs = jobs(i := new)\<rparr>"
proof -
  have "job_ok sha root w' j" if "k \<noteq> i" "jobs k = Some j" for k j
  proof -
    from inv that(2) have "job_ok sha root w j" by (auto simp: ingest_inv_def)
    with others [OF that] seq show ?thesis
      by (auto simp: job_ok_iff writer_ok_def intro: is_stage_mono)
  qed
  then show ?thesis
    using inv blobs new fresh unfolding ingest_inv_def by (auto split: if_splits) metis+
qed

lemma is_stage_blob [simp]: "\<not> is_stage sha root n (blob_file root h)"
  by (auto simp: is_stage_def)

lemma is_stage_neq_blob: "is_stage sha root n p \<Longrightarrow> p \<noteq> blob_file root h"
  by auto

lemma blob_file_inject [simp]: "blob_file root h = blob_file root h' \<longleftrightarrow> h = h'"
  by (simp add: blob_file_def)

lemma blobs_ok_frame:
  assumes "blobs_ok sha root w" "frame P w w'"
    and "\<And>h bs. P (blob_file root h) \<Longrightarrow> lookup w' (blob_file root h) = Some (File bs) \<Longrightarrow> sha bs = h"
  shows "blobs_ok sha root w'"
  using assms unfolding blobs_ok_def by (metis frame_file)

text \<open>A step that touches the staging file of its own job, and blobs to good effect.\<close>

lemma ingest_inv_own:
  assumes inv: "ingest_inv sha root \<lparr>ig_world = w, ig_jobs = jobs\<rparr>"
    and own: "jobs i = Some j" and st: "p = wr_staging (job_writer j)"
    and fr: "frame (\<lambda>q. q = p \<or> (\<exists>h. q = blob_file root h \<and> B h)) w w'"
    and blobs: "\<And>h bs. B h \<Longrightarrow> lookup w' (blob_file root h) = Some (File bs) \<Longrightarrow> sha bs = h"
    and new: "\<And>j'. new = Some j' \<Longrightarrow> job_ok sha root w' j' \<and> wr_staging (job_writer j') = p"
  shows "ingest_inv sha root \<lparr>ig_world = w', ig_jobs = jobs(i := new)\<rparr>"
proof -
  have stage: "is_stage sha root (unat (os_seq w)) (wr_staging (job_writer a))"
    if "jobs k = Some a" for k a
    using inv that by (rule job_stage)
  have other: "wr_staging (job_writer a) \<noteq> p" if "k \<noteq> i" "jobs k = Some a" for k a
    using inv that own st by (auto simp: ingest_inv_def)
  show ?thesis
  proof (rule ingest_inv_update [OF inv])
    show "blobs_ok sha root w'"
    proof (rule blobs_ok_frame [OF _ fr])
      show "blobs_ok sha root w" using inv by (simp add: ingest_inv_def)
      show "sha bs = h"
        if "blob_file root h = p \<or> (\<exists>h'. blob_file root h = blob_file root h' \<and> B h')"
          "lookup w' (blob_file root h) = Some (File bs)" for h bs
        using that blobs [of h bs] is_stage_neq_blob [OF stage [OF own], of h] st by auto
    qed
    show "unat (os_seq w) \<le> unat (os_seq w')" using frame_os [OF fr] by simp
    show "lookup w' (wr_staging (job_writer a)) = Some (File bs)"
      if "k \<noteq> i" "jobs k = Some a" "lookup w (wr_staging (job_writer a)) = Some (File bs)" for k a bs
      using frame_file [OF fr, of "wr_staging (job_writer a)" bs] that other
        is_stage_neq_blob [OF stage] by blast
  qed (use new other in auto)
qed

lemma ingest_inv_stage_only:
  assumes "ingest_inv sha root \<lparr>ig_world = w, ig_jobs = jobs\<rparr>" "jobs i = Some j"
    and "p = wr_staging (job_writer j)" "frame (\<lambda>q. q = p) w w'"
    and "\<And>j'. new = Some j' \<Longrightarrow> job_ok sha root w' j' \<and> wr_staging (job_writer j') = p"
  shows "ingest_inv sha root \<lparr>ig_world = w', ig_jobs = jobs(i := new)\<rparr>"
  by (rule ingest_inv_own [where B = "\<lambda>_. False"]) (use assms in auto)

lemma frame_mono: "frame P w w' \<Longrightarrow> (\<And>q. P q \<Longrightarrow> Q q) \<Longrightarrow> frame Q w w'"
  by (auto simp: frame_def)

lemma publish_inv:
  assumes sha: "sha_hex_ok sha"
    and inv: "ingest_inv sha root \<lparr>ig_world = w, ig_jobs = jobs\<rparr>"
    and own: "jobs i = Some (Verified wr d)" and run: "commit_publish wr d w = (r, w')"
  shows "ingest_inv sha root \<lparr>ig_world = w', ig_jobs = jobs(i := None)\<rparr>"
proof -
  from inv own have "job_ok sha root w (Verified wr d)"
    unfolding ingest_inv_def by (metis ingest.select_convs)
  then have ok: "writer_ok sha root w wr" and d: "d = sha256 sha (wr_hasher wr)" by simp_all
  have dest: "blob_path (wr_root wr) d = blob_file root (hex d)"
    using ok d blob_path_wf [OF sha256_wf [OF sha]] by (simp add: writer_ok_def)
  have neq: "wr_staging wr \<noteq> blob_file root (hex d)"
    using ok by (auto simp: writer_ok_def)
  show ?thesis
  proof (rule ingest_inv_own [OF inv own refl, where B = "\<lambda>h. h = hex d"])
    show "frame (\<lambda>q. q = wr_staging (job_writer (Verified wr d)) \<or> (\<exists>h. q = blob_file root h \<and> h = hex d)) w w'"
      using stepsD [OF commit_publish_frame run] dest by (auto elim: frame_mono)
    show "sha bs = h" if "h = hex d" "lookup w' (blob_file root h) = Some (File bs)" for h bs
    proof -
      have "bs = wr_hasher wr \<or> lookup w (blob_file root (hex d)) = Some (File bs)"
        using commit_publish_blob [OF run, of "wr_hasher wr" bs] that ok dest neq
        by (auto simp: writer_ok_def)
      then show ?thesis
        using inv that d by (auto simp: ingest_inv_def blobs_ok_def sha256_def)
    qed
  qed simp
qed

lemma open_writer_inv:
  assumes inv: "ingest_inv sha root \<lparr>ig_world = w, ig_jobs = jobs\<rparr>"
    and seq: "os_seq w \<noteq> - 1" and run: "open_writer sha \<lparr>st_root = root\<rparr> r w = (res, w')"
    and new: "\<And>j. new = Some j \<Longrightarrow> \<exists>wr. res = Inr wr \<and> j = Writing wr"
    and free: "jobs i = None"
  shows "ingest_inv sha root \<lparr>ig_world = w', ig_jobs = jobs(i := new)\<rparr>"
proof (rule ingest_inv_update [OF inv])
  let ?st = "stage_file sha root r (os_pid w) (unat (os_seq w))"
  have diff: "wr_staging (job_writer a) \<noteq> ?st" if "jobs k = Some a" for k a
  proof -
    from inv that have "is_stage sha root (unat (os_seq w)) (wr_staging (job_writer a))"
      by (rule job_stage)
    then show ?thesis using stage_file_seq by (fastforce simp: is_stage_def)
  qed
  show "blobs_ok sha root w'"
    using inv open_writer_files [OF run seq] by (auto simp: ingest_inv_def blobs_ok_def)
  show "unat (os_seq w) \<le> unat (os_seq w')" by (rule open_writer_seq [OF run seq])
  show "lookup w' (wr_staging (job_writer a)) = Some (File bs)"
    if "k \<noteq> i" "jobs k = Some a" "lookup w (wr_staging (job_writer a)) = Some (File bs)" for k a bs
    using that open_writer_files [OF run seq diff] by blast
  fix j assume j: "new = Some j"
  with new obtain wr where wr: "res = Inr wr" "j = Writing wr" by blast
  with open_writer_ok [of sha root r w wr w'] run seq
  show "job_ok sha root w' j" by simp
  show "wr_staging (job_writer a) \<noteq> wr_staging (job_writer j)" if "jobs k = Some a" for k a
    using diff [OF that] open_writer_ok [of sha root r w wr w'] run seq wr by simp
qed

lemma remove_blob_inv:
  assumes inv: "ingest_inv sha root \<lparr>ig_world = w, ig_jobs = jobs\<rparr>"
    and d: "wf_digest d" and run: "remove_blob \<lparr>st_root = root\<rparr> d w = (r, w')"
  shows "ingest_inv sha root \<lparr>ig_world = w', ig_jobs = jobs\<rparr>"
proof -
  let ?p = "blob_file root (hex d)"
  have "steps (frame (\<lambda>q. q = ?p)) (remove_blob \<lparr>st_root = root\<rparr> d)"
    unfolding remove_blob_def Let_def
    by (auto intro!: frm.steps_rules frame_calls simp: blob_path_wf [OF d])
  from stepsD [OF this run] have fr: "frame (\<lambda>q. q = ?p) w w'" .
  have sub: "lookup w' q = Some (File bs) \<Longrightarrow> lookup w q = Some (File bs)" for q bs
    using run
    by (auto simp: remove_blob_def Let_def prog_eq is_file_def remove_file_def syscall_def fs_simps
        split: if_splits option.splits node.splits)
  have stage: "wr_staging (job_writer a) \<noteq> ?p" if "jobs k = Some a" for k a
    using job_stage [OF inv that] by auto
  have "job_ok sha root w' j" if "jobs k = Some j" for k j
  proof -
    from inv that have "job_ok sha root w j" by (rule job_okD)
    with frame_file [OF fr stage [OF that]] frame_os [OF fr] show ?thesis
      by (auto simp: job_ok_iff writer_ok_def)
  qed
  moreover have "blobs_ok sha root w'"
    using inv sub by (auto simp: ingest_inv_def blobs_ok_def)
  ultimately show ?thesis
    using inv by (auto simp: ingest_inv_def)
qed

lemma writer_ok_unchanged:
  "writer_ok sha root w wr \<Longrightarrow> frame (\<lambda>q. False) w w' \<Longrightarrow> writer_ok sha root w' wr"
  by (auto simp: writer_ok_def frame_def)

lemma ingest_step_inv:
  assumes "sha_hex_ok sha" "ingest_inv sha root s" "ingest_step sha root s t"
  shows "ingest_inv sha root t"
  using assms(3,2)
proof cases
  case (ig_open jobs i w r wr w')
  with assms(2) show ?thesis by (auto intro!: open_writer_inv [of sha root w jobs r "Inr wr" w'])
next
  case (ig_open_fails jobs i w r e w')
  with assms(2) open_writer_inv [of sha root w jobs r "Inl e" w' None i]
  show ?thesis by (simp add: fun_upd_idem)
next
  case (ig_write jobs i wr buf w r wr' w')
  then have "writer_ok sha root w wr" using assms(2) job_okD by fastforce
  with writer_write_ok [OF this ig_write(4)] writer_write_frame [OF ig_write(4)] ig_write assms(2)
  show ?thesis by (auto intro!: ingest_inv_stage_only [of sha root w jobs i "Writing wr"])
next
  case (ig_drop jobs i wr w r w')
  with assms(2) stepsD [OF drop_writer_frame ig_drop(4)] show ?thesis
    by (auto intro!: ingest_inv_stage_only [of sha root w jobs i "Writing wr"])
next
  case (ig_verify jobs i wr sz d w c w')
  note v = commit_verify_Inr [OF assms(1) ig_verify(4)]
  have ok: "writer_ok sha root w wr" using assms(2) ig_verify job_okD by fastforce
  with v have ok': "writer_ok sha root w' wr" using writer_ok_unchanged by blast
  with v ig_verify assms(2) show ?thesis
    by (auto intro!: ingest_inv_stage_only [of sha root w jobs i "Writing wr"] elim: frame_mono)
next
  case (ig_verify_fails jobs i wr sz d w e w')
  with assms(2) stepsD [OF commit_verify_frame ig_verify_fails(4)] show ?thesis
    by (auto intro!: ingest_inv_stage_only [of sha root w jobs i "Writing wr"])
next
  case (ig_publish jobs i wr d w r w')
  with assms(1,2) publish_inv show ?thesis by blast
next
  case (ig_remove d w r w' jobs)
  with assms(2) remove_blob_inv show ?thesis by blast
qed

interpretation ingest_sys: invariant_system
  "\<lambda>s. sha_hex_ok sha \<and> ingest_init sha root s" "ingest_step sha root"
  "\<lambda>s. sha_hex_ok sha \<and> ingest_inv sha root s" for sha root
proof
  show "sha_hex_ok sha \<and> ingest_inv sha root s" if "sha_hex_ok sha \<and> ingest_init sha root s" for s
    using that by (auto simp: ingest_init_def ingest_inv_def)
  show "sha_hex_ok sha \<and> ingest_inv sha root t"
    if "sha_hex_ok sha \<and> ingest_inv sha root s" "ingest_step sha root s t" for s t
    using that ingest_step_inv by blast
qed

subsection \<open>One complete write\<close>

lemma write_all_ok:
  assumes "writer_ok sha root w wr" "write_all wr buf w = (r, wr', w')"
  shows "writer_ok sha root w' wr' \<and> wr_staging wr' = wr_staging wr
    \<and> frame (\<lambda>q. q = wr_staging wr) w w' \<and> (r = Inr () \<longrightarrow> wr_hasher wr' = wr_hasher wr @ buf)"
  using assms
proof (induction wr buf w rule: write_all.induct)
  case (1 wr buf w)
  show ?case
  proof (cases "buf = []")
    case True
    with 1 show ?thesis by (simp add: write_all.simps [of wr] frm.order_refl)
  next
    case False
    obtain x wr1 w1 where x: "writer_write wr buf w = (x, wr1, w1)"
      by (cases "writer_write wr buf w") auto
    note one = writer_write_ok [OF 1(2) x] writer_write_frame [OF x]
    show ?thesis
    proof (cases "x \<in> range Inl \<or> x = Inr 0")
      case True
      with 1(3) False x one show ?thesis by (auto simp: write_all.simps [of wr])
    next
      case rec: False
      then obtain n where n: "x = Inr n" "n \<noteq> 0" by (cases x) auto
      from 1(3) False x n have run: "write_all wr1 (drop n buf) w1 = (r, wr', w')"
        by (simp add: write_all.simps [of wr])
      have hash: "wr_hasher wr1 = wr_hasher wr @ take n buf"
        using x n 1(2) by (auto simp: writer_write_def writer_ok_def split: prod.splits sum.splits)
      have "writer_ok sha root w' wr' \<and> wr_staging wr' = wr_staging wr1
        \<and> frame (\<lambda>q. q = wr_staging wr1) w1 w'
        \<and> (r = Inr () \<longrightarrow> wr_hasher wr' = wr_hasher wr1 @ drop n buf)"
        using 1(1) [OF False x [symmetric] n(1) refl n(2) _ run] one by simp
      with one hash show ?thesis by (auto intro: frm.order_trans)
    qed
  qed
qed

lemma commit_publish_Inl:
  assumes "commit_publish wr d w = (Inl e, w')"
  shows "frame (\<lambda>q. False) w w'"
  using assms
  by (auto simp: commit_publish_def Let_def prog_eq split: if_splits
      dest!: create_dir_all_frame rename_Inl is_file_frame intro: frm.order_trans)

lemma commit_publish_Inr:
  assumes "commit_publish wr d w = (Inr x, w')" "wr_staging wr \<noteq> blob_path (wr_root wr) d"
    and "lookup w (wr_staging wr) = Some (File c)"
  shows "x = d \<and> (\<exists>b. lookup w' (blob_path (wr_root wr) d) = Some (File b) \<and>
    (b = c \<or> lookup w (blob_path (wr_root wr) d) = Some (File b)))"
  using assms
  by (auto simp: commit_publish_def Let_def prog_Inr is_file_def fs_simps frame_def
      split: if_splits option.splits node.splits
      dest!: create_dir_all_frame remove_file_frame rename_Inr)

lemma stage_frame_blobs:
  "frame (\<lambda>q. q = p) u v \<Longrightarrow> is_stage sha root n p \<Longrightarrow>
     lookup v (blob_file root h) = Some (File c) \<longleftrightarrow> lookup u (blob_file root h) = Some (File c)"
  by (rule frame_file) auto

lemma write_blob_cases:
  assumes sha: "sha_hex_ok sha" and seq: "os_seq w \<noteq> - 1"
    and run: "write_blob sha \<lparr>st_root = root\<rparr> r bs expected w = (res, w')"
  obtains (failed) e where "res = Inl e"
      "\<And>h c. lookup w' (blob_file root h) = Some (File c) \<longleftrightarrow> lookup w (blob_file root h) = Some (File c)"
  | (committed) wr w1 where "expected = sha256 sha bs" "commit_publish wr expected w1 = (res, w')"
      "writer_ok sha root w1 wr" "wr_hasher wr = bs"
      "\<And>h c. lookup w1 (blob_file root h) = Some (File c) \<longleftrightarrow> lookup w (blob_file root h) = Some (File c)"
proof -
  let ?same = "\<lambda>v. \<forall>h c. lookup v (blob_file root h) = Some (File c) \<longleftrightarrow> lookup w (blob_file root h) = Some (File c)"
  have fr: "?same v" if "?same u" "frame (\<lambda>q. q = p) u v" "is_stage sha root n p" for u v p n
    using that(1) stage_frame_blobs [OF that(2,3)] by simp
  obtain x w1 where o: "open_writer sha \<lparr>st_root = root\<rparr> r w = (x, w1)" by fastforce
  from open_writer_files [OF o seq] have s1: "?same w1" by simp
  show ?thesis
  proof (cases x)
    case (Inl e)
    with run o s1 failed show ?thesis by (auto simp: write_blob_def prog_eq)
  next
    case (Inr wr)
    with open_writer_ok o seq have ok: "writer_ok sha root w1 wr" by blast
    then have st: "is_stage sha root (unat (os_seq w1)) (wr_staging wr)" by (simp add: writer_ok_def)
    have h0: "wr_hasher wr = []" using o Inr by (auto simp: open_writer_def Let_def prog_Inr)
    obtain y wr2 w2 where wa: "write_all wr bs w1 = (y, wr2, w2)" by (cases "write_all wr bs w1") auto
    note two = write_all_ok [OF ok wa]
    from fr [OF s1 _ st] two have s2: "?same w2" by blast
    show ?thesis
    proof (cases y)
      case (Inl e)
      with run o Inr wa obtain z where dr: "drop_writer wr2 w2 = (z, w')" and res: "\<exists>e. res = Inl e"
        by (auto simp: write_blob_def prog_eq)
      have "?same w'"
        using fr [OF s2] stepsD [OF drop_writer_frame dr] st two by auto
      with res failed show ?thesis by blast
    next
      case y: (Inr u)
      with run o Inr wa have cm: "commit sha wr2 (of_nat (length bs)) expected w2 = (res, w')"
        by (simp add: write_blob_def prog_simps)
      obtain c w3 where cv: "commit_verify sha wr2 (of_nat (length bs)) expected w2 = (c, w3)" by fastforce
      have s3: "?same w3"
        using fr [OF s2] stepsD [OF commit_verify_frame cv] st two by auto
      show ?thesis
      proof (cases c)
        case (Inl e)
        with cm cv s3 failed show ?thesis by (auto simp: commit_def prog_eq)
      next
        case c: (Inr d)
        from commit_verify_Inr [OF sha cv [unfolded c]] y two h0
        have "expected = sha256 sha bs" "d = expected" "frame (\<lambda>q. False) w2 w3" "wr_hasher wr2 = bs" by auto
        moreover from this two have "writer_ok sha root w3 wr2" using writer_ok_unchanged by blast
        ultimately show ?thesis
          using committed [of wr2 w3] cm cv c s3 by (auto simp: commit_def prog_eq)
      qed
    qed
  qed
qed

subsection \<open>Runs without failures\<close>

definition no_file_above :: "'z os_scheme \<Rightarrow> fpath \<Rightarrow> bool" where
  "no_file_above w p \<longleftrightarrow> (\<forall>(q, n) \<in> set (os_fs w). below q p \<longrightarrow> n = Dir)"

lemma no_file_aboveD: "no_file_above w p \<Longrightarrow> lookup w q = Some (File bs) \<Longrightarrow> \<not> below q p"
  by (auto simp: no_file_above_def lookup_def dest!: map_of_SomeD)

lemma create_dir_all_quiet:
  assumes "os_sched w = []" "\<And>q bs. lookup w q = Some (File bs) \<Longrightarrow> \<not> below q p"
  obtains w' where "create_dir_all p w = (Inr (), w')" "os_sched w' = []" "dirs_added p w w'"
    "p \<noteq> [] \<Longrightarrow> lookup w' p = Some Dir"
proof -
  from create_dirs_quiet [of w "[]" p] assms obtain w' where
    w': "create_dir_all p w = (Inr (), w')" "os_sched w' = []"
    by (auto simp: create_dir_all_def)
  moreover have "dirs_added p w w'" by (rule stepsD [OF create_dir_all_adds w'(1)])
  moreover have "lookup w' p = Some Dir" if "p \<noteq> []"
    using create_dir_all_done [OF w'(1), of "length p"] that by simp
  ultimately show thesis using that by blast
qed

lemma open_writer_quiet:
  assumes "os_sched w = []" "os_seq w \<noteq> - 1" "no_file_above w (root @ [''ingest''])"
    and "lookup w (stage_file sha root r (os_pid w) (unat (os_seq w))) \<noteq> Some Dir"
  shows "\<exists>wr w'. open_writer sha \<lparr>st_root = root\<rparr> r w = (Inr wr, w') \<and> os_sched w' = []
    \<and> wr_hasher wr = [] \<and> (\<forall>h. lookup w' (blob_file root h) = lookup w (blob_file root h))"
proof -
  let ?dir = "root @ [''ingest'']" and ?st = "stage_file sha root r (os_pid w) (unat (os_seq w))"
  have nf: "\<And>q bs. lookup w q = Some (File bs) \<Longrightarrow> \<not> below q ?dir"
    using no_file_aboveD [OF assms(3)] by blast
  obtain w1 where
    w1: "create_dir_all ?dir w = (Inr (), w1)" "os_sched w1 = []" "dirs_added ?dir w w1"
      "lookup w1 ?dir = Some Dir"
    by (rule create_dir_all_quiet [OF assms(1) nf]) auto
  from w1(3) have os: "os_seq w1 = os_seq w" "os_pid w1 = os_pid w" by (auto simp: dirs_added_def)
  have "\<not> below ?st ?dir" by (auto simp: below_iff stage_file_def)
  with dirs_added_outside [OF w1(3)] assms(4) have nd: "lookup w1 ?st \<noteq> Some Dir" by simp
  have "\<not> below (blob_file root h) ?dir" for h by (auto simp: below_iff blob_file_def)
  then have bl: "lookup w1 (blob_file root h) = lookup w (blob_file root h)" for h
    using dirs_added_outside [OF w1(3)] by blast
  have "parent_ok (tick (os_seq_update f w1)) ?st" for f
    using w1(4) by (simp add: parent_ok_def stage_file_def butlast_append fs_simps)
  then have "create_file ?st (os_seq_update f w1) = (Inr (), set_node ?st (File []) (tick (os_seq_update f w1)))" for f
    using nd w1(2) by (simp add: create_file_def syscall_def next_event_def fs_simps)
  then have "open_writer sha \<lparr>st_root = root\<rparr> r w =
      (Inr \<lparr>wr_root = root, wr_staging = ?st, wr_file = Some 0, wr_hasher = [], wr_written = 0\<rparr>,
       set_node ?st (File []) (tick (os_seq_update (\<lambda>n. n + 1) w1)))"
    using w1 os by (simp add: open_writer_def Let_def prog_simps stage_file_def)
  with bl w1(2) show ?thesis by (simp add: fs_simps)
qed

lemma write_all_quiet:
  assumes "writer_ok sha root w wr" "os_sched w = []"
  shows "\<exists>wr' w'. write_all wr bs w = (Inr (), wr', w') \<and> os_sched w' = []
    \<and> (\<forall>h. lookup w' (blob_file root h) = lookup w (blob_file root h))"
proof (cases "bs = []")
  case True
  with assms show ?thesis by (simp add: write_all.simps)
next
  case False
  from assms(1) have "wr_staging wr \<noteq> blob_file root h" for h by (auto simp: writer_ok_def)
  then have "blob_file root h \<noteq> wr_staging wr" for h by metis
  with assms have "\<exists>wr' w'. writer_write wr bs w = (Inr (length bs), wr', w') \<and> os_sched w' = []
    \<and> (\<forall>h. lookup w' (blob_file root h) = lookup w (blob_file root h))"
    by (auto simp: writer_write_def write_at_def writer_ok_def next_event_def accepted_def fs_simps)
  with False show ?thesis by (auto simp: write_all.simps [of wr bs w] write_all.simps [of _ "[]"])
qed

lemma quiet_commit: "steps stays_quiet (commit sha wr sz d)"
  unfolding commit_def commit_verify_def commit_publish_def Let_def
  by (auto intro!: qt.steps_rules quiet_calls quiet_create_dir_all)

lemma sync_quiet: "os_sched w = [] \<Longrightarrow> sync_handle w = (Inr (), tick w)"
  by (simp add: sync_handle_def syscall_def next_event_def)

lemma commit_quiet:
  assumes sha: "sha_hex_ok sha" and ok: "writer_ok sha root w wr" and q: "os_sched w = []"
    and nf: "\<And>q bs. lookup w q = Some (File bs) \<Longrightarrow> \<not> below q (root @ [''blobs'', ''sha256''])"
    and nd: "lookup w (blob_file root (sha (wr_hasher wr))) \<noteq> Some Dir"
  shows "fst (commit sha wr (of_nat (length (wr_hasher wr))) (sha256 sha (wr_hasher wr)) w)
    = Inr (sha256 sha (wr_hasher wr))"
proof -
  let ?d = "sha256 sha (wr_hasher wr)" and ?st = "wr_staging wr"
  let ?dest = "blob_file root (hex ?d)" and ?dir = "root @ [''blobs'', ''sha256'']"
  let ?w = "tick (tick (tick w))"
  have dest: "blob_path root ?d = ?dest" by (rule blob_path_wf [OF sha256_wf [OF sha]])
  have bl: "butlast ?dest = ?dir" by (simp add: blob_file_def butlast_append)
  have v: "commit_verify sha wr (of_nat (length (wr_hasher wr))) ?d w = (Inr ?d, tick (tick w))"
    using q ok from_hasher_ok [OF sha]
    by (simp add: commit_verify_def prog_simps sync_quiet writer_ok_def fs_simps)
  have root: "wr_root wr = root" using ok by (simp add: writer_ok_def)
  show ?thesis
  proof (cases "\<exists>b. lookup w ?dest = Some (File b)")
    case True
    then show ?thesis
      using q v root dest
      by (auto simp: commit_def commit_publish_def Let_def prog_simps is_file_def fs_simps next_event_def)
  next
    case False
    with nd have none: "lookup w ?dest = None"
      by (cases "lookup w ?dest"; simp add: sha256_def) (metis node.exhaust)
    have nf': "lookup ?w q = Some (File bs) \<Longrightarrow> \<not> below q ?dir" for q bs
      using nf by (simp add: fs_simps)
    have "os_sched ?w = []" using q by (simp add: fs_simps)
    then obtain w1 where
      w1: "create_dir_all ?dir ?w = (Inr (), w1)" "os_sched w1 = []" "dirs_added ?dir ?w w1"
        "lookup w1 ?dir = Some Dir"
      by (rule create_dir_all_quiet) (use nf' in auto)
    have "\<not> below ?dest ?dir" by (auto simp: below_iff blob_file_def)
    with dirs_added_outside [OF w1(3)] none have d1: "lookup w1 ?dest = None" by (simp add: fs_simps)
    have s1: "lookup w1 ?st = Some (File (wr_hasher wr))"
      using ok w1(3) by (simp add: writer_ok_def fs_simps)
    have "parent_ok (tick w1) ?dest" using w1(4) bl by (simp add: parent_ok_def fs_simps blob_file_def butlast_append)
    with s1 d1 w1(2) have "fst (rename ?st ?dest w1) = Inr ()"
      by (simp add: rename_def syscall_def next_event_def fs_simps)
    with q v root dest none bl w1(1) show ?thesis
      by (simp add: commit_def commit_publish_def Let_def prog_simps is_file_def fs_simps next_event_def
          split: prod.splits)
  qed
qed

subsection \<open>Properties\<close>

text \<open>C6. Content integrity. In every state the store can reach from a sound one, whatever
  the interleaving of opens, writes, commits, drops and removals of any number of writers and
  whatever calls fail or write short on the way, reading a blob by its digest gives bytes with
  that digest.\<close>

theorem blobs_never_corrupt:
  assumes "sha_hex_ok sha"
    and "reachable (ingest_init sha root) (ingest_step sha root) s"
    and "wf_digest d" and "fst (read_blob \<lparr>st_root = root\<rparr> d (ig_world s)) = Inr bs"
  shows "sha256 sha bs = d"
proof -
  from assms(1,2) have "blobs_ok sha root (ig_world s)"
    using ingest_sys.reachable_inv [of sha root s] by (simp add: ingest_inv_def)
  moreover from assms(4) have "lookup (ig_world s) (blob_file root (hex d)) = Some (File bs)"
    using blob_path_wf [OF assms(3)]
    by (auto simp: read_blob_def read_file_def syscall_def with_err_run fs_simps
        split: if_splits option.splits node.splits)
  ultimately show ?thesis by (simp add: blobs_ok_def sha256_def)
qed

definition sample_ingest :: ingest where
  "sample_ingest = \<lparr>ig_world = \<lparr>os_fs = [(blob_file [''var''] (sample_sha [3, 7]), File [3, 7])],
     os_sched = [], os_pid = 1, os_seq = 0\<rparr>, ig_jobs = (\<lambda>_. None)\<rparr>"

theorem blobs_never_corrupt_witness:
  "fst (read_blob \<lparr>st_root = [''var'']\<rparr> (sha256 sample_sha [7]) (ig_world sample_ingest)) = Inr [3, 7] \<and>
   sha256 sample_sha [3, 7] = sha256 sample_sha [7]"
proof -
  let ?d = "sha256 sample_sha [7]"
  have wf: "wf_digest ?d" by (rule sha256_wf [OF sample_sha_ok])
  have "ingest_init sample_sha [''var''] sample_ingest"
    by (auto simp: ingest_init_def sample_ingest_def blobs_ok_def lookup_def blob_file_def split: if_splits)
  then have re: "reachable (ingest_init sample_sha [''var'']) (ingest_step sample_sha [''var'']) sample_ingest"
    by (rule reach_init)
  have rd: "fst (read_blob \<lparr>st_root = [''var'']\<rparr> ?d (ig_world sample_ingest)) = Inr [3, 7]"
    using blob_path_wf [OF wf, of "[''var'']"]
    by (simp add: read_blob_def read_file_def syscall_def with_err_run sample_ingest_def lookup_def
        next_event_def tick_def sha256_def sample_sha_def)
  with blobs_never_corrupt [OF sample_sha_ok re wf rd] show ?thesis by simp
qed

text \<open>C20. A whole \<open>write_blob\<close>, for every pattern of failing and short calls. Success means
  that the expected digest is the digest of the bytes given, and that a file is in place under
  it, which holds those bytes unless one was there before; no other blob is touched. Failure
  leaves every blob as it was.\<close>

theorem write_blob_every_schedule:
  assumes "sha_hex_ok sha" "os_seq w \<noteq> - 1"
  shows "case write_blob sha \<lparr>st_root = root\<rparr> r bs expected w of
      (Inr d, w') \<Rightarrow> d = expected \<and> d = sha256 sha bs
        \<and> (\<exists>c. lookup w' (blob_path root d) = Some (File c)
             \<and> (c = bs \<or> lookup w (blob_path root d) = Some (File c)))
        \<and> (\<forall>h c. h = hex d \<or> (lookup w' (blob_file root h) = Some (File c)) =
             (lookup w (blob_file root h) = Some (File c)))
    | (Inl e, w') \<Rightarrow> (\<forall>h c. (lookup w' (blob_file root h) = Some (File c)) =
        (lookup w (blob_file root h) = Some (File c)))"
proof -
  obtain res w' where run: "write_blob sha \<lparr>st_root = root\<rparr> r bs expected w = (res, w')" by fastforce
  from assms run show ?thesis
  proof (cases rule: write_blob_cases)
    case (failed e)
    with run show ?thesis by simp
  next
    case (committed wr w1)
    have wf: "wf_digest expected" using committed(1) sha256_wf [OF assms(1)] by simp
    have neq: "wr_staging wr \<noteq> blob_file root h" and root: "wr_root wr = root"
      and st: "lookup w1 (wr_staging wr) = Some (File bs)" for h
      using committed(3,4) by (auto simp: writer_ok_def)
    have dest: "blob_path root expected = blob_file root (hex expected)" by (rule blob_path_wf [OF wf])
    show ?thesis
    proof (cases res)
      case (Inl e)
      with committed(2) have "frame (\<lambda>q. False) w1 w'" by (auto intro: commit_publish_Inl)
      with committed(5) run Inl show ?thesis by (simp add: frame_def)
    next
      case (Inr d)
      with committed(2) commit_publish_Inr [of wr expected w1 d w' bs] neq root st dest committed(5)
      have "d = expected \<and> (\<exists>c. lookup w' (blob_file root (hex d)) = Some (File c)
             \<and> (c = bs \<or> lookup w (blob_file root (hex d)) = Some (File c)))" by auto
      moreover have "lookup w' (blob_file root h) = Some (File c) \<longleftrightarrow> lookup w (blob_file root h) = Some (File c)"
        if "h \<noteq> hex expected" for h c
        using frame_file [OF stepsD [OF commit_publish_frame committed(2)], of "blob_file root h" c]
          that neq [of h, symmetric] root dest committed(5) by simp
      ultimately show ?thesis using run Inr committed(1) dest by auto
    qed
  qed
qed

definition sample_world :: os where
  "sample_world = \<lparr>os_fs = [], os_sched = [IoOk, IoOk, IoOk, IoShort 1], os_pid = 1, os_seq = 0\<rparr>"

theorem write_blob_every_schedule_witness:
  "case write_blob sample_sha \<lparr>st_root = [''var'']\<rparr> ''layer'' [1, 2, 7] (sha256 sample_sha [1, 2, 7]) sample_world of
      (Inr d, w') \<Rightarrow> d = sha256 sample_sha [1, 2, 7]
        \<and> (\<exists>c. lookup w' (blob_path [''var''] d) = Some (File c)
             \<and> (c = [1, 2, 7] \<or> lookup sample_world (blob_path [''var''] d) = Some (File c)))
    | (Inl e, w') \<Rightarrow> (\<forall>h c. (lookup w' (blob_file [''var''] h) = Some (File c)) =
        (lookup sample_world (blob_file [''var''] h) = Some (File c)))"
proof -
  have "os_seq sample_world \<noteq> - 1" by (simp add: sample_world_def)
  from write_blob_every_schedule [OF sample_sha_ok this, where root = "[''var'']" and r = "''layer''"
      and bs = "[1, 2, 7]" and expected = "sha256 sample_sha [1, 2, 7]"]
  show ?thesis by (auto split: prod.splits sum.splits)
qed

text \<open>Write, then read. When no call fails and nothing but directories is in the way,
  \<open>write_blob\<close> with the right digest does succeed, and a blob that was absent reads back as
  the bytes written.\<close>

theorem write_blob_then_read:
  assumes sha: "sha_hex_ok sha" and q: "os_sched w = []" and seq: "os_seq w \<noteq> - 1"
    and above: "no_file_above w (root @ [''ingest''])" "no_file_above w (root @ [''blobs'', ''sha256''])"
    and stage: "lookup w (stage_file sha root r (os_pid w) (unat (os_seq w))) \<noteq> Some Dir"
    and fresh: "lookup w (blob_path root (sha256 sha bs)) = None"
  shows "\<exists>w'. write_blob sha \<lparr>st_root = root\<rparr> r bs (sha256 sha bs) w = (Inr (sha256 sha bs), w')
    \<and> fst (read_blob \<lparr>st_root = root\<rparr> (sha256 sha bs) w') = Inr bs"
proof -
  let ?d = "sha256 sha bs"
  have dest: "blob_path root ?d = blob_file root (sha bs)"
    using blob_path_wf [OF sha256_wf [OF sha]] by (simp add: sha256_def)
  from open_writer_quiet [OF q seq above(1) stage] obtain wr w1 where
    o: "open_writer sha \<lparr>st_root = root\<rparr> r w = (Inr wr, w1)" "os_sched w1 = []" "wr_hasher wr = []"
      "\<And>h. lookup w1 (blob_file root h) = lookup w (blob_file root h)" by blast
  note ow = open_writer_ok [OF o(1) seq] and of = open_writer_files [OF o(1) seq]
  from write_all_quiet [of sha root w1 wr bs] ow o(2) obtain wr2 w2 where
    wa: "write_all wr bs w1 = (Inr (), wr2, w2)" "os_sched w2 = []"
      "\<And>h. lookup w2 (blob_file root h) = lookup w1 (blob_file root h)" by blast
  have two: "writer_ok sha root w2 wr2" "wr_hasher wr2 = bs" "wr_staging wr2 = wr_staging wr"
      "frame (\<lambda>q. q = wr_staging wr) w1 w2"
    using write_all_ok [OF _ wa(1)] ow o(3) by auto
  have nf: "\<not> below q (root @ [''blobs'', ''sha256''])" if "lookup w2 q = Some (File c)" for q c
  proof (cases "q = wr_staging wr")
    case True
    then show ?thesis using ow by (auto simp: below_iff stage_file_def)
  next
    case False
    with frame_file [OF two(4)] of ow that have "lookup w q = Some (File c)" by auto
    then show ?thesis by (rule no_file_aboveD [OF above(2)])
  qed
  have "fst (commit sha wr2 (of_nat (length bs)) ?d w2) = Inr ?d"
    using commit_quiet [OF sha two(1) wa(2) nf] wa(3) o(4) two(2) fresh dest by simp
  then obtain w' where c: "commit sha wr2 (of_nat (length bs)) ?d w2 = (Inr ?d, w')"
    by (cases "commit sha wr2 (of_nat (length bs)) ?d w2") auto
  then have run: "write_blob sha \<lparr>st_root = root\<rparr> r bs ?d w = (Inr ?d, w')"
    using o(1) wa(1) by (simp add: write_blob_def prog_simps)
  have "os_sched w' = []"
    using stepsD [OF quiet_commit c] wa(2) by (simp add: stays_quiet_def)
  from sha seq run have "lookup w' (blob_path root ?d) = Some (File bs)"
  proof (cases rule: write_blob_cases)
    case (committed wr3 w3)
    moreover from this have "wr_root wr3 = root" "lookup w3 (wr_staging wr3) = Some (File bs)"
        "wr_staging wr3 \<noteq> blob_path root ?d"
      using dest by (auto simp: writer_ok_def)
    ultimately show ?thesis
      using commit_publish_Inr [of wr3 ?d w3 ?d w' bs] fresh dest by auto
  qed simp
  with run \<open>os_sched w' = []\<close> show ?thesis
    by (auto simp: read_blob_def with_err_run read_file_def syscall_def next_event_def fs_simps)
qed

definition quiet_world :: os where
  "quiet_world = \<lparr>os_fs = [([''var''], Dir)], os_sched = [], os_pid = 1, os_seq = 0\<rparr>"

theorem write_blob_then_read_witness:
  "\<exists>w'. write_blob sample_sha \<lparr>st_root = [''var'']\<rparr> ''layer'' [1, 7] (sha256 sample_sha [1, 7]) quiet_world
      = (Inr (sha256 sample_sha [1, 7]), w')
    \<and> fst (read_blob \<lparr>st_root = [''var'']\<rparr> (sha256 sample_sha [1, 7]) w') = Inr [1, 7]"
proof -
  have "lookup quiet_world (blob_path [''var''] d) = None" for d
    by (simp add: quiet_world_def lookup_def blob_path_def)
  moreover have "os_sched quiet_world = []" "os_seq quiet_world \<noteq> - 1"
    "no_file_above quiet_world p"
    "lookup quiet_world (stage_file sample_sha [''var''] r pid k) \<noteq> Some Dir" for p r pid k
    by (simp_all add: quiet_world_def no_file_above_def lookup_def stage_file_def)
  ultimately show ?thesis
    by (intro write_blob_then_read [OF sample_sha_ok]) auto
qed

text \<open>A commit with the wrong size or the wrong digest is refused. No blob appears or
  changes; when no call fails the error names the mismatch, size before digest, and the
  staging file is gone.\<close>

theorem commit_rejects:
  assumes sha: "sha_hex_ok sha" and ok: "writer_ok sha root w wr"
    and bad: "wr_written wr = sz \<longrightarrow> d \<noteq> sha256 sha (wr_hasher wr)"
  shows "case commit sha wr sz d w of (r, w') \<Rightarrow>
    (\<exists>e. r = Inl e) \<and>
    (\<forall>h c. (lookup w' (blob_file root h) = Some (File c)) = (lookup w (blob_file root h) = Some (File c))) \<and>
    (os_sched w = [] \<longrightarrow> lookup w' (wr_staging wr) = None \<and>
       r = Inl (if wr_written wr \<noteq> sz then CSizeMismatch sz (wr_written wr)
                else CDigestMismatch d (sha256 sha (wr_hasher wr))))"
proof -
  obtain r w' where run: "commit_verify sha wr sz d w = (r, w')" by fastforce
  have "r \<noteq> Inr x" for x using commit_verify_Inr [OF sha, of wr sz d w x w'] run bad by auto
  then have "\<exists>e. r = Inl e" by (cases r) auto
  moreover have "(lookup w' (blob_file root h) = Some (File c)) = (lookup w (blob_file root h) = Some (File c))" for h c
    using stage_frame_blobs [OF stepsD [OF commit_verify_frame run]] ok by (auto simp: writer_ok_def)
  moreover have "lookup w' (wr_staging wr) = None \<and>
       r = Inl (if wr_written wr \<noteq> sz then CSizeMismatch sz (wr_written wr)
                else CDigestMismatch d (sha256 sha (wr_hasher wr)))" if "os_sched w = []"
    using run that ok bad from_hasher_ok [OF sha]
    by (auto simp: commit_verify_def prog_simps sync_quiet writer_ok_def remove_file_def syscall_def
        next_event_def fs_simps split: if_splits)
  ultimately show ?thesis
    using run by (auto simp: commit_def prog_simps)
qed

theorem commit_rejects_witness:
  "\<exists>r w'. commit sample_sha
     \<lparr>wr_root = [], wr_staging = stage_file sample_sha [] ''a'' 1 0, wr_file = Some 1,
      wr_hasher = [7], wr_written = 1\<rparr> 1 (sha256 sample_sha [8])
     \<lparr>os_fs = [(stage_file sample_sha [] ''a'' 1 0, File [7])], os_sched = [], os_pid = 1, os_seq = 1\<rparr> = (r, w')
   \<and> r = Inl (CDigestMismatch (sha256 sample_sha [8]) (sha256 sample_sha [7]))
   \<and> lookup w' (stage_file sample_sha [] ''a'' 1 0) = None"
proof -
  let ?wr = "\<lparr>wr_root = [], wr_staging = stage_file sample_sha [] ''a'' 1 0, wr_file = Some 1,
      wr_hasher = [7], wr_written = 1\<rparr>"
  let ?w = "\<lparr>os_fs = [(stage_file sample_sha [] ''a'' 1 0, File [7])], os_sched = [], os_pid = 1, os_seq = 1\<rparr>"
  have "is_stage sample_sha [] 1 (stage_file sample_sha [] ''a'' 1 0)"
    unfolding is_stage_def by (intro exI conjI) (rule refl, simp)
  then have ok: "writer_ok sample_sha [] ?w ?wr" by (simp add: writer_ok_def lookup_def)
  have "sha256 sample_sha [8] \<noteq> sha256 sample_sha [7]"
    by (simp add: sha256_def sample_sha_def hex_digit_def Let_def)
  with commit_rejects [OF sample_sha_ok ok, of 1 "sha256 sample_sha [8]"] show ?thesis
    by (auto split: prod.splits)
qed

end
