(* ===== verification/Records.thy ===== *)
theory Records
  imports Core_Types
begin

section \<open>Metadata records\<close>

text \<open>
  \<open>crates/metadata/src/records.rs\<close>: what the daemon persists of sandboxes, containers and
  images, and the legal transitions of a container's state. A \<open>HashMap<String, String>\<close> is
  an association list, read with \<open>map_of\<close>; a field that the source gives a serde default is
  an ordinary field here.
\<close>

type_synonym str_map = "(string \<times> string) list"

datatype sandbox_state = Ready | NotReady

datatype container_state = Created | Running | Exited | Unknown

fun can_transition_to :: "container_state \<Rightarrow> container_state \<Rightarrow> bool" where
  "can_transition_to Created Running = True"
| "can_transition_to Created Exited = True"
| "can_transition_to Running Exited = True"
| "can_transition_to _ Unknown = True"
| "can_transition_to Unknown Running = True"
| "can_transition_to Unknown Exited = True"
| "can_transition_to a b = (a = b)"

record sandbox_record =
  sb_id :: string
  sb_name :: string
  sb_k8s_namespace :: string
  sb_uid :: string
  sb_attempt :: u32
  sb_state :: sandbox_state
  sb_netns_path :: "string option"
  sb_ip :: "string option"
  sb_runtime_handler :: string
  sb_pause_container_id :: "string option"
  sb_snapshot_key :: "string option"
  sb_created_at :: u64
  sb_labels :: str_map
  sb_annotations :: str_map
  sb_log_directory :: string
  sb_host_network :: bool
  sb_host_pid :: bool
  sb_host_ipc :: bool
  sb_shared_pid :: bool
  sb_shared_ipc :: bool
  sb_pid_holder_pid :: "int option"
  sb_userns_mode_pod :: bool
  sb_userns_uid_mappings :: "(u32 \<times> u32 \<times> u32) list"
  sb_userns_gid_mappings :: "(u32 \<times> u32 \<times> u32) list"
  sb_resolv_conf_path :: "string option"
  sb_sysctls :: str_map
  sb_cgroup_parent :: string
  sb_hostname :: string

record mount_record =
  mr_host_path :: string
  mr_container_path :: string
  mr_readonly :: bool
  mr_propagation :: int
  mr_recursive_read_only :: bool

record resources_record =
  rr_cpu_period :: i64
  rr_cpu_quota :: i64
  rr_cpu_shares :: i64
  rr_memory_limit_in_bytes :: i64
  rr_cpuset_cpus :: string
  rr_cpuset_mems :: string

record container_record =
  ct_id :: string
  ct_sandbox_id :: string
  ct_name :: string
  ct_attempt :: u32
  ct_image_ref :: string
  ct_image_id :: string
  ct_state :: container_state
  ct_snapshot_key :: string
  ct_log_path :: string
  ct_created_at :: u64
  ct_started_at :: "u64 option"
  ct_finished_at :: "u64 option"
  ct_exit_code :: "int option"
  ct_reason :: "string option"
  ct_labels :: str_map
  ct_annotations :: str_map
  ct_mounts :: "mount_record list"
  ct_resources :: "resources_record option"
  ct_crun_root :: "string option"
  ct_bundle_dir :: "string option"
  ct_pid :: "int option"
  ct_restart_count :: u32
  ct_stdin :: bool
  ct_stdin_once :: bool
  ct_devices :: "(string \<times> string \<times> string) list"

record image_record =
  im_name :: string
  im_target_digest :: string
  im_image_id :: string
  im_repo_tags :: "string list"
  im_repo_digests :: "string list"
  im_size :: u64
  im_layer_digests :: "string list"
  im_chain_ids :: "string list"
  im_user :: string

subsection \<open>The transition relation\<close>

lemma can_transition_iff:
  "can_transition_to a b \<longleftrightarrow>
     a = b \<or> b = Unknown \<or> a \<noteq> Running \<and> b = Running \<and> a \<noteq> Exited \<or> b = Exited"
  by (cases a; cases b) auto

lemma can_transition_refl [simp]: "can_transition_to a a"
  by (cases a) auto

text \<open>The order of a container's life: how far its state has come. A state that does not go back in
  this order is one the state machine allows.\<close>

fun phase :: "container_state \<Rightarrow> nat" where
  "phase Created = 0"
| "phase Running = 1"
| "phase Unknown = 2"
| "phase Exited = 3"

lemma phase_inject: "phase a = phase b \<longleftrightarrow> a = b"
  by (cases a; cases b) auto

instantiation container_state :: linorder
begin

definition less_eq_container_state :: "container_state \<Rightarrow> container_state \<Rightarrow> bool" where
  "a \<le> b \<longleftrightarrow> phase a \<le> phase b"

definition less_container_state :: "container_state \<Rightarrow> container_state \<Rightarrow> bool" where
  "a < b \<longleftrightarrow> phase a < phase b"

instance
  by standard (auto simp: less_eq_container_state_def less_container_state_def phase_inject)

end

lemma le_transition: "a \<le> b \<Longrightarrow> can_transition_to a b"
  by (cases a; cases b) (auto simp: less_eq_container_state_def)

lemma created_least [simp]: "Created \<le> s" "s \<le> Created \<longleftrightarrow> s = Created"
  by (cases s; simp add: less_eq_container_state_def)+

lemma exited_greatest [simp]: "s \<le> Exited" "Exited \<le> s \<longleftrightarrow> s = Exited"
  by (cases s; simp add: less_eq_container_state_def)+

lemma running_before_unknown [simp]: "Running \<le> Unknown"
  by (simp add: less_eq_container_state_def)

text \<open>An exited container runs again only by way of \<open>Unknown\<close>, and nothing goes back to
  \<open>Created\<close>.\<close>

lemma no_return_to_created: "can_transition_to a Created \<longleftrightarrow> a = Created"
  by (cases a) auto

lemma exited_settles: "can_transition_to Exited b \<longleftrightarrow> b = Exited \<or> b = Unknown"
  by (cases b) auto

end
