(* ===== verification/Metadata_Store.thy ===== *)
theory Metadata_Store
  imports Records "HOL-Library.AList"
begin

section \<open>The metadata store\<close>

text \<open>
  \<open>crates/metadata/src/lib.rs\<close>. The database is redb and the encoding is serde_json, neither
  is part of the repository: \<open>redb\<close> is a record of the calls the source makes on a database
  \<open>'d\<close> and its write transactions \<open>'t\<close>, and \<open>ser\<close>, \<open>des\<close> are the two directions of
  serde for the record type stored. \<open>redb_ok\<close> states what the redb documentation promises: a
  transaction sees the database it began on with its own changes, a commit that succeeds
  installs them, reading gives what is stored, iteration goes through the pairs of a table
  once each. Any call may fail.
\<close>

datatype meta_error = Db string | Serde string

datatype kind = Image | Container | Sandbox | SnapshotRef | Lease

fun kind_table :: "kind \<Rightarrow> string" where
  "kind_table Image = ''images''"
| "kind_table Container = ''containers''"
| "kind_table Sandbox = ''sandboxes''"
| "kind_table SnapshotRef = ''snapshot_refs''"
| "kind_table Lease = ''leases''"

definition meta_key :: "string \<Rightarrow> string \<Rightarrow> string" where
  "meta_key namespace i = namespace @ ''/'' @ i"

record ('d, 't) redb =
  rd_begin_write :: "'d \<Rightarrow> string + 't"
  rd_open_table :: "string \<Rightarrow> 't \<Rightarrow> string + 't"
  rd_insert :: "string \<Rightarrow> string \<Rightarrow> bytes \<Rightarrow> 't \<Rightarrow> string + 't"
  rd_remove :: "string \<Rightarrow> string \<Rightarrow> 't \<Rightarrow> string + (bytes option \<times> 't)"
  rd_commit :: "'t \<Rightarrow> 'd \<Rightarrow> string + 'd"
  rd_get :: "string \<Rightarrow> string \<Rightarrow> 'd \<Rightarrow> string + bytes option"
  rd_iter :: "string \<Rightarrow> 'd \<Rightarrow> string + (string \<times> bytes) list"

text \<open>\<open>created\<close> is the result of \<open>Database::create\<close>, which opens a database that exists.\<close>

definition store_open :: "('d, 't) redb \<Rightarrow> string + 'd \<Rightarrow> meta_error + 'd" where
  "store_open rd created =
     rbind (map_err Db created) (\<lambda>d.
     rbind (map_err Db (rd_begin_write rd d)) (\<lambda>wtxn.
     rbind (map_err Db (rd_open_table rd ''images'' wtxn)) (\<lambda>wtxn.
     rbind (map_err Db (rd_open_table rd ''containers'' wtxn)) (\<lambda>wtxn.
     rbind (map_err Db (rd_open_table rd ''sandboxes'' wtxn)) (\<lambda>wtxn.
     rbind (map_err Db (rd_open_table rd ''snapshot_refs'' wtxn)) (\<lambda>wtxn.
     rbind (map_err Db (rd_open_table rd ''leases'' wtxn)) (\<lambda>wtxn.
     map_err Db (rd_commit rd wtxn d))))))))"

definition store_put ::
  "('d, 't) redb \<Rightarrow> ('v \<Rightarrow> string + bytes) \<Rightarrow> kind \<Rightarrow> string \<Rightarrow> string \<Rightarrow> 'v \<Rightarrow> 'd \<Rightarrow> meta_error + 'd" where
  "store_put rd ser kind namespace i v d =
     rbind (map_err Serde (ser v)) (\<lambda>bs.
     let k = meta_key namespace i in
     rbind (map_err Db (rd_begin_write rd d)) (\<lambda>wtxn.
     rbind (map_err Db (rd_open_table rd (kind_table kind) wtxn)) (\<lambda>wtxn.
     rbind (map_err Db (rd_insert rd (kind_table kind) k bs wtxn)) (\<lambda>wtxn.
     map_err Db (rd_commit rd wtxn d)))))"

definition store_get ::
  "('d, 't) redb \<Rightarrow> (bytes \<Rightarrow> string + 'v) \<Rightarrow> kind \<Rightarrow> string \<Rightarrow> string \<Rightarrow> 'd \<Rightarrow> meta_error + 'v option" where
  "store_get rd des kind namespace i d =
     rbind (map_err Db (rd_get rd (kind_table kind) (meta_key namespace i) d)) (\<lambda>g.
       case g of
         Some bs \<Rightarrow> rbind (map_err Serde (des bs)) (\<lambda>v. Inr (Some v))
       | None \<Rightarrow> Inr None)"

definition store_delete ::
  "('d, 't) redb \<Rightarrow> kind \<Rightarrow> string \<Rightarrow> string \<Rightarrow> 'd \<Rightarrow> meta_error + (bool \<times> 'd)" where
  "store_delete rd kind namespace i d =
     (let k = meta_key namespace i in
     rbind (map_err Db (rd_begin_write rd d)) (\<lambda>wtxn.
     rbind (map_err Db (rd_open_table rd (kind_table kind) wtxn)) (\<lambda>wtxn.
     rbind (map_err Db (rd_remove rd (kind_table kind) k wtxn)) (\<lambda>(old, wtxn).
     rbind (map_err Db (rd_commit rd wtxn d)) (\<lambda>d'. Inr (old \<noteq> None, d'))))))"

definition store_list ::
  "('d, 't) redb \<Rightarrow> (bytes \<Rightarrow> string + 'v) \<Rightarrow> kind \<Rightarrow> string \<Rightarrow> 'd \<Rightarrow> meta_error + 'v list" where
  "store_list rd des kind namespace d =
     (let prefix = namespace @ ''/'' in
     rbind (map_err Db (rd_iter rd (kind_table kind) d)) (\<lambda>items.
     collect_results (map (\<lambda>(k, v). map_err Serde (des v))
       (filter (\<lambda>(k, v). starts_with k prefix) items))))"

subsection \<open>What the database promises\<close>

type_synonym db_view = "string \<Rightarrow> string \<Rightarrow> bytes option"

definition view_upd :: "string \<Rightarrow> string \<Rightarrow> bytes option \<Rightarrow> db_view \<Rightarrow> db_view" where
  "view_upd t k v m = m(t := (m t)(k := v))"

definition redb_ok :: "('d, 't) redb \<Rightarrow> ('d \<Rightarrow> db_view) \<Rightarrow> ('t \<Rightarrow> db_view) \<Rightarrow> bool" where
  "redb_ok rd view tview \<longleftrightarrow>
     (\<forall>d t. rd_begin_write rd d = Inr t \<longrightarrow> tview t = view d)
     \<and> (\<forall>n t t'. rd_open_table rd n t = Inr t' \<longrightarrow> tview t' = tview t)
     \<and> (\<forall>n k v t t'. rd_insert rd n k v t = Inr t' \<longrightarrow> tview t' = view_upd n k (Some v) (tview t))
     \<and> (\<forall>n k t o' t'. rd_remove rd n k t = Inr (o', t') \<longrightarrow>
          o' = tview t n k \<and> tview t' = view_upd n k None (tview t))
     \<and> (\<forall>t d d'. rd_commit rd t d = Inr d' \<longrightarrow> view d' = tview t)
     \<and> (\<forall>n k d g. rd_get rd n k d = Inr g \<longrightarrow> g = view d n k)
     \<and> (\<forall>n d xs. rd_iter rd n d = Inr xs \<longrightarrow> distinct (map fst xs) \<and> map_of xs = view d n)"

definition serde_ok :: "('v \<Rightarrow> string + bytes) \<Rightarrow> (bytes \<Rightarrow> string + 'v) \<Rightarrow> bool" where
  "serde_ok ser des \<longleftrightarrow> (\<forall>v bs. ser v = Inr bs \<longrightarrow> des bs = Inr v)"

lemma kind_table_inject [simp]: "kind_table a = kind_table b \<longleftrightarrow> a = b"
  by (cases a; cases b) auto

lemma meta_key_inject:
  "CHR ''/'' \<notin> set n \<Longrightarrow> CHR ''/'' \<notin> set n' \<Longrightarrow> meta_key n i = meta_key n' i' \<longleftrightarrow> n = n' \<and> i = i'"
  unfolding meta_key_def by (metis append_Cons append_Nil option.inject prod.inject split_once_append)

lemma meta_key_prefix:
  "CHR ''/'' \<notin> set n \<Longrightarrow> CHR ''/'' \<notin> set n' \<Longrightarrow> starts_with (meta_key n i) (n' @ ''/'') \<longleftrightarrow> n = n'"
proof
  assume n: "CHR ''/'' \<notin> set n" "CHR ''/'' \<notin> set n'" and "starts_with (meta_key n i) (n' @ ''/'')"
  then obtain t where "meta_key n i = meta_key n' t" by (auto simp: starts_with_iff meta_key_def)
  with n show "n = n'" by (simp add: meta_key_inject)
qed (auto simp: starts_with_iff meta_key_def)

lemma store_open_view:
  assumes "redb_ok rd view tview" "store_open rd (Inr d) = Inr d'"
  shows "view d' = view d"
proof -
  from assms(2) obtain t t1 t2 t3 t4 t5 where "rd_begin_write rd d = Inr t" "rd_open_table rd ''images'' t = Inr t1"
      "rd_open_table rd ''containers'' t1 = Inr t2" "rd_open_table rd ''sandboxes'' t2 = Inr t3"
      "rd_open_table rd ''snapshot_refs'' t3 = Inr t4" "rd_open_table rd ''leases'' t4 = Inr t5" "rd_commit rd t5 d = Inr d'"
    by (auto simp: store_open_def)
  with assms(1) show ?thesis unfolding redb_ok_def by metis
qed

lemma store_put_view:
  assumes "redb_ok rd view tview" "store_put rd ser kd ns i v d = Inr d'"
  shows "\<exists>bs. ser v = Inr bs \<and> view d' = view_upd (kind_table kd) (meta_key ns i) (Some bs) (view d)"
  using assms unfolding redb_ok_def store_put_def Let_def by auto

lemma store_delete_view:
  assumes "redb_ok rd view tview" "store_delete rd kd ns i d = Inr (b, d')"
  shows "view d' = view_upd (kind_table kd) (meta_key ns i) None (view d)
    \<and> b = (view d (kind_table kd) (meta_key ns i) \<noteq> None)"
proof -
  from assms(2) obtain t t1 o2 t2 where
    "rd_begin_write rd d = Inr t" "rd_open_table rd (kind_table kd) t = Inr t1"
    "rd_remove rd (kind_table kd) (meta_key ns i) t1 = Inr (o2, t2)"
    "rd_commit rd t2 d = Inr d'" "b = (o2 \<noteq> None)"
    by (auto simp: store_delete_def Let_def)
  with assms(1) show ?thesis unfolding redb_ok_def by metis
qed

text \<open>A read gives the error of the database, or the decoded value of the key.\<close>

definition view_get :: "(bytes \<Rightarrow> string + 'v) \<Rightarrow> db_view \<Rightarrow> kind \<Rightarrow> string \<Rightarrow> string \<Rightarrow> meta_error + 'v option" where
  "view_get des m kd ns i =
     (case m (kind_table kd) (meta_key ns i) of
        None \<Rightarrow> Inr None
      | Some bs \<Rightarrow> rbind (map_err Serde (des bs)) (\<lambda>v. Inr (Some v)))"

definition read_ok :: "('d, 't) redb \<Rightarrow> 'd \<Rightarrow> bool" where
  "read_ok rd d \<longleftrightarrow>
     (\<forall>n k. \<exists>g. rd_get rd n k d = Inr g) \<and> (\<forall>n. \<exists>xs. rd_iter rd n d = Inr xs)"

lemma store_get_view:
  assumes "redb_ok rd view tview" "read_ok rd d"
  shows "store_get rd des kd ns i d = view_get des (view d) kd ns i"
proof -
  from assms(2) obtain g where g: "rd_get rd (kind_table kd) (meta_key ns i) d = Inr g"
    unfolding read_ok_def by blast
  with assms(1) have "g = view d (kind_table kd) (meta_key ns i)" unfolding redb_ok_def by blast
  with g show ?thesis by (simp add: store_get_def view_get_def split: option.splits)
qed

text \<open>A database that satisfies \<open>redb_ok\<close>, for closed examples: tables as association
  lists, no failures.\<close>

type_synonym mem_db = "string \<Rightarrow> (string \<times> bytes) list"

definition mem_view :: "mem_db \<Rightarrow> db_view" where
  "mem_view d n = map_of (d n)"

definition mem_redb :: "(mem_db, mem_db) redb" where
  "mem_redb = \<lparr>rd_begin_write = Inr, rd_open_table = (\<lambda>n. Inr),
     rd_insert = (\<lambda>n k v t. Inr (t(n := AList.update k v (t n)))),
     rd_remove = (\<lambda>n k t. Inr (map_of (t n) k, t(n := AList.delete k (t n)))),
     rd_commit = (\<lambda>t d. Inr t), rd_get = (\<lambda>n k d. Inr (map_of (d n) k)),
     rd_iter = (\<lambda>n d. Inr (AList.clearjunk (d n)))\<rparr>"

lemma mem_view_upd:
  "mem_view (t(n := AList.update k v (t n))) = view_upd n k (Some v) (mem_view t)"
  "mem_view (t(n := AList.delete k (t n))) = view_upd n k None (mem_view t)"
  by (auto simp: mem_view_def view_upd_def fun_eq_iff update_conv' delete_conv')

lemma mem_redb_ok: "redb_ok mem_redb mem_view mem_view" "read_ok mem_redb d"
  by (auto simp: redb_ok_def read_ok_def mem_redb_def mem_view_upd map_of_clearjunk distinct_clearjunk)
    (simp_all add: mem_view_def)

lemma identity_serde_ok: "serde_ok (Inr :: bytes \<Rightarrow> string + bytes) Inr"
  by (simp add: serde_ok_def)

text \<open>Reading after a write: the record of the key changes, and nothing else.\<close>

lemma view_get_upd:
  assumes "CHR ''/'' \<notin> set ns" "CHR ''/'' \<notin> set ns'"
  shows "view_get des (view_upd (kind_table kd) (meta_key ns i) x m) kd' ns' i' =
      (if kd' = kd \<and> ns' = ns \<and> i' = i
       then (case x of None \<Rightarrow> Inr None | Some bs \<Rightarrow> rbind (map_err Serde (des bs)) (\<lambda>v. Inr (Some v)))
       else view_get des m kd' ns' i')"
  using meta_key_inject [of ns' ns i' i] assms by (auto simp: view_get_def view_upd_def)

lemma store_put_get:
  assumes "redb_ok rd view tview" "read_ok rd d" "read_ok rd d'" "CHR ''/'' \<notin> set ns" "CHR ''/'' \<notin> set ns'"
    and "store_put rd ser kd ns i v d = Inr d'"
  shows "serde_ok ser des \<Longrightarrow> store_get rd des kd ns i d' = Inr (Some v)"
    and "\<not> (kd' = kd \<and> ns' = ns \<and> i' = i) \<Longrightarrow> store_get rd des' kd' ns' i' d' = store_get rd des' kd' ns' i' d"
proof -
  show "serde_ok ser des \<Longrightarrow> store_get rd des kd ns i d' = Inr (Some v)"
    using store_put_view [OF assms(1,6)] view_get_upd [OF assms(4,4), of des] store_get_view [OF assms(1,3), of des]
    by (auto simp: serde_ok_def)
  show "\<not> (kd' = kd \<and> ns' = ns \<and> i' = i) \<Longrightarrow> store_get rd des' kd' ns' i' d' = store_get rd des' kd' ns' i' d"
    using store_put_view [OF assms(1,6)] view_get_upd [OF assms(4,5), of des']
      store_get_view [OF assms(1,2), of des'] store_get_view [OF assms(1,3), of des'] by auto
qed

lemma store_delete_get:
  assumes "redb_ok rd view tview" "read_ok rd d" "read_ok rd d'" "CHR ''/'' \<notin> set ns" "CHR ''/'' \<notin> set ns'"
    and "store_delete rd kd ns i d = Inr (b, d')"
  shows "b = (store_get rd des kd ns i d \<noteq> Inr None)" "store_get rd des kd ns i d' = Inr None"
    and "\<not> (kd' = kd \<and> ns' = ns \<and> i' = i) \<Longrightarrow> store_get rd des' kd' ns' i' d' = store_get rd des' kd' ns' i' d"
proof -
  have "view_get des (view d) kd ns i \<noteq> Inr None \<longleftrightarrow> view d (kind_table kd) (meta_key ns i) \<noteq> None"
    by (auto simp: view_get_def split: option.splits)
  then show "b = (store_get rd des kd ns i d \<noteq> Inr None)"
    using store_delete_view [OF assms(1,6)] store_get_view [OF assms(1,2), of des] by simp
  show "store_get rd des kd ns i d' = Inr None"
    using store_delete_view [OF assms(1,6)] view_get_upd [OF assms(4,4), of des] store_get_view [OF assms(1,3), of des] by simp
  show "\<not> (kd' = kd \<and> ns' = ns \<and> i' = i) \<Longrightarrow> store_get rd des' kd' ns' i' d' = store_get rd des' kd' ns' i' d"
    using store_delete_view [OF assms(1,6)] view_get_upd [OF assms(4,5), of des']
      store_get_view [OF assms(1,2), of des'] store_get_view [OF assms(1,3), of des'] by auto
qed

text \<open>What a listing holds.\<close>

lemma store_list_mem:
  assumes db: "redb_ok rd view tview" and reads: "read_ok rd d"
    and ns: "CHR ''/'' \<notin> set ns"
    and run: "store_list rd des kd ns d = Inr vs"
  shows "v \<in> set vs \<longleftrightarrow> (\<exists>i. store_get rd des kd ns i d = Inr (Some v))"
proof -
  from run obtain items where it: "rd_iter rd (kind_table kd) d = Inr items"
    and ls: "collect_results (map (\<lambda>(k, v). map_err Serde (des v))
      (filter (\<lambda>(k, v). starts_with k (ns @ ''/'')) items)) = Inr vs"
    by (auto simp: store_list_def Let_def)
  from it db have m: "map_of items = view d (kind_table kd)" and dist: "distinct (map fst items)"
    unfolding redb_ok_def by blast+
  let ?mine = "filter (\<lambda>(k, v). starts_with k (ns @ ''/'')) items"
  from ls have vs: "map (\<lambda>(k, v). map_err Serde (des v)) ?mine = map Inr vs"
    by (simp add: collect_results_Inr)
  have "v \<in> set vs \<longleftrightarrow> Inr v \<in> set (map (\<lambda>(k, v). map_err Serde (des v)) ?mine)"
    unfolding vs by auto
  also have "\<dots> \<longleftrightarrow> (\<exists>k b. (k, b) \<in> set items \<and> starts_with k (ns @ ''/'') \<and> des b = Inr v)"
    by (auto simp: image_iff) (metis map_err_eq_Inr)+
  also have "\<dots> \<longleftrightarrow> (\<exists>i b. view d (kind_table kd) (meta_key ns i) = Some b \<and> des b = Inr v)"
    using dist by (auto simp: starts_with_iff meta_key_def simp flip: m)
  also have "\<dots> \<longleftrightarrow> (\<exists>i. store_get rd des kd ns i d = Inr (Some v))"
    by (auto simp: store_get_view [OF db reads] view_get_def split: option.splits)
  finally show ?thesis .
qed

subsection \<open>Properties\<close>

text \<open>C24. The store is a map from kind, namespace and identifier to records. For namespaces
  without a slash (the daemon uses \<open>k8s.io\<close>), after a \<open>put\<close> that succeeds the record
  comes back by its identifier and every other kind, namespace and identifier reads as before;
  after a \<open>delete\<close> that succeeds it is gone, the result says whether it was there, and
  everything else reads as before.\<close>

theorem metadata_is_a_map:
  assumes db: "redb_ok rd view tview" and sd: "serde_ok ser des"
    and reads: "read_ok rd d" "read_ok rd d'"
    and ns: "CHR ''/'' \<notin> set ns" "CHR ''/'' \<notin> set ns'"
  shows "(store_put rd ser kd ns i v d = Inr d' \<longrightarrow>
      store_get rd des kd' ns' i' d' =
        (if kd' = kd \<and> ns' = ns \<and> i' = i then Inr (Some v) else store_get rd des kd' ns' i' d)) \<and>
    (store_delete rd kd ns i d = Inr (b, d') \<longrightarrow>
      b = (store_get rd des kd ns i d \<noteq> Inr None) \<and>
      store_get rd des kd' ns' i' d' =
        (if kd' = kd \<and> ns' = ns \<and> i' = i then Inr None else store_get rd des kd' ns' i' d))"
  using store_put_get(1) [OF db reads ns, of ser kd i v des] store_put_get(2) [OF db reads ns, of ser kd i v kd' i' des]
    store_delete_get(1,2) [OF db reads ns, of kd i b des] store_delete_get(3) [OF db reads ns, of kd i b kd' i' des] sd
  by auto

theorem metadata_is_a_map_witness:
  "\<exists>d'. store_put mem_redb Inr Container ''k8s.io'' ''c1'' [5] (\<lambda>_. []) = Inr d'
    \<and> store_get mem_redb Inr Container ''k8s.io'' ''c1'' d' = Inr (Some [5])
    \<and> store_get mem_redb Inr Sandbox ''k8s.io'' ''c1'' d' = store_get mem_redb Inr Sandbox ''k8s.io'' ''c1'' (\<lambda>_. [])"
proof -
  obtain d' where d': "store_put mem_redb Inr Container ''k8s.io'' ''c1'' [5] (\<lambda>_. []) = Inr d'"
    by (simp add: store_put_def mem_redb_def Let_def)
  have ns: "CHR ''/'' \<notin> set ''k8s.io''" by simp
  note m = metadata_is_a_map [OF mem_redb_ok(1) identity_serde_ok mem_redb_ok(2) mem_redb_ok(2) ns ns]
  from m [of Container "''c1''" "[5]" "\<lambda>_. []" d' Container "''c1''" True]
    m [of Container "''c1''" "[5]" "\<lambda>_. []" d' Sandbox "''c1''" True] d'
  show ?thesis by simp
qed

text \<open>Listing a namespace gives exactly the records of that kind and namespace: every
  value listed is the value of one of its identifiers, and every identifier's value is listed.\<close>

theorem metadata_list_exact:
  assumes db: "redb_ok rd view tview" and reads: "read_ok rd d"
    and ns: "CHR ''/'' \<notin> set ns"
    and run: "store_list rd des kd ns d = Inr vs"
  shows "v \<in> set vs \<longleftrightarrow> (\<exists>i. store_get rd des kd ns i d = Inr (Some v))"
  using store_list_mem [OF db reads ns run] .

theorem metadata_list_exact_witness:
  "\<exists>vs. store_list mem_redb Inr Container ''k8s.io''
      (\<lambda>n. if n = ''containers'' then [(''k8s.io/a'', [1]), (''other/b'', [2])] else []) = Inr vs
    \<and> ([1] \<in> set vs) = (\<exists>i. store_get mem_redb Inr Container ''k8s.io'' i
      (\<lambda>n. if n = ''containers'' then [(''k8s.io/a'', [1]), (''other/b'', [2])] else []) = Inr (Some [1 :: u8]))"
proof -
  let ?d = "\<lambda>n. if n = ''containers'' then [(''k8s.io/a'', [1 :: u8]), (''other/b'', [2])] else []"
  obtain vs where vs: "store_list mem_redb Inr Container ''k8s.io'' ?d = Inr vs"
    by (simp add: store_list_def mem_redb_def Let_def starts_with_def)
  have ns: "CHR ''/'' \<notin> set ''k8s.io''" by simp
  from vs metadata_list_exact [OF mem_redb_ok(1) mem_redb_ok(2) ns vs, of "[1]"] show ?thesis by blast
qed

end
