(* ===== verification/Image_Identity.thy ===== *)
theory Image_Identity
  imports Core_Types
begin

section \<open>Chain identifiers and platform selection\<close>

text \<open>
  \<open>crates/images/src/identity.rs\<close>: the chainID of a stack of layers from their diffIDs, and
  the choice of one manifest of an index for the node's platform. The compile-time constants
  \<open>std::env::consts::ARCH\<close> and \<open>OS\<close> are arguments.
\<close>

definition chain_push :: "(bytes \<Rightarrow> string) \<Rightarrow> digest list \<Rightarrow> digest \<Rightarrow> digest list" where
  "chain_push sha chain diff =
     chain @ [if chain = [] then diff
              else sha256 sha (str_bytes (digest_to_string (last chain) @ '' '' @ digest_to_string diff))]"

definition chain_ids :: "(bytes \<Rightarrow> string) \<Rightarrow> digest list \<Rightarrow> digest list" where
  "chain_ids sha diff_ids = foldl (chain_push sha) [] diff_ids"

definition chain_id :: "(bytes \<Rightarrow> string) \<Rightarrow> digest list \<Rightarrow> digest option" where
  "chain_id sha diff_ids =
     (let c = chain_ids sha diff_ids in if c = [] then None else Some (last c))"

record platform =
  pf_os :: string
  pf_architecture :: string
  pf_variant :: "string option"

definition architecture_static :: "string \<Rightarrow> string" where
  "architecture_static arch =
     (if arch = ''x86_64'' then ''amd64'' else if arch = ''aarch64'' then ''arm64'' else arch)"

definition default_variant :: "string \<Rightarrow> string option" where
  "default_variant arch = (if arch = ''arm64'' then Some ''v8'' else None)"

definition default_host :: "string \<Rightarrow> string \<Rightarrow> platform" where
  "default_host os_name arch =
     \<lparr>pf_os = os_name, pf_architecture = architecture_static arch,
      pf_variant = default_variant (architecture_static arch)\<rparr>"

definition canonical_variant :: "string \<Rightarrow> string option \<Rightarrow> string option" where
  "canonical_variant arch variant =
     (if arch = ''arm64'' \<and> variant = None then Some ''v8'' else variant)"

definition platform_matches :: "platform \<Rightarrow> platform \<Rightarrow> bool" where
  "platform_matches self candidate =
     (if pf_os self \<noteq> pf_os candidate \<or> pf_architecture self \<noteq> pf_architecture candidate then False
      else case (canonical_variant (pf_architecture self) (pf_variant self),
                 canonical_variant (pf_architecture candidate) (pf_variant candidate)) of
             (Some a, Some b) \<Rightarrow> a = b
           | _ \<Rightarrow> True)"

definition select_manifest :: "platform \<Rightarrow> (platform \<times> 't) list \<Rightarrow> 't option" where
  "select_manifest target entries =
     map_option snd (find (\<lambda>(p, _). platform_matches target p) entries)"

subsection \<open>Chains\<close>

lemma chain_ids_snoc:
  "chain_ids sha (ds @ [d]) = chain_push sha (chain_ids sha ds) d"
  by (simp add: chain_ids_def)

lemma chain_ids_Nil [simp]: "chain_ids sha [] = []"
  by (simp add: chain_ids_def)

lemma length_chain_ids [simp]: "length (chain_ids sha ds) = length ds"
proof (induction ds rule: rev_induct)
  case (snoc d ds)
  then show ?case by (simp add: chain_ids_snoc chain_push_def)
qed simp

lemma chain_ids_prefix: "take (length ds) (chain_ids sha (ds @ es)) = chain_ids sha ds"
proof (induction es rule: rev_induct)
  case (snoc e es)
  have "chain_ids sha (ds @ es @ [e]) = chain_push sha (chain_ids sha (ds @ es)) e"
    using chain_ids_snoc [of sha "ds @ es" e] by simp
  with snoc show ?case by (simp add: chain_push_def)
qed simp

lemma find_first:
  "find P xs = Some x \<longleftrightarrow> (\<exists>ys zs. xs = ys @ x # zs \<and> P x \<and> list_all (\<lambda>y. \<not> P y) ys)"
proof
  assume "find P xs = Some x"
  then obtain i where i: "i < length xs" "P x" "x = xs ! i" "\<forall>j<i. \<not> P (xs ! j)"
    by (auto simp: find_Some_iff)
  then have "xs = take i xs @ x # drop (Suc i) xs" by (simp add: id_take_nth_drop)
  moreover from i have "list_all (\<lambda>y. \<not> P y) (take i xs)" by (auto simp: list_all_length)
  ultimately show "\<exists>ys zs. xs = ys @ x # zs \<and> P x \<and> list_all (\<lambda>y. \<not> P y) ys" using i(2) by blast
next
  have "find P (ys @ x # zs) = Some x" if "P x" "list_all (\<lambda>y. \<not> P y) ys" for ys zs
    using that by (induction ys) auto
  then show "find P xs = Some x" if "\<exists>ys zs. xs = ys @ x # zs \<and> P x \<and> list_all (\<lambda>y. \<not> P y) ys"
    using that by blast
qed

subsection \<open>Properties\<close>

text \<open>The chain of a stack of layers is the one of the image specification: as long as
  the stack, its first member the first diffID, each later one the digest of the text of its
  predecessor, a space and the diffID. A longer stack only extends the chain of a shorter one,
  which is what lets layers be shared.\<close>

theorem chain_ids_spec:
  "length (chain_ids sha ds) = length ds \<and>
   take (length ds) (chain_ids sha (ds @ es)) = chain_ids sha ds \<and>
   chain_ids sha (ds @ [d]) ! length ds =
     (case chain_id sha ds of
        None \<Rightarrow> d
      | Some prev \<Rightarrow> sha256 sha (str_bytes (digest_to_string prev @ '' '' @ digest_to_string d)))"
  by (simp add: chain_ids_prefix chain_ids_snoc chain_push_def nth_append chain_id_def Let_def)

text \<open>Platform selection. Acceptance is symmetric, an operating system or architecture
  that differs is refused, and the manifest selected is that of the first entry of the index
  that is accepted: none before it is, and nothing is selected only when no entry is.\<close>

theorem select_manifest_first:
  "(select_manifest t entries = Some m) =
     (\<exists>ys p zs. entries = ys @ (p, m) # zs \<and> platform_matches t p \<and>
        list_all (\<lambda>(q, _). \<not> platform_matches t q) ys) \<and>
   (select_manifest t entries = None) = list_all (\<lambda>(q, _). \<not> platform_matches t q) entries \<and>
   platform_matches t c = platform_matches c t \<and>
   platform_matches t c = (pf_os t = pf_os c \<and> pf_architecture t = pf_architecture c \<and> platform_matches t c)"
proof (intro conjI)
  have "select_manifest t entries = Some m \<longleftrightarrow>
      (\<exists>p. find (\<lambda>e. platform_matches t (fst e)) entries = Some (p, m))"
    by (simp add: select_manifest_def case_prod_unfold)
  then show "(select_manifest t entries = Some m) =
     (\<exists>ys p zs. entries = ys @ (p, m) # zs \<and> platform_matches t p \<and>
        list_all (\<lambda>(q, _). \<not> platform_matches t q) ys)"
    unfolding find_first case_prod_beta by auto
  show "(select_manifest t entries = None) = list_all (\<lambda>(q, _). \<not> platform_matches t q) entries"
    by (auto simp: select_manifest_def find_None_iff list_all_iff)
  show "platform_matches t c = platform_matches c t"
    by (auto simp: platform_matches_def split: option.splits)
  show "platform_matches t c = (pf_os t = pf_os c \<and> pf_architecture t = pf_architecture c \<and> platform_matches t c)"
    by (simp add: platform_matches_def)
qed

end
