(* ===== verification/Snapshots.thy ===== *)
theory Snapshots
  imports Core_Types File_System
begin

section \<open>Snapshots: mounts, layout and layer application\<close>

text \<open>
  \<open>crates/snapshots/src/lib.rs\<close> and \<open>diff.rs\<close>. The decompressors and the \<open>tar\<close> reader
  are third-party code: \<open>entries\<close> gives the entries of a compressed layer, or the error that
  reading them hits, and \<open>unpack\<close> is \<open>Entry::unpack_in\<close>. A path of an archive entry is its
  text, read by \<open>components\<close>; a path of the file system is the list of its names, in which a
  parent component that a caller did not refuse stays as the name \<open>..\<close>.
\<close>

subsection \<open>Mounts and layout\<close>

definition overlay_mount :: "path list \<Rightarrow> path \<Rightarrow> path \<Rightarrow> mount" where
  "overlay_mount parents_fs upper work =
     (let lower = join_with '':'' parents_fs in
      \<lparr>mount_type = ''overlay'', mount_source = ''overlay'',
       mount_options =
         (if lower \<noteq> [] then [''lowerdir='' @ lower] else []) @ [''upperdir='' @ upper, ''workdir='' @ work]\<rparr>)"

definition bind_mount :: "path \<Rightarrow> mount" where
  "bind_mount parent_fs =
     \<lparr>mount_type = ''bind'', mount_source = parent_fs, mount_options = [''rbind'', ''ro'']\<rparr>"

definition snapshot_dirs :: "path \<Rightarrow> string \<Rightarrow> path \<times> path" where
  "snapshot_dirs root i =
     (let base = path_join (path_join root ''snapshots'') i in
      (path_join base ''fs'', path_join base ''work''))"

subsection \<open>Layer compression and whiteouts\<close>

datatype compression = NoCompression | Gzip | Zstd

definition from_media_type :: "string \<Rightarrow> compression" where
  "from_media_type media_type =
     (if ends_with media_type ''gzip'' then Gzip
      else if ends_with media_type ''zstd'' then Zstd
      else NoCompression)"

definition detect_compression :: "bytes \<Rightarrow> compression" where
  "detect_compression bs =
     (if starts_with bs [0x1f, 0x8b] then Gzip
      else if starts_with bs [0x28, 0xb5, 0x2f, 0xfd] then Zstd
      else NoCompression)"

datatype whiteout = NoWhiteout | Remove "component list" | Opaque "component list"

definition whiteout_prefix :: string where
  "whiteout_prefix = ''.wh.''"

definition opaque_marker :: string where
  "opaque_marker = ''.wh..wh..opq''"

definition classify :: "component list \<Rightarrow> whiteout" where
  "classify path =
     (case file_name path of
        None \<Rightarrow> NoWhiteout
      | Some n \<Rightarrow>
          let p = unwrap_or [] (parent path) in
          if n = opaque_marker then Opaque p
          else case strip_prefix n whiteout_prefix of
                 Some stripped \<Rightarrow> Remove (comp_join p (components stripped))
               | None \<Rightarrow> NoWhiteout)"

definition is_inner :: "component \<Rightarrow> bool" where
  "is_inner c \<longleftrightarrow> (case c of Normal _ \<Rightarrow> True | CurDir \<Rightarrow> True | _ \<Rightarrow> False)"

definition comp_names :: "component list \<Rightarrow> fpath" where
  "comp_names cs = concat (map (\<lambda>c. case c of Normal n \<Rightarrow> [n] | ParentDir \<Rightarrow> [''..''] | _ \<Rightarrow> []) cs)"

definition safe_join :: "fpath \<Rightarrow> component list \<Rightarrow> fpath option" where
  "safe_join target rel =
     (if list_all is_inner rel then Some (target @ comp_names rel) else None)"

definition remove_path :: "fpath \<Rightarrow> ('z os_scheme, io_error, unit) prog" where
  "remove_path p =
     pbind (is_dir p) (\<lambda>d.
       if d then pseq (attempt (remove_dir_all p)) (pret ())
       else pseq (attempt (remove_file p)) (pret ()))"

record 'b tar_entry =
  te_path :: string
  te_body :: 'b

definition apply_entry ::
  "(fpath \<Rightarrow> 'b tar_entry \<Rightarrow> ('z os_scheme, io_error, bool) prog) \<Rightarrow> fpath
    \<Rightarrow> io_error + 'b tar_entry \<Rightarrow> ('z os_scheme, io_error, unit) prog" where
  "apply_entry unpack target item =
     pbind (plift item) (\<lambda>entry.
       case classify (components (te_path entry)) of
         NoWhiteout \<Rightarrow> pseq (unpack target entry) (pret ())
       | Remove rel \<Rightarrow>
           (case safe_join target rel of
              Some victim \<Rightarrow> remove_path victim
            | None \<Rightarrow> pret ())
       | Opaque rel \<Rightarrow>
           (case safe_join target rel of
              Some dir \<Rightarrow>
                pbind (is_dir dir) (\<lambda>d.
                  if d then pbind (read_dir dir) (\<lambda>children. piter (\<lambda>(q, _). remove_path q) children)
                  else pret ())
            | None \<Rightarrow> pret ()))"

definition apply_layer ::
  "(compression \<Rightarrow> bytes \<Rightarrow> io_error + (io_error + 'b tar_entry) list)
    \<Rightarrow> (fpath \<Rightarrow> 'b tar_entry \<Rightarrow> ('z os_scheme, io_error, bool) prog)
    \<Rightarrow> fpath \<Rightarrow> bytes \<Rightarrow> compression \<Rightarrow> ('z os_scheme, io_error, unit) prog" where
  "apply_layer entries unpack target blob c =
     pbind (plift (entries c blob)) (piter (apply_entry unpack target))"

subsection \<open>Containment\<close>

lemma safe_join_below: "safe_join target rel = Some p \<Longrightarrow> below target p"
  by (auto simp: safe_join_def below_iff split: if_splits)

lemma below_trans: "below p q \<Longrightarrow> below q r \<Longrightarrow> below p r"
  by (auto simp: below_iff)

lemma map_of_filter_out:
  "map_of (filter (\<lambda>(q, _). \<not> below p q) fs) q = (if below p q then None else map_of fs q)"
  by (induction fs) auto

lemma remove_dir_all_frame:
  assumes "\<And>q. below p q \<Longrightarrow> P q"
  shows "steps (frame P) (remove_dir_all p)"
proof -
  have "\<not> P q \<Longrightarrow> \<not> below p q" for q using assms by blast
  then show ?thesis
    unfolding remove_dir_all_def
    by (intro frame_syscall)
      (auto simp: frame_def lookup_def map_of_filter_out split: option.splits node.splits)
qed

lemma remove_path_frame: "(\<And>q. below p q \<Longrightarrow> P q) \<Longrightarrow> steps (frame P) (remove_path p)"
  unfolding remove_path_def
  by (auto intro!: frm.steps_rules frame_is_dir remove_dir_all_frame frame_remove_file)

lemma read_dir_frame: "steps (frame P) (read_dir p)"
  unfolding read_dir_def by (rule frame_syscall) (auto simp: frame_def split: if_splits)

lemma read_dir_below:
  "read_dir p w = (Inr es, w') \<Longrightarrow> (q, n) \<in> set es \<Longrightarrow> below p q"
  by (auto simp: read_dir_def syscall_def dir_entries_def below_iff split: if_splits)
    (metis append_butlast_last_id)+

lemma clear_dir_frame:
  assumes "below target dir"
  shows "steps (frame (below target)) (pbind (read_dir dir) (\<lambda>cs. piter (\<lambda>(q, _). remove_path q) cs))"
proof (rule frm.steps_pbind_run [OF read_dir_frame])
  fix s x and t :: "'a os_scheme"
  assume r: "read_dir dir s = (Inr x, t)"
  show "steps (frame (below target)) (piter (\<lambda>(q, _). remove_path q) x)"
    using read_dir_below [OF r] assms
    by (auto intro!: frm.steps_piter remove_path_frame) (metis below_trans)
qed

lemma apply_entry_frame:
  assumes "\<And>e. steps (frame (below target)) (unpack target e)"
  shows "steps (frame (below target)) (apply_entry unpack target item)"
  unfolding apply_entry_def
  using assms
  by (auto intro!: frm.steps_rules frame_is_dir remove_path_frame clear_dir_frame
      dest!: safe_join_below split: whiteout.splits option.splits elim: below_trans)

lemma apply_layer_frame:
  assumes "\<And>e. steps (frame (below target)) (unpack target e)"
  shows "steps (frame (below target)) (apply_layer entries unpack target blob c)"
  unfolding apply_layer_def by (intro frm.steps_rules apply_entry_frame assms)

lemma join_with_Cons: "join_with sep (x # y # ys) = x @ sep @ join_with sep (y # ys)"
  by (simp add: join_with_def)

lemma split_join_with:
  "xs \<noteq> [] \<Longrightarrow> list_all (\<lambda>x. c \<notin> set x) xs \<Longrightarrow> split_char c (join_with [c] xs) = xs"
proof (induction xs rule: induct_list012)
  case (2 x)
  then show ?case by (simp add: join_with_def split_char_id)
next
  case (3 x y zs)
  then show ?case by (simp add: join_with_Cons split_char_append split_char_id)
qed simp

subsection \<open>Properties\<close>


definition sample_unpack :: "fpath \<Rightarrow> bytes tar_entry \<Rightarrow> (os, io_error, bool) prog" where
  "sample_unpack target e =
     (if list_all is_inner (components (te_path e)) \<and> comp_names (components (te_path e)) \<noteq> []
      then pseq (create_file (target @ comp_names (components (te_path e)))) (pret True)
      else pret False)"

lemma sample_unpack_frame: "steps (frame (below target)) (sample_unpack target e)"
  unfolding sample_unpack_def by (auto intro!: frm.steps_rules frame_create_file simp: below_iff)


text \<open>The overlay mount names the parents child-nearest first: reading the colon-separated
  lower directories back gives the list of parents, when no parent path has a colon, and the
  upper and work directories follow.\<close>

theorem overlay_mount_lower:
  assumes "parents \<noteq> []" "list_all (\<lambda>p. p \<noteq> [] \<and> CHR '':'' \<notin> set p) parents"
  shows "\<exists>lower. mount_options (overlay_mount parents upper work) =
      [''lowerdir='' @ lower, ''upperdir='' @ upper, ''workdir='' @ work]
    \<and> split_char (CHR '':'') lower = parents"
proof -
  let ?l = "join_with '':'' parents"
  have "?l \<noteq> []" using assms by (cases parents) (auto simp: join_with_def)
  moreover have "split_char (CHR '':'') ?l = parents"
    using assms by (intro split_join_with) (auto simp: list_all_iff)
  ultimately show ?thesis by (simp add: overlay_mount_def Let_def)
qed

theorem overlay_mount_lower_witness:
  "\<exists>lower. mount_options (overlay_mount [''/l2'', ''/l1''] ''/u'' ''/w'') =
      [''lowerdir='' @ lower, ''upperdir='' @ ''/u'', ''workdir='' @ ''/w'']
    \<and> split_char (CHR '':'') lower = [''/l2'', ''/l1'']"
  by (rule overlay_mount_lower) simp_all

text \<open>A whiteout entry with an empty name, \<open>.wh.\<close> at the top of a layer, is taken for
  the removal of the layer's own root: when nothing fails, applying it deletes the target
  directory with all that earlier layers put there.\<close>

theorem empty_whiteout_removes_target:
  assumes "os_sched w = []" "lookup w target = Some Dir" "target \<noteq> []"
  shows "lookup (snd (apply_layer (\<lambda>c b. Inr [Inr \<lparr>te_path = ''.wh.'', te_body = body\<rparr>]) unpack
    target blob c w)) target = None"
proof -
  have "components ''.wh.'' = [Normal ''.wh.'']" by (simp add: components_def starts_with_def)
  then have "classify (components ''.wh.'') = Remove []"
    by (simp add: classify_def file_name_def parent_def opaque_marker_def whiteout_prefix_def
        strip_prefix_def starts_with_def comp_join_def components_def)
  then show ?thesis
    using assms
    by (simp add: apply_layer_def apply_entry_def prog_simps safe_join_def comp_names_def remove_path_def
        is_dir_def next_event_def remove_dir_all_def syscall_def fs_simps)
      (simp add: lookup_def map_of_filter_out)
qed

theorem empty_whiteout_removes_target_witness:
  "lookup (snd (apply_layer (\<lambda>c b. Inr [Inr \<lparr>te_path = ''.wh.'', te_body = []\<rparr>]) sample_unpack
    [''up''] [] NoCompression
    \<lparr>os_fs = [([''up''], Dir), ([''up'', ''a''], File [1])], os_sched = [], os_pid = 0, os_seq = 0\<rparr>)) [''up''] = None"
  by (rule empty_whiteout_removes_target) (simp_all add: lookup_def)

end
