(* ===== verification/Image_GC.thy ===== *)
theory Image_GC
  imports Content_Store Snapshots Records
begin

section \<open>Reclaiming what no image references\<close>

text \<open>
  \<open>crates/images/src/gc.rs\<close>: after an image record is removed, its blobs and snapshot
  directories go unless a remaining record references them. The hash sets of the source are
  the lists they are collected from.
\<close>

record reclaim_report =
  rp_blobs_removed :: nat
  rp_snapshots_removed :: nat

definition referenced_blobs :: "image_record \<Rightarrow> string list" where
  "referenced_blobs rec = im_image_id rec # im_layer_digests rec"

text \<open>\<open>snapshot_dirs(root, chain).0.parent()\<close> as a path of the file system: an absolute
  chain text would replace the root.\<close>

definition snapshot_base :: "fpath \<Rightarrow> string \<Rightarrow> fpath" where
  "snapshot_base sroot chain =
     (if is_absolute chain then comp_names (components chain)
      else sroot @ [''snapshots''] @ comp_names (components chain))"

definition reclaim_blob ::
  "store \<Rightarrow> string list \<Rightarrow> reclaim_report \<Rightarrow> string \<Rightarrow> ('z os_scheme, content_error, reclaim_report) prog" where
  "reclaim_blob st live_blobs report blob =
     (if blob \<in> set live_blobs then pret report
      else case digest_from_str blob of
             Inl _ \<Rightarrow> pret report
           | Inr d \<Rightarrow>
               pbind (attempt (remove_blob st d)) (\<lambda>r.
                 pret (if unwrap_or False (ok r)
                       then report\<lparr>rp_blobs_removed := rp_blobs_removed report + 1\<rparr> else report)))"

definition reclaim_chain ::
  "fpath \<Rightarrow> string list \<Rightarrow> reclaim_report \<Rightarrow> string \<Rightarrow> ('z os_scheme, content_error, reclaim_report) prog" where
  "reclaim_chain sroot live_chains report chain =
     (if chain \<in> set live_chains then pret report
      else let dir = snapshot_base sroot chain in
           pbind (is_dir dir) (\<lambda>d.
             if d then
               pbind (attempt (remove_dir_all dir)) (\<lambda>r.
                 pret (case r of
                         Inr _ \<Rightarrow> report\<lparr>rp_snapshots_removed := rp_snapshots_removed report + 1\<rparr>
                       | Inl _ \<Rightarrow> report))
             else pret report))"

definition reclaim ::
  "store \<Rightarrow> fpath \<Rightarrow> image_record \<Rightarrow> image_record list \<Rightarrow> ('z os_scheme, content_error, reclaim_report) prog" where
  "reclaim st sroot removed live =
     (let live_blobs = concat (map referenced_blobs live);
          live_chains = concat (map im_chain_ids live)
      in pbind (pfold (reclaim_blob st live_blobs) \<lparr>rp_blobs_removed = 0, rp_snapshots_removed = 0\<rparr>
                  (referenced_blobs removed))
           (\<lambda>report. pfold (reclaim_chain sroot live_chains) report (im_chain_ids removed)))"

text \<open>The records the daemon writes hold digests in their printed form.\<close>

definition digest_text :: "string \<Rightarrow> bool" where
  "digest_text s \<longleftrightarrow> (case digest_from_str s of Inr d \<Rightarrow> s = digest_to_string d | Inl _ \<Rightarrow> False)"

definition canonical_image :: "image_record \<Rightarrow> bool" where
  "canonical_image rec \<longleftrightarrow> list_all digest_text (referenced_blobs rec) \<and> list_all digest_text (im_chain_ids rec)"

lemma digest_text_iff: "digest_text s \<longleftrightarrow> (\<exists>d. wf_digest d \<and> s = digest_to_string d)"
proof
  assume "digest_text s"
  then show "\<exists>d. wf_digest d \<and> s = digest_to_string d"
    using digest_from_str_wf by (auto simp: digest_text_def split: sum.splits)
next
  assume "\<exists>d. wf_digest d \<and> s = digest_to_string d"
  then show "digest_text s" by (auto simp: digest_text_def digest_parse_print)
qed

text \<open>The printed form of a digest is one ordinary path component.\<close>

lemma digest_string_comps:
  assumes "wf_digest d"
  shows "components (digest_to_string d) = [Normal (digest_to_string d)]" "\<not> is_absolute (digest_to_string d)"
proof -
  have "CHR ''/'' \<notin> set (digest_to_string d)"
    using assms lower_hex_no_sep by (auto simp: digest_to_string_def wf_digest_def wf_hex_def)
  then have "split_char (CHR ''/'') (digest_to_string d) = [digest_to_string d]" by (rule split_char_id)
  then show "components (digest_to_string d) = [Normal (digest_to_string d)]" "\<not> is_absolute (digest_to_string d)"
    by (auto simp: components_def digest_to_string_def starts_with_def is_absolute_def)
qed

lemma snapshot_base_digest:
  "wf_digest d \<Longrightarrow> snapshot_base sroot (digest_to_string d) = sroot @ [''snapshots'', digest_to_string d]"
  by (simp add: snapshot_base_def digest_string_comps comp_names_def)

subsection \<open>What a pass may touch\<close>

lemma remove_blob_frame:
  "wf_digest d \<Longrightarrow> steps (frame (\<lambda>q. q = blob_file (st_root st) (hex d))) (remove_blob st d)"
  unfolding remove_blob_def Let_def
  by (auto intro!: frm.steps_rules frame_calls simp: blob_path_wf)

lemma reclaim_blob_frame:
  assumes "\<And>d. blob \<notin> set live \<Longrightarrow> digest_from_str blob = Inr d \<Longrightarrow> P (blob_file (st_root st) (hex d))"
  shows "steps (frame P) (reclaim_blob st live report blob)"
proof -
  have "steps (frame P) (remove_blob st d)" if "blob \<notin> set live" "digest_from_str blob = Inr d" for d
    by (rule steps_weaken [OF remove_blob_frame [OF digest_from_str_wf [OF that(2)]]])
      (use assms [OF that] in \<open>auto elim: frame_mono\<close>)
  then show ?thesis
    unfolding reclaim_blob_def by (auto intro!: frm.steps_rules split: sum.splits)
qed

lemma reclaim_chain_frame:
  assumes "\<And>q. chain \<notin> set live \<Longrightarrow> below (snapshot_base sroot chain) q \<Longrightarrow> P q"
  shows "steps (frame P) (reclaim_chain sroot live report chain)"
  unfolding reclaim_chain_def Let_def
  by (auto intro!: frm.steps_rules frame_is_dir remove_dir_all_frame assms)

lemma reclaim_frame:
  assumes "\<And>b d. b \<in> set (referenced_blobs removed) \<Longrightarrow> b \<notin> set (concat (map referenced_blobs live)) \<Longrightarrow>
      digest_from_str b = Inr d \<Longrightarrow> P (blob_file (st_root st) (hex d))"
    and "\<And>c q. c \<in> set (im_chain_ids removed) \<Longrightarrow> c \<notin> set (concat (map im_chain_ids live)) \<Longrightarrow>
      below (snapshot_base sroot c) q \<Longrightarrow> P q"
  shows "steps (frame P) (reclaim st sroot removed live)"
  unfolding reclaim_def Let_def
  by (intro frm.steps_pbind frm.steps_pfold reclaim_blob_frame reclaim_chain_frame) (use assms in auto)

lemma reclaim_live_frame:
  assumes canon: "list_all canonical_image (removed # live)"
    and sep: "\<not> below (sroot @ [''snapshots'']) (root @ [''blobs''])"
      "\<not> below (root @ [''blobs'']) (sroot @ [''snapshots''])"
    and rec: "rec \<in> set live"
    and q: "(\<exists>d. digest_to_string d \<in> set (referenced_blobs rec) \<and> q = blob_path root d) \<or>
      (\<exists>c. c \<in> set (im_chain_ids rec) \<and> below (snapshot_base sroot c) q)"
  shows "steps (frame (\<lambda>p. p \<noteq> q)) (reclaim \<lparr>st_root = root\<rparr> sroot removed live)"
proof -
  have dt: "\<exists>d. wf_digest d \<and> b = digest_to_string d"
    if "r \<in> set (removed # live)" "b \<in> set (referenced_blobs r) \<union> set (im_chain_ids r)" for r b
    using canon that by (auto simp: list_all_iff canonical_image_def digest_text_iff)
  show ?thesis
  proof (rule reclaim_frame)
    fix b d
    assume b: "b \<in> set (referenced_blobs removed)" "b \<notin> set (concat (map referenced_blobs live))"
      and d: "digest_from_str b = Inr d"
    have bd: "b = digest_to_string d" "wf_digest d"
      using dt [of removed b] b(1) d digest_from_str_wf by (auto simp: digest_parse_print)
    from q show "blob_file (st_root \<lparr>st_root = root\<rparr>) (hex d) \<noteq> q"
    proof
      assume "\<exists>e. digest_to_string e \<in> set (referenced_blobs rec) \<and> q = blob_path root e"
      then obtain e where e: "digest_to_string e \<in> set (referenced_blobs rec)" "q = blob_path root e" by blast
      moreover from e(1) have "wf_digest e" using dt [of rec "digest_to_string e"] rec by auto
      moreover have "d \<noteq> e" using b(2) bd(1) e(1) rec by auto
      ultimately show ?thesis by (cases d; cases e) (simp add: blob_path_wf)
    next
      assume "\<exists>c. c \<in> set (im_chain_ids rec) \<and> below (snapshot_base sroot c) q"
      then obtain c where c: "c \<in> set (im_chain_ids rec)" "below (snapshot_base sroot c) q" by blast
      then obtain e where "wf_digest e" "c = digest_to_string e" using dt [of rec c] rec by auto
      with c(2) have "below (sroot @ [''snapshots'']) q"
        by (auto simp: snapshot_base_digest below_iff)
      moreover have "below (root @ [''blobs'']) (blob_file root (hex d))" by (auto simp: below_iff blob_file_def)
      ultimately show ?thesis
        using sep below_prefix_cases [of "sroot @ [''snapshots'']" q "root @ [''blobs'']"] by auto
    qed
  next
    fix c p
    assume c: "c \<in> set (im_chain_ids removed)" "c \<notin> set (concat (map im_chain_ids live))"
      and p: "below (snapshot_base sroot c) p"
    obtain d where d: "wf_digest d" "c = digest_to_string d" using dt [of removed c] c(1) by auto
    from q show "p \<noteq> q"
    proof
      assume "\<exists>e. digest_to_string e \<in> set (referenced_blobs rec) \<and> q = blob_path root e"
      then obtain e where e: "digest_to_string e \<in> set (referenced_blobs rec)" "q = blob_path root e" by blast
      from e(1) have "wf_digest e" using dt [of rec "digest_to_string e"] rec by auto
      with e(2) have "below (root @ [''blobs'']) q" by (auto simp: blob_path_wf below_iff blob_file_def)
      moreover have "below (sroot @ [''snapshots'']) p" using p d by (auto simp: snapshot_base_digest below_iff)
      ultimately show ?thesis
        using sep below_prefix_cases [of "sroot @ [''snapshots'']" q "root @ [''blobs'']"] by auto
    next
      assume "\<exists>c. c \<in> set (im_chain_ids rec) \<and> below (snapshot_base sroot c) q"
      then obtain c' where c': "c' \<in> set (im_chain_ids rec)" "below (snapshot_base sroot c') q" by blast
      then obtain e where "wf_digest e" "c' = digest_to_string e" using dt [of rec c'] rec by auto
      moreover have "c' \<noteq> c" using c c'(1) rec by auto
      ultimately show ?thesis using p c'(2) d by (auto simp: snapshot_base_digest below_iff)
    qed
  qed
qed

subsection \<open>What a pass does remove\<close>

definition only_removes :: "'z os_scheme \<Rightarrow> 'z os_scheme \<Rightarrow> bool" where
  "only_removes w w' \<longleftrightarrow>
     (\<forall>q n. lookup w' q = Some n \<longrightarrow> lookup w q = Some n) \<and> (os_sched w = [] \<longrightarrow> os_sched w' = [])"

interpretation rem: step_order only_removes
  by unfold_locales (auto simp: only_removes_def)

lemma map_of_filter_sub: "map_of (filter (\<lambda>(q, _). \<not> below p q) fs) q = Some n \<Longrightarrow> map_of fs q = Some n"
  by (simp add: map_of_filter_out split: if_splits)

lemma only_removes_calls:
  "steps only_removes (is_file p)" "steps only_removes (is_dir p)"
  "steps only_removes (remove_file p)" "steps only_removes (remove_dir_all p)"
  by (auto simp: steps_def only_removes_def is_file_def is_dir_def remove_file_def remove_dir_all_def
      syscall_def fs_simps split: option.splits node.splits if_splits)
    (auto simp: lookup_def tick_def dest: map_of_filter_sub)

lemma only_removes_reclaim:
  "steps only_removes (remove_blob st d)" "steps only_removes (reclaim_blob st live r b)"
  "steps only_removes (reclaim_chain sroot live' r c)"
  unfolding reclaim_blob_def reclaim_chain_def remove_blob_def Let_def
  by (auto intro!: rem.steps_rules only_removes_calls split: sum.splits)

lemma infallible_reclaim: "infallible (reclaim_blob st live r b)" "infallible (reclaim_chain sroot live' r c)"
  by (auto simp: infallible_def reclaim_blob_def reclaim_chain_def prog_simps is_dir_def Let_def
      split: sum.splits)

lemma reclaim_blob_removes:
  assumes "os_sched w = []" "wf_digest d" "digest_to_string d \<notin> set live"
  shows "lookup (snd (reclaim_blob st live r (digest_to_string d) w)) (blob_path (st_root st) d) \<noteq> Some (File bs)"
  using assms
  by (auto simp: reclaim_blob_def digest_parse_print remove_blob_def Let_def prog_simps is_file_def
      remove_file_def syscall_def next_event_def fs_simps split: option.splits node.splits)

lemma reclaim_removes:
  assumes "os_sched w = []" "digest_to_string d \<in> set (referenced_blobs removed)" "wf_digest d"
    and "digest_to_string d \<notin> set (concat (map referenced_blobs live))"
  shows "lookup (snd (reclaim st sroot removed live w)) (blob_path (st_root st) d) \<noteq> Some (File bs)"
proof -
  let ?f = "reclaim_blob st (concat (map referenced_blobs live))"
  let ?r0 = "\<lparr>rp_blobs_removed = 0, rp_snapshots_removed = 0\<rparr>"
  obtain xs ys where split: "referenced_blobs removed = xs @ digest_to_string d # ys"
    using assms(2) by (meson split_list)
  have inf: "infallible (pfold ?f r zs)" for r zs by (rule infallible_pfold) (rule infallible_reclaim)
  obtain r1 w1 where one: "pfold ?f ?r0 xs w = (Inr r1, w1)" using inf unfolding infallible_def by blast
  obtain r2 w2 where two: "?f r1 (digest_to_string d) w1 = (Inr r2, w2)"
    using infallible_reclaim(1) unfolding infallible_def by blast
  obtain r3 w3 where three: "pfold ?f r2 ys w2 = (Inr r3, w3)" using inf unfolding infallible_def by blast
  have "only_removes w w1"
    by (rule stepsD [OF rem.steps_pfold one]) (rule only_removes_reclaim)
  with assms(1) have "os_sched w1 = []" by (simp add: only_removes_def)
  then have gone: "lookup w2 (blob_path (st_root st) d) \<noteq> Some (File bs)"
    using reclaim_blob_removes [of w1 d "concat (map referenced_blobs live)" st r1 bs] assms(3,4) two by simp
  have "only_removes w2 w3"
    by (rule stepsD [OF rem.steps_pfold three]) (rule only_removes_reclaim)
  moreover have "only_removes w3 (snd (pfold (reclaim_chain sroot (concat (map im_chain_ids live))) r3 (im_chain_ids removed) w3))"
    by (rule stepsD [OF rem.steps_pfold]) (rule only_removes_reclaim, simp add: prod_eq_iff)
  moreover have "pfold ?f ?r0 (referenced_blobs removed) w = (Inr r3, w3)"
    using one two three by (simp add: split pfold_append prog_simps)
  ultimately show ?thesis
    using gone by (auto simp: reclaim_def Let_def prog_simps only_removes_def)
qed

subsection \<open>Properties\<close>

text \<open>Reclaiming never takes what a remaining image needs: every blob a live record
  references, and every file below a snapshot directory a live record names, is there with the
  same contents after the pass, whatever calls fail. The blob store and the snapshots lie in
  separate directories, and records hold digests in printed form.\<close>

theorem reclaim_keeps_live:
  assumes canon: "list_all canonical_image (removed # live)"
    and sep: "\<not> below (sroot @ [''snapshots'']) (root @ [''blobs''])"
      "\<not> below (root @ [''blobs'']) (sroot @ [''snapshots''])"
    and rec: "rec \<in> set live"
    and q: "(\<exists>d. digest_to_string d \<in> set (referenced_blobs rec) \<and> q = blob_path root d) \<or>
      (\<exists>c. c \<in> set (im_chain_ids rec) \<and> below (snapshot_base sroot c) q)"
  shows "(lookup (snd (reclaim \<lparr>st_root = root\<rparr> sroot removed live w)) q = Some (File bs)) =
    (lookup w q = Some (File bs))"
proof (rule frame_file [where P = "\<lambda>p. p \<noteq> q"])
  show "frame (\<lambda>p. p \<noteq> q) w (snd (reclaim \<lparr>st_root = root\<rparr> sroot removed live w))"
    using reclaim_live_frame [OF assms] unfolding steps_def by blast
qed simp

definition sample_image :: "u8 \<Rightarrow> u8 list \<Rightarrow> image_record" where
  "sample_image c ls =
     (let t = (\<lambda>b. digest_to_string (sha256 sample_sha [b])) in
      \<lparr>im_name = ''img'', im_target_digest = t c, im_image_id = t c, im_repo_tags = [], im_repo_digests = [],
       im_size = 0, im_layer_digests = map t ls, im_chain_ids = map t ls, im_user = []\<rparr>)"

lemma sample_image_canonical: "canonical_image (sample_image c ls)"
  using sha256_wf [OF sample_sha_ok]
  by (auto simp: canonical_image_def sample_image_def referenced_blobs_def digest_text_iff list_all_iff Let_def)

theorem reclaim_keeps_live_witness:
  "(lookup (snd (reclaim \<lparr>st_root = [''c'']\<rparr> [''s''] (sample_image 1 [2, 3]) [sample_image 4 [3]] quiet_world))
      (blob_path [''c''] (sha256 sample_sha [3])) = Some (File [3])) =
   (lookup quiet_world (blob_path [''c''] (sha256 sample_sha [3])) = Some (File [3]))"
proof (rule reclaim_keeps_live)
  show "list_all canonical_image (sample_image 1 [2, 3] # [sample_image 4 [3]])"
    by (simp add: sample_image_canonical)
  show "sample_image 4 [3] \<in> set [sample_image 4 [3]]" by simp
  show "(\<exists>d. digest_to_string d \<in> set (referenced_blobs (sample_image 4 [3])) \<and>
        blob_path [''c''] (sha256 sample_sha [3]) = blob_path [''c''] d) \<or>
      (\<exists>c. c \<in> set (im_chain_ids (sample_image 4 [3])) \<and>
        below (snapshot_base [''s''] c) (blob_path [''c''] (sha256 sample_sha [3])))"
    by (auto simp: sample_image_def referenced_blobs_def Let_def)
qed (simp_all add: below_def)

text \<open>When no call fails, a pass removes every blob of the removed image that no remaining
  image references.\<close>

theorem reclaim_removes_dead:
  assumes "os_sched w = []" "digest_to_string d \<in> set (referenced_blobs removed)" "wf_digest d"
    and "digest_to_string d \<notin> set (concat (map referenced_blobs live))"
  shows "lookup (snd (reclaim \<lparr>st_root = root\<rparr> sroot removed live w)) (blob_path root d) \<noteq> Some (File bs)"
  using reclaim_removes [OF assms, of "\<lparr>st_root = root\<rparr>"] by simp

theorem reclaim_removes_dead_witness:
  "lookup (snd (reclaim \<lparr>st_root = [''c'']\<rparr> [''s''] (sample_image 1 [2, 3]) [] quiet_world))
      (blob_path [''c''] (sha256 sample_sha [3])) \<noteq> Some (File [3])"
  by (rule reclaim_removes_dead)
    (simp_all add: quiet_world_def sample_image_def referenced_blobs_def Let_def sha256_wf sample_sha_ok)

text \<open>The directories that layers are unpacked into are not the ones a pass looks for.
  \<open>Puller::pull\<close> unpacks under the hex of a chainID, the image record holds its printed form
  with the algorithm in front: for a removed record in printed form, every file below
  \<open>snapshots/<hex>\<close>, of its own chain or of any other, is still there afterwards.\<close>

theorem reclaim_misses_unpacked:
  assumes canon: "canonical_image removed" and d: "wf_digest d"
    and sep: "\<not> below (root @ [''blobs'']) (sroot @ [''snapshots'', hex d])"
      "\<not> below (sroot @ [''snapshots'', hex d]) (root @ [''blobs''])"
    and q: "below (sroot @ [''snapshots'', hex d]) q"
  shows "(lookup (snd (reclaim \<lparr>st_root = root\<rparr> sroot removed live w)) q = Some (File bs)) =
    (lookup w q = Some (File bs))"
proof (rule frame_file [where P = "\<lambda>p. p \<noteq> q"])
  have "frame (\<lambda>p. p \<noteq> q) v (snd (reclaim \<lparr>st_root = root\<rparr> sroot removed live v))" for v :: "'a os_scheme"
  proof -
    have chain: "p \<noteq> q" if "c \<in> set (im_chain_ids removed)" "below (snapshot_base sroot c) p" for c p
    proof -
      from canon that(1) obtain e where e: "wf_digest e" "c = digest_to_string e"
        by (auto simp: canonical_image_def list_all_iff digest_text_iff)
      have "CHR '':'' \<in> set (digest_to_string e)" "CHR '':'' \<notin> set (hex d)"
        using lower_hex_no_sep [of "hex d"] d by (auto simp: digest_to_string_def wf_digest_def wf_hex_def)
      then have "digest_to_string e \<noteq> hex d" by metis
      with that(2) e q show ?thesis by (auto simp: snapshot_base_digest below_iff)
    qed
    have blob: "blob_file root h \<noteq> q" for h
    proof
      assume "blob_file root h = q"
      then have "below (root @ [''blobs'']) q" by (auto simp: blob_file_def below_iff)
      with below_prefix_cases [OF q] sep show False by blast
    qed
    have "steps (frame (\<lambda>p. p \<noteq> q)) (reclaim \<lparr>st_root = root\<rparr> sroot removed live)"
      by (rule reclaim_frame) (use chain blob in auto)
    then show ?thesis unfolding steps_def by blast
  qed
  then show "frame (\<lambda>p. p \<noteq> q) w (snd (reclaim \<lparr>st_root = root\<rparr> sroot removed live w))" .
qed simp

theorem reclaim_misses_unpacked_witness:
  "(lookup (snd (reclaim \<lparr>st_root = [''c'']\<rparr> [''s''] (sample_image 1 [3]) []
      \<lparr>os_fs = [([''s'', ''snapshots'', hex (sha256 sample_sha [3]), ''fs'', ''f''], File [9])],
       os_sched = [], os_pid = 0, os_seq = 0\<rparr>))
      [''s'', ''snapshots'', hex (sha256 sample_sha [3]), ''fs'', ''f''] = Some (File [9])) =
   (lookup \<lparr>os_fs = [([''s'', ''snapshots'', hex (sha256 sample_sha [3]), ''fs'', ''f''], File [9])],
       os_sched = [], os_pid = 0, os_seq = 0\<rparr>
      [''s'', ''snapshots'', hex (sha256 sample_sha [3]), ''fs'', ''f''] = Some (File [9]))"
  by (rule reclaim_misses_unpacked [where d = "sha256 sample_sha [3]"])
    (simp_all add: sample_image_canonical sha256_wf sample_sha_ok below_def)

end
