(* ===== verification/Oci_Types.thy ===== *)
theory Oci_Types
  imports File_System Records
begin

section \<open>The OCI runtime specification and the container request\<close>

text \<open>
  The data of \<open>crates/runtime/src/bundle.rs\<close>: the image configuration and the container
  request as the source declares them, and the parts of the runtime specification that the
  source reads or writes. The specification's types and their builders come from the crate
  \<open>oci_spec\<close>: a record here has the fields that the source uses, a builder is a function of
  the parameter \<open>lib\<close> that gives the value or an error, and so are the base specifications
  \<open>Spec::default()\<close> and \<open>Spec::rootless\<close>, the parser of capability names, the stat call and
  the JSON reader for seccomp profiles. \<open>builders_ok\<close> says that a builder whose fields are
  all given returns them. \<open>'sec\<close> is the type of a seccomp profile.
\<close>

datatype capability =
    CapAuditControl | CapAuditRead | CapAuditWrite | CapBlockSuspend | CapBpf | CapCheckpointRestore
  | CapChown | CapDacOverride | CapDacReadSearch | CapFowner | CapFsetid | CapIpcLock | CapIpcOwner
  | CapKill | CapLease | CapLinuxImmutable | CapMacAdmin | CapMacOverride | CapMknod | CapNetAdmin
  | CapNetBindService | CapNetBroadcast | CapNetRaw | CapPerfmon | CapSetfcap | CapSetgid | CapSetpcap
  | CapSetuid | CapSysAdmin | CapSysBoot | CapSysChroot | CapSysModule | CapSysNice | CapSysPacct
  | CapSysPtrace | CapSysRawio | CapSysResource | CapSysTime | CapSysTtyConfig | CapSyslog | CapWakeAlarm

datatype ns_type = NsMount | NsCgroup | NsUts | NsIpc | NsUser | NsPid | NsNetwork | NsTime

datatype device_type = DevC | DevB

datatype raw_file_type = CharacterDevice | BlockDevice | OtherFile

record oci_namespace =
  on_typ :: ns_type
  on_path :: "string option"

record oci_caps =
  oc_bounding :: "capability set option"
  oc_effective :: "capability set option"
  oc_permitted :: "capability set option"
  oc_inheritable :: "capability set option"
  oc_ambient :: "capability set option"

record oci_user =
  ou_uid :: u32
  ou_gid :: u32
  ou_additional_gids :: "u32 list option"

record oci_process =
  op_terminal :: bool
  op_args :: "string list"
  op_env :: "string list"
  op_cwd :: string
  op_user :: oci_user
  op_capabilities :: "oci_caps option"
  op_no_new_privileges :: "bool option"
  op_apparmor_profile :: "string option"
  op_selinux_label :: "string option"

record oci_root =
  or_path :: string
  or_readonly :: bool

record oci_mount =
  om_destination :: string
  om_typ :: string
  om_source :: string
  om_options :: "string list"

record id_mapping =
  idm_container_id :: u32
  idm_host_id :: u32
  idm_size :: u32

record oci_device =
  od_path :: string
  od_typ :: device_type
  od_major :: int
  od_minor :: int
  od_file_mode :: u32
  od_uid :: u32
  od_gid :: u32

record oci_dev_rule =
  dr_allow :: bool
  dr_typ :: "device_type option"
  dr_major :: "int option"
  dr_minor :: "int option"
  dr_access :: string

record oci_cpu =
  cpu_shares :: "u64 option"
  cpu_quota :: "i64 option"
  cpu_period :: "u64 option"
  cpu_cpus :: "string option"
  cpu_mems :: "string option"

record oci_resources =
  ors_devices :: "oci_dev_rule list option"
  ors_cpu :: "oci_cpu option"
  ors_memory_limit :: "i64 option"
  ors_hugepage_limits :: "(string \<times> i64) list option"
  ors_unified :: "str_map option"

record 'sec oci_linux =
  ol_namespaces :: "oci_namespace list option"
  ol_uid_mappings :: "id_mapping list option"
  ol_gid_mappings :: "id_mapping list option"
  ol_devices :: "oci_device list option"
  ol_resources :: "oci_resources option"
  ol_cgroups_path :: "string option"
  ol_masked_paths :: "string list option"
  ol_readonly_paths :: "string list option"
  ol_sysctl :: "str_map option"
  ol_seccomp :: "'sec option"
  ol_rootfs_propagation :: "string option"

record 'sec oci_spec =
  sp_process :: "oci_process option"
  sp_root :: "oci_root option"
  sp_hostname :: "string option"
  sp_mounts :: "oci_mount list option"
  sp_linux :: "'sec oci_linux option"

subsection \<open>The request\<close>

datatype propagation = Private | HostToContainer | Bidirectional

record mount_spec =
  ms_source :: string
  ms_destination :: string
  ms_readonly :: bool
  ms_propagation :: propagation
  ms_recursive_read_only :: bool

record image_config =
  ic_env :: "string list"
  ic_entrypoint :: "string list"
  ic_cmd :: "string list"
  ic_working_dir :: "string option"
  ic_user :: "string option"

record device_request =
  dq_host_path :: string
  dq_container_path :: string
  dq_permissions :: string

datatype seccomp_profile = Unconfined | RuntimeDefault | Localhost string

record resources =
  rs_cpu_shares :: "u64 option"
  rs_cpu_quota :: "i64 option"
  rs_cpu_period :: "u64 option"
  rs_memory_limit :: "i64 option"
  rs_cpuset_cpus :: "string option"
  rs_cpuset_mems :: "string option"
  rs_hugepage_limits :: "(string \<times> u64) list"
  rs_unified :: str_map

record container_request =
  rq_command :: "string list"
  rq_args :: "string list"
  rq_envs :: "(string \<times> string) list"
  rq_working_dir :: "string option"
  rq_hostname :: "string option"
  rq_terminal :: bool
  rq_readonly_rootfs :: bool
  rq_rootless_host_ids :: "(u32 \<times> u32) option"
  rq_netns_path :: "string option"
  rq_pid_ns_path :: "string option"
  rq_ipc_ns_path :: "string option"
  rq_mounts :: "mount_spec list"
  rq_privileged :: bool
  rq_run_as_user :: "u32 option"
  rq_run_as_group :: "u32 option"
  rq_supplemental_groups :: "u32 list"
  rq_sysctls :: str_map
  rq_resources :: resources
  rq_cgroup_path :: "string option"
  rq_add_capabilities :: "string list"
  rq_drop_capabilities :: "string list"
  rq_no_new_privileges :: bool
  rq_apparmor_profile :: "string option"
  rq_selinux_label :: "string option"
  rq_masked_paths :: "string list"
  rq_readonly_paths :: "string list"
  rq_seccomp :: seccomp_profile
  rq_host_pid :: bool
  rq_host_ipc :: bool
  rq_userns_uid_mappings :: "id_mapping list"
  rq_userns_gid_mappings :: "id_mapping list"
  rq_devices :: "device_request list"

definition resources_is_empty :: "resources \<Rightarrow> bool" where
  "resources_is_empty r \<longleftrightarrow>
     rs_cpu_shares r = None \<and> rs_cpu_quota r = None \<and> rs_cpu_period r = None
     \<and> rs_memory_limit r = None \<and> rs_cpuset_cpus r = None \<and> rs_cpuset_mems r = None
     \<and> rs_hugepage_limits r = [] \<and> rs_unified r = []"

subsection \<open>Third-party code\<close>

record 'sec bundle_lib =
  lib_default :: "'sec oci_spec"
  lib_rootless :: "u32 \<Rightarrow> u32 \<Rightarrow> 'sec oci_spec"
  lib_user :: "oci_user \<Rightarrow> string + oci_user"
  lib_process :: "oci_process \<Rightarrow> string + oci_process"
  lib_root :: "oci_root \<Rightarrow> string + oci_root"
  lib_caps :: "oci_caps \<Rightarrow> string + oci_caps"
  lib_namespace :: "oci_namespace \<Rightarrow> string + oci_namespace"
  lib_mount :: "oci_mount \<Rightarrow> string + oci_mount"
  lib_id_mapping :: "id_mapping \<Rightarrow> string + id_mapping"
  lib_device :: "oci_device \<Rightarrow> string + oci_device"
  lib_dev_rule :: "oci_dev_rule \<Rightarrow> string + oci_dev_rule"
  lib_cpu :: "oci_cpu \<Rightarrow> string + oci_cpu"
  lib_memory :: "i64 \<Rightarrow> string + i64"
  lib_hugepage :: "string \<times> i64 \<Rightarrow> string + string \<times> i64"
  lib_resources :: "oci_resources \<Rightarrow> string + oci_resources"
  lib_resources_default :: oci_resources
  lib_cap_parse :: "string \<Rightarrow> capability option"
  lib_cap_string :: "capability \<Rightarrow> string option"
  lib_seccomp_parse :: "bytes \<Rightarrow> string + 'sec"
  lib_stat :: "string \<Rightarrow> string + u32 \<times> u64"
  lib_file_type :: "u32 \<Rightarrow> raw_file_type"
  lib_major :: "u64 \<Rightarrow> u32"
  lib_minor :: "u64 \<Rightarrow> u32"
  lib_io_text :: "io_error \<Rightarrow> string"

definition builders_ok :: "'sec bundle_lib \<Rightarrow> bool" where
  "builders_ok lib \<longleftrightarrow>
     lib_user lib = Inr \<and> lib_process lib = Inr \<and> lib_root lib = Inr \<and> lib_caps lib = Inr
     \<and> lib_namespace lib = Inr \<and> lib_mount lib = Inr \<and> lib_id_mapping lib = Inr
     \<and> lib_device lib = Inr \<and> lib_dev_rule lib = Inr \<and> lib_cpu lib = Inr \<and> lib_memory lib = Inr
     \<and> lib_hugepage lib = Inr \<and> lib_resources lib = Inr"

text \<open>Updates of the optional \<open>linux\<close> and \<open>process\<close> sections: nothing happens when the
  section is missing.\<close>

definition with_linux :: "('sec oci_linux \<Rightarrow> 'sec oci_linux) \<Rightarrow> 'sec oci_spec \<Rightarrow> 'sec oci_spec" where
  "with_linux f sp = (case sp_linux sp of None \<Rightarrow> sp | Some l \<Rightarrow> sp\<lparr>sp_linux := Some (f l)\<rparr>)"

definition with_process :: "(oci_process \<Rightarrow> oci_process) \<Rightarrow> 'sec oci_spec \<Rightarrow> 'sec oci_spec" where
  "with_process f sp = (case sp_process sp of None \<Rightarrow> sp | Some p \<Rightarrow> sp\<lparr>sp_process := Some (f p)\<rparr>)"

definition fs_path :: "string \<Rightarrow> fpath" where
  "fs_path s = concat (map (\<lambda>c. case c of Normal n \<Rightarrow> [n] | ParentDir \<Rightarrow> [''..''] | _ \<Rightarrow> []) (components s))"

lemma with_linux_simps [simp]:
  "sp_linux (with_linux f sp) = map_option f (sp_linux sp)"
  "sp_process (with_linux f sp) = sp_process sp"
  "sp_root (with_linux f sp) = sp_root sp"
  "sp_hostname (with_linux f sp) = sp_hostname sp"
  "sp_mounts (with_linux f sp) = sp_mounts sp"
  by (auto simp: with_linux_def split: option.splits)

lemma with_process_simps [simp]:
  "sp_process (with_process f sp) = map_option f (sp_process sp)"
  "sp_linux (with_process f sp) = sp_linux sp"
  "sp_root (with_process f sp) = sp_root sp"
  "sp_hostname (with_process f sp) = sp_hostname sp"
  "sp_mounts (with_process f sp) = sp_mounts sp"
  by (auto simp: with_process_def split: option.splits)

end
