(* ===== verification/Seccomp.thy ===== *)
theory Seccomp
  imports Rust_Prelude
begin

section \<open>The default seccomp profile\<close>

text \<open>
  \<open>crates/runtime/src/seccomp.rs\<close>: the bundled profile, resolved for the host's architecture
  and the container's capabilities. Reading the bundled JSON and turning the resolved value
  into the \<open>oci_spec\<close> type is serde: \<open>profile\<close> is the outcome of the one, \<open>of_value\<close> the
  other. JSON values that are only passed on (a block's arguments) are of the type \<open>'v\<close>.
\<close>

record filter_rule =
  fr_caps :: "string list"
  fr_arches :: "string list"
  fr_min_kernel :: "string option"

record 'v syscall_block =
  bk_names :: "string list"
  bk_action :: string
  bk_errno_ret :: "i64 option"
  bk_args :: "'v list"
  bk_includes :: filter_rule
  bk_excludes :: filter_rule


record arch_map_entry =
  am_architecture :: string
  am_sub_architectures :: "string list option"

record 'v docker_profile =
  dp_default_action :: string
  dp_default_errno_ret :: "i64 option"
  dp_arch_map :: "arch_map_entry list"
  dp_syscalls :: "'v syscall_block list"

record 'v resolved_syscall =
  rv_names :: "string list"
  rv_action :: string
  rv_errno_ret :: "i64 option"
  rv_args :: "'v list option"

record 'v resolved_profile =
  rp_default_action :: string
  rp_architectures :: "string list"
  rp_syscalls :: "'v resolved_syscall list"
  rp_default_errno_ret :: "i64 option"

definition host_arch :: "string \<Rightarrow> (string \<times> string) option" where
  "host_arch arch =
     (if arch = ''x86_64'' then Some (''amd64'', ''SCMP_ARCH_X86_64'')
      else if arch = ''aarch64'' then Some (''arm64'', ''SCMP_ARCH_AARCH64'')
      else None)"

definition cap_matches :: "string set \<Rightarrow> string list \<Rightarrow> bool" where
  "cap_matches effective_caps names \<longleftrightarrow> list_ex (\<lambda>c. c \<in> effective_caps) names"

definition arch_matches :: "string option \<Rightarrow> string list \<Rightarrow> bool" where
  "arch_matches goarch names \<longleftrightarrow> (case goarch of None \<Rightarrow> False | Some a \<Rightarrow> list_ex (\<lambda>x. x = a) names)"

definition keep_block :: "string option \<Rightarrow> string set \<Rightarrow> 'v syscall_block \<Rightarrow> bool" where
  "keep_block goarch caps b =
     (if fr_arches (bk_excludes b) \<noteq> [] \<and> arch_matches goarch (fr_arches (bk_excludes b)) then False
      else if fr_caps (bk_excludes b) \<noteq> [] \<and> cap_matches caps (fr_caps (bk_excludes b)) then False
      else if fr_arches (bk_includes b) \<noteq> [] \<and> \<not> arch_matches goarch (fr_arches (bk_includes b)) then False
      else if fr_caps (bk_includes b) \<noteq> [] \<and> \<not> cap_matches caps (fr_caps (bk_includes b)) then False
      else if fr_min_kernel (bk_excludes b) \<noteq> None then False
      else True)"

definition resolve_block :: "'v syscall_block \<Rightarrow> 'v resolved_syscall" where
  "resolve_block b =
     \<lparr>rv_names = bk_names b, rv_action = bk_action b, rv_errno_ret = bk_errno_ret b,
      rv_args = (if bk_args b \<noteq> [] then Some (bk_args b) else None)\<rparr>"

definition resolve_architectures :: "(string \<times> string) option \<Rightarrow> arch_map_entry list \<Rightarrow> string list" where
  "resolve_architectures host arch_map =
     (case host of
        None \<Rightarrow> []
      | Some (_, scmp) \<Rightarrow>
          (case find (\<lambda>e. am_architecture e = scmp) arch_map of
             None \<Rightarrow> []
           | Some e \<Rightarrow> am_architecture e # unwrap_or [] (am_sub_architectures e)))"

definition runtime_default ::
  "string + 'v docker_profile \<Rightarrow> ('v resolved_profile \<Rightarrow> string + 'sec) \<Rightarrow> string \<Rightarrow> string set \<Rightarrow> string + 'sec" where
  "runtime_default profile of_value arch effective_caps =
     rbind (map_err (\<lambda>e. ''parse bundled default seccomp profile: '' @ e) profile) (\<lambda>p.
       let host = host_arch arch;
           goarch = map_option fst host;
           syscalls = map resolve_block (filter (keep_block goarch effective_caps) (dp_syscalls p))
       in map_err (\<lambda>e. ''build OCI seccomp from default profile: '' @ e)
            (of_value \<lparr>rp_default_action = dp_default_action p,
                       rp_architectures = resolve_architectures host (dp_arch_map p),
                       rp_syscalls = syscalls, rp_default_errno_ret = dp_default_errno_ret p\<rparr>))"

end
