(* ===== verification/Oci_Bundle.thy ===== *)
theory Oci_Bundle
  imports Oci_Types Seccomp
begin

section \<open>Generation of the container's runtime specification\<close>

text \<open>
  \<open>crates/runtime/src/bundle.rs\<close>, function by function. \<open>generate_spec\<close> has two effects
  besides its result: a bind mount whose source is missing has its directory made, and a
  node-local seccomp profile is read from its file.
\<close>

datatype bundle_error = Builder string | BundleIo io_error | SpecError string | BundlePanic string

subsection \<open>Capabilities\<close>

definition all_capabilities :: "capability set" where
  "all_capabilities = set [CapAuditControl, CapAuditRead, CapAuditWrite, CapBlockSuspend, CapBpf,
     CapCheckpointRestore, CapChown, CapDacOverride, CapDacReadSearch, CapFowner, CapFsetid, CapIpcLock,
     CapIpcOwner, CapKill, CapLease, CapLinuxImmutable, CapMacAdmin, CapMacOverride, CapMknod, CapNetAdmin,
     CapNetBindService, CapNetBroadcast, CapNetRaw, CapPerfmon, CapSetfcap, CapSetgid, CapSetpcap, CapSetuid,
     CapSysAdmin, CapSysBoot, CapSysChroot, CapSysModule, CapSysNice, CapSysPacct, CapSysPtrace, CapSysRawio,
     CapSysResource, CapSysTime, CapSysTtyConfig, CapSyslog, CapWakeAlarm]"

definition default_capabilities :: "capability set" where
  "default_capabilities = set [CapAuditWrite, CapChown, CapDacOverride, CapFowner, CapFsetid, CapKill,
     CapMknod, CapNetBindService, CapNetRaw, CapSetfcap, CapSetgid, CapSetpcap, CapSetuid, CapSysChroot]"

text \<open>\<open>while let Some(s) = key.strip_prefix("CAP_")\<close>: every leading prefix goes.\<close>

function strip_cap_prefixes :: "string \<Rightarrow> string" where
  "strip_cap_prefixes key =
     (if starts_with key ''CAP_'' then strip_cap_prefixes (drop 4 key) else key)"
  by pat_completeness auto
termination
proof (relation "measure length", goal_cases)
  case (2 key)
  then show ?case by (cases key) (auto simp: starts_with_def)
qed simp

declare strip_cap_prefixes.simps [simp del]

definition cap_key :: "string \<Rightarrow> string" where
  "cap_key name = strip_cap_prefixes (to_uppercase (trim name))"

definition parse_cap :: "'sec bundle_lib \<Rightarrow> string \<Rightarrow> capability option" where
  "parse_cap lib name =
     (let key = cap_key name in if key = ''ALL'' then None else lib_cap_parse lib key)"

definition drop_cap :: "'sec bundle_lib \<Rightarrow> string \<Rightarrow> capability set \<Rightarrow> capability set" where
  "drop_cap lib name caps =
     (if cap_key name = ''ALL'' then {}
      else case parse_cap lib name of Some c \<Rightarrow> caps - {c} | None \<Rightarrow> caps)"

definition add_cap :: "'sec bundle_lib \<Rightarrow> string \<Rightarrow> capability set \<Rightarrow> capability set" where
  "add_cap lib name caps =
     (if cap_key name = ''ALL'' then caps \<union> all_capabilities
      else case parse_cap lib name of Some c \<Rightarrow> insert c caps | None \<Rightarrow> caps)"

definition build_caps :: "'sec bundle_lib \<Rightarrow> capability set \<Rightarrow> capability set \<Rightarrow> oci_caps option" where
  "build_caps lib caps ambient =
     ok (lib_caps lib \<lparr>oc_bounding = Some caps, oc_effective = Some caps, oc_permitted = Some caps,
                       oc_inheritable = Some caps, oc_ambient = Some ambient\<rparr>)"

definition spec_bounding :: "'sec oci_spec \<Rightarrow> capability set option" where
  "spec_bounding sp = Option.bind (sp_process sp) (\<lambda>p. Option.bind (op_capabilities p) oc_bounding)"

definition apply_capabilities ::
  "'sec bundle_lib \<Rightarrow> string list \<Rightarrow> string list \<Rightarrow> 'sec oci_spec \<Rightarrow> 'sec oci_spec" where
  "apply_capabilities lib add drops sp =
     (if add = [] \<and> drops = [] then sp
      else
        let seed = unwrap_or {} (spec_bounding sp);
            kept = fold (drop_cap lib) drops seed;
            cap_set = fold (add_cap lib) add kept
        in case build_caps lib cap_set cap_set of
             None \<Rightarrow> sp
           | Some lc \<Rightarrow> with_process (\<lambda>p. p\<lparr>op_capabilities := Some lc\<rparr>) sp)"

definition apply_privileged :: "'sec bundle_lib \<Rightarrow> 'sec oci_spec \<Rightarrow> 'sec oci_spec" where
  "apply_privileged lib sp =
     (let sp1 = (case build_caps lib all_capabilities all_capabilities of
                   None \<Rightarrow> sp
                 | Some lc \<Rightarrow> with_process (\<lambda>p. p\<lparr>op_capabilities := Some lc\<rparr>) sp)
      in with_linux (\<lambda>linux.
           let l1 = linux\<lparr>ol_masked_paths := None, ol_readonly_paths := None\<rparr>
           in case lib_dev_rule lib \<lparr>dr_allow = True, dr_typ = None, dr_major = None, dr_minor = None,
                                      dr_access = ''rwm''\<rparr> of
                Inl _ \<Rightarrow> l1
              | Inr rule \<Rightarrow>
                  l1\<lparr>ol_resources :=
                    (case ol_resources linux of
                       Some r \<Rightarrow> Some (r\<lparr>ors_devices := Some [rule]\<rparr>)
                     | None \<Rightarrow> ok (lib_resources lib ((lib_resources_default lib)\<lparr>ors_devices := Some [rule]\<rparr>)))\<rparr>) sp1)"

subsection \<open>Arguments, environment, user\<close>

definition resolve_argv :: "image_config \<Rightarrow> container_request \<Rightarrow> string list" where
  "resolve_argv img req =
     (if rq_command req \<noteq> [] then
        (if rq_args req \<noteq> [] then rq_command req @ rq_args req else rq_command req)
      else if rq_args req \<noteq> [] then ic_entrypoint img @ rq_args req
      else ic_entrypoint img @ ic_cmd img)"

definition set_env :: "string \<times> string \<Rightarrow> string list \<Rightarrow> string list" where
  "set_env kv out =
     (case kv of (k, v) \<Rightarrow> filter (\<lambda>e. \<not> starts_with e (k @ ''='')) out @ [k @ ''='' @ v])"

definition merge_env :: "image_config \<Rightarrow> container_request \<Rightarrow> string list" where
  "merge_env img req = fold set_env (rq_envs req) (ic_env img)"

definition parse_u32 :: "string \<Rightarrow> u32 option" where
  "parse_u32 s = map_option of_nat (parse_unsigned 32 s)"

definition parse_user :: "string option \<Rightarrow> u32 \<times> u32" where
  "parse_user user =
     (case user of
        None \<Rightarrow> (0, 0)
      | Some s \<Rightarrow>
          if s = [] then (0, 0)
          else case split_once (CHR '':'') s of
                 None \<Rightarrow> (unwrap_or 0 (parse_u32 s), 0)
               | Some (u, g) \<Rightarrow> (unwrap_or 0 (parse_u32 u), unwrap_or 0 (parse_u32 g)))"

subsection \<open>Namespaces\<close>

definition set_namespaces ::
  "(oci_namespace list \<Rightarrow> oci_namespace list) \<Rightarrow> 'sec oci_spec \<Rightarrow> 'sec oci_spec" where
  "set_namespaces f = with_linux (\<lambda>l. l\<lparr>ol_namespaces := Some (f (unwrap_or [] (ol_namespaces l)))\<rparr>)"

definition push_namespace ::
  "'sec bundle_lib \<Rightarrow> ns_type \<Rightarrow> string option \<Rightarrow> oci_namespace list \<Rightarrow> oci_namespace list" where
  "push_namespace lib t p ns =
     (case lib_namespace lib \<lparr>on_typ = t, on_path = p\<rparr> of Inr n \<Rightarrow> ns @ [n] | Inl _ \<Rightarrow> ns)"

definition drop_namespace :: "ns_type \<Rightarrow> oci_namespace list \<Rightarrow> oci_namespace list" where
  "drop_namespace t ns = filter (\<lambda>n. on_typ n \<noteq> t) ns"

definition set_network_namespace :: "'sec bundle_lib \<Rightarrow> string option \<Rightarrow> 'sec oci_spec \<Rightarrow> 'sec oci_spec" where
  "set_network_namespace lib netns_path =
     set_namespaces (\<lambda>ns.
       let kept = drop_namespace NsNetwork ns in
       case netns_path of
         None \<Rightarrow> kept
       | Some p \<Rightarrow> if p = ''host'' then kept else push_namespace lib NsNetwork (Some p) kept)"

definition apply_host_namespaces :: "bool \<Rightarrow> bool \<Rightarrow> 'sec oci_spec \<Rightarrow> 'sec oci_spec" where
  "apply_host_namespaces host_pid host_ipc sp =
     (if \<not> host_pid \<and> \<not> host_ipc then sp
      else set_namespaces (\<lambda>ns.
             let ns1 = (if host_pid then drop_namespace NsPid ns else ns)
             in if host_ipc then drop_namespace NsIpc ns1 else ns1) sp)"

definition join_namespace :: "'sec bundle_lib \<Rightarrow> ns_type \<Rightarrow> string option \<Rightarrow> 'sec oci_spec \<Rightarrow> 'sec oci_spec" where
  "join_namespace lib t p sp =
     (case p of
        None \<Rightarrow> sp
      | Some path \<Rightarrow> set_namespaces (\<lambda>ns. push_namespace lib t (Some path) (drop_namespace t ns)) sp)"

definition apply_user_namespace ::
  "'sec bundle_lib \<Rightarrow> id_mapping list \<Rightarrow> id_mapping list \<Rightarrow> 'sec oci_spec \<Rightarrow> bundle_error + 'sec oci_spec" where
  "apply_user_namespace lib uid gid sp =
     (if uid = [] \<and> gid = [] then Inr sp
      else case sp_linux sp of
             None \<Rightarrow> Inr sp
           | Some _ \<Rightarrow>
               let to_oci = (\<lambda>ms. map_err (\<lambda>_. BundlePanic ''LinuxIdMapping has all fields set'')
                                    (collect_results (map (lib_id_mapping lib) ms)))
               in rbind (to_oci uid) (\<lambda>us. rbind (to_oci gid) (\<lambda>gs.
                    Inr (set_namespaces (\<lambda>ns.
                           if list_ex (\<lambda>n. on_typ n = NsUser) ns then ns
                           else push_namespace lib NsUser None ns)
                         (with_linux (\<lambda>l. l\<lparr>ol_uid_mappings := Some us, ol_gid_mappings := Some gs\<rparr>) sp)))))"

subsection \<open>Devices\<close>

record stated_device =
  sd_typ :: device_type
  sd_major :: int
  sd_minor :: int
  sd_file_mode :: u32

definition stat_device :: "'sec bundle_lib \<Rightarrow> string \<Rightarrow> bundle_error + stated_device" where
  "stat_device lib host_path =
     rbind (map_err (\<lambda>e. Builder (''device not found on node: '' @ host_path @ '': '' @ e)) (lib_stat lib host_path))
       (\<lambda>(mode, rdev).
         rbind (case lib_file_type lib mode of
                  CharacterDevice \<Rightarrow> Inr DevC
                | BlockDevice \<Rightarrow> Inr DevB
                | OtherFile \<Rightarrow> Inl (Builder (host_path @ '' is not a character or block device'')))
           (\<lambda>t. Inr \<lparr>sd_typ = t, sd_major = uint (lib_major lib rdev), sd_minor = uint (lib_minor lib rdev),
                     sd_file_mode = and mode 4095\<rparr>))"

definition sanitize_device_access :: "string \<Rightarrow> string" where
  "sanitize_device_access perms =
     (let s = filter (\<lambda>c. c \<in> {CHR ''r'', CHR ''w'', CHR ''m''}) perms in
      if s = [] then ''rwm'' else s)"

definition device_entry :: "'sec bundle_lib \<Rightarrow> device_request \<Rightarrow> bundle_error + (oci_device \<times> oci_dev_rule)" where
  "device_entry lib d =
     rbind (stat_device lib (dq_host_path d)) (\<lambda>dev.
     let access = sanitize_device_access (dq_permissions d) in
     rbind (map_err (\<lambda>e. Builder (''device '' @ dq_host_path d @ '': '' @ e))
       (lib_device lib \<lparr>od_path = dq_container_path d, od_typ = sd_typ dev, od_major = sd_major dev,
                        od_minor = sd_minor dev, od_file_mode = sd_file_mode dev, od_uid = 0, od_gid = 0\<rparr>)) (\<lambda>node.
     rbind (map_err (\<lambda>e. Builder (''device cgroup '' @ dq_host_path d @ '': '' @ e))
       (lib_dev_rule lib \<lparr>dr_allow = True, dr_typ = Some (sd_typ dev), dr_major = Some (sd_major dev),
                          dr_minor = Some (sd_minor dev), dr_access = access\<rparr>)) (\<lambda>rule.
     Inr (node, rule))))"

definition apply_devices :: "'sec bundle_lib \<Rightarrow> device_request list \<Rightarrow> 'sec oci_spec \<Rightarrow> bundle_error + 'sec oci_spec" where
  "apply_devices lib devices sp =
     (if devices = [] then Inr sp
      else case sp_linux sp of
             None \<Rightarrow> Inr sp
           | Some linux \<Rightarrow>
               let dev_nodes = unwrap_or [] (ol_devices linux);
                   res = unwrap_or (lib_resources_default lib) (ol_resources linux);
                   allow = unwrap_or [] (ors_devices res)
               in rbind (collect_results (map (device_entry lib) devices)) (\<lambda>es.
                    Inr (sp\<lparr>sp_linux := Some (linux\<lparr>
                           ol_devices := Some (dev_nodes @ map fst es),
                           ol_resources := Some (res\<lparr>ors_devices := Some (allow @ map snd es)\<rparr>)\<rparr>)\<rparr>)))"

subsection \<open>Resources, sysctls, mounts\<close>

definition nonempty :: "string option \<Rightarrow> string option" where
  "nonempty s = (case s of Some t \<Rightarrow> if t = [] then None else Some t | None \<Rightarrow> None)"

definition apply_resources :: "'sec bundle_lib \<Rightarrow> resources \<Rightarrow> 'sec oci_spec \<Rightarrow> 'sec oci_spec" where
  "apply_resources lib r sp =
     (if resources_is_empty r then sp
      else with_linux (\<lambda>linux.
        let r0 = unwrap_or (lib_resources_default lib) (ol_resources linux);
            r1 = (case lib_cpu lib \<lparr>cpu_shares = rs_cpu_shares r, cpu_quota = rs_cpu_quota r,
                                    cpu_period = rs_cpu_period r, cpu_cpus = nonempty (rs_cpuset_cpus r),
                                    cpu_mems = nonempty (rs_cpuset_mems r)\<rparr> of
                    Inr cpu \<Rightarrow> r0\<lparr>ors_cpu := Some cpu\<rparr> | Inl _ \<Rightarrow> r0);
            r2 = (case rs_memory_limit r of
                    None \<Rightarrow> r1
                  | Some limit \<Rightarrow>
                      (case lib_memory lib limit of Inr m \<Rightarrow> r1\<lparr>ors_memory_limit := Some m\<rparr> | Inl _ \<Rightarrow> r1));
            hp = List.map_filter (\<lambda>(page, limit). ok (lib_hugepage lib (page, limit))) (rs_hugepage_limits r);
            r3 = (if rs_hugepage_limits r \<noteq> [] \<and> hp \<noteq> [] then r2\<lparr>ors_hugepage_limits := Some hp\<rparr> else r2);
            r4 = (if rs_unified r \<noteq> []
                  then r3\<lparr>ors_unified := Some (fold (\<lambda>(k, v). AList.update k v) (rs_unified r)
                                                  (unwrap_or [] (ors_unified r3)))\<rparr>
                  else r3)
        in linux\<lparr>ol_resources := Some r4\<rparr>) sp)"

definition apply_sysctls :: "str_map \<Rightarrow> 'sec oci_spec \<Rightarrow> 'sec oci_spec" where
  "apply_sysctls sysctls sp =
     (if sysctls = [] then sp
      else with_linux (\<lambda>l. l\<lparr>ol_sysctl :=
             Some (fold (\<lambda>(k, v). AList.update k v) sysctls (unwrap_or [] (ol_sysctl l)))\<rparr>) sp)"

definition mount_option_list :: "mount_spec \<Rightarrow> string list" where
  "mount_option_list m =
     [''rbind'',
      (case ms_propagation m of
         Private \<Rightarrow> ''rprivate'' | HostToContainer \<Rightarrow> ''rslave'' | Bidirectional \<Rightarrow> ''rshared''),
      (if ms_readonly m then (if ms_recursive_read_only m then ''rro'' else ''ro'') else ''rw'')]"

definition next_rootfs_prop :: "mount_spec \<Rightarrow> string option \<Rightarrow> string option" where
  "next_rootfs_prop m prop =
     (case ms_propagation m of
        Private \<Rightarrow> prop
      | HostToContainer \<Rightarrow> (if prop = None then Some ''rslave'' else prop)
      | Bidirectional \<Rightarrow> Some ''rshared'')"

definition ensure_source :: "mount_spec \<Rightarrow> ('z os_scheme, bundle_error, unit) prog" where
  "ensure_source m =
     (let src = fs_path (ms_source m) in
      pbind (path_exists src) (\<lambda>there.
        if there then pret () else pseq (attempt (create_dir_all src)) (pret ())))"

definition add_bind_mounts ::
  "'sec bundle_lib \<Rightarrow> mount_spec list \<Rightarrow> 'sec oci_spec \<Rightarrow> ('z os_scheme, bundle_error, 'sec oci_spec) prog" where
  "add_bind_mounts lib mounts sp =
     (if mounts = [] then pret sp
      else pseq (piter ensure_source mounts)
        (let built = List.map_filter (\<lambda>m. ok (lib_mount lib
                        \<lparr>om_destination = ms_destination m, om_typ = ''bind'', om_source = ms_source m,
                         om_options = mount_option_list m\<rparr>)) mounts;
             sp1 = sp\<lparr>sp_mounts := Some (unwrap_or [] (sp_mounts sp) @ built)\<rparr>
         in pret (case fold next_rootfs_prop mounts None of
                    None \<Rightarrow> sp1
                  | Some prop \<Rightarrow> with_linux (\<lambda>l. l\<lparr>ol_rootfs_propagation := Some prop\<rparr>) sp1)))"

subsection \<open>Security context\<close>

definition effective_capabilities :: "'sec bundle_lib \<Rightarrow> 'sec oci_spec \<Rightarrow> string set" where
  "effective_capabilities lib sp =
     Option.these (lib_cap_string lib ` unwrap_or {} (spec_bounding sp))"

definition load_seccomp ::
  "'sec bundle_lib \<Rightarrow> (string set \<Rightarrow> string + 'sec) \<Rightarrow> seccomp_profile \<Rightarrow> string set
    \<Rightarrow> ('z os_scheme, bundle_error, 'sec option) prog" where
  "load_seccomp lib rt_default prof effective =
     (case prof of
        Unconfined \<Rightarrow> pret None
      | RuntimeDefault \<Rightarrow>
          plift (map_err (\<lambda>e. Builder (''build RuntimeDefault seccomp profile: '' @ e))
            (rbind (rt_default effective) (\<lambda>s. Inr (Some s))))
      | Localhost path \<Rightarrow>
          pbind (with_err (\<lambda>e. Builder (''read seccomp profile '' @ path @ '': '' @ lib_io_text lib e))
                   (read_file (fs_path path))) (\<lambda>bs.
          plift (map_err (\<lambda>e. Builder (''parse seccomp profile '' @ path @ '': '' @ e))
            (rbind (lib_seccomp_parse lib bs) (\<lambda>s. Inr (Some s))))))"

definition security_process :: "container_request \<Rightarrow> oci_process \<Rightarrow> oci_process" where
  "security_process req p =
     (let p1 = (if rq_no_new_privileges req then p\<lparr>op_no_new_privileges := Some True\<rparr> else p);
          p2 = (case rq_apparmor_profile req of
                  Some ap \<Rightarrow> p1\<lparr>op_apparmor_profile := Some ap\<rparr> | None \<Rightarrow> p1)
      in case rq_selinux_label req of Some l \<Rightarrow> p2\<lparr>op_selinux_label := Some l\<rparr> | None \<Rightarrow> p2)"

definition security_paths :: "container_request \<Rightarrow> 'sec oci_linux \<Rightarrow> 'sec oci_linux" where
  "security_paths req linux =
     (let l1 = (if rq_masked_paths req \<noteq> [] then linux\<lparr>ol_masked_paths := Some (rq_masked_paths req)\<rparr> else linux)
      in if rq_readonly_paths req \<noteq> [] then l1\<lparr>ol_readonly_paths := Some (rq_readonly_paths req)\<rparr> else l1)"

definition apply_security ::
  "'sec bundle_lib \<Rightarrow> (string set \<Rightarrow> string + 'sec) \<Rightarrow> container_request \<Rightarrow> 'sec oci_spec
    \<Rightarrow> ('z os_scheme, bundle_error, 'sec oci_spec) prog" where
  "apply_security lib rt_default req sp =
     (let sp1 = with_process (security_process req) sp
      in case sp_linux sp1 of
           None \<Rightarrow> pret sp1
         | Some linux \<Rightarrow>
             pbind (load_seccomp lib rt_default (rq_seccomp req) (effective_capabilities lib sp1)) (\<lambda>s.
               pret (sp1\<lparr>sp_linux := Some (case s of
                       None \<Rightarrow> security_paths req linux
                     | Some prof \<Rightarrow> (security_paths req linux)\<lparr>ol_seccomp := Some prof\<rparr>)\<rparr>)))"

subsection \<open>The whole specification\<close>

definition build_process ::
  "'sec bundle_lib \<Rightarrow> image_config \<Rightarrow> container_request \<Rightarrow> bundle_error + oci_process" where
  "build_process lib img req =
     (let argv = resolve_argv img req;
          env = merge_env img req;
          cwd = (case rq_working_dir req of
                   Some d \<Rightarrow> d | None \<Rightarrow> unwrap_or ''/'' (ic_working_dir img));
          (img_uid, img_gid) = parse_user (ic_user img)
      in rbind (map_err Builder (lib_user lib
             \<lparr>ou_uid = unwrap_or img_uid (rq_run_as_user req), ou_gid = unwrap_or img_gid (rq_run_as_group req),
              ou_additional_gids = (if rq_supplemental_groups req = [] then None
                                    else Some (rq_supplemental_groups req))\<rparr>)) (\<lambda>user.
         rbind (map_err Builder (lib_process lib
             \<lparr>op_terminal = rq_terminal req, op_args = argv, op_env = env, op_cwd = cwd, op_user = user,
              op_capabilities = build_caps lib default_capabilities {},
              op_no_new_privileges = None, op_apparmor_profile = None, op_selinux_label = None\<rparr>)) (\<lambda>process.
         Inr (process\<lparr>op_no_new_privileges := Some (rq_no_new_privileges req)\<rparr>))))"

definition base_spec :: "'sec bundle_lib \<Rightarrow> container_request \<Rightarrow> 'sec oci_spec" where
  "base_spec lib req =
     (case rq_rootless_host_ids req of Some (uid, gid) \<Rightarrow> lib_rootless lib uid gid | None \<Rightarrow> lib_default lib)"

definition secured ::
  "'sec bundle_lib \<Rightarrow> (string set \<Rightarrow> string + 'sec) \<Rightarrow> container_request \<Rightarrow> 'sec oci_spec
    \<Rightarrow> ('z os_scheme, bundle_error, 'sec oci_spec) prog" where
  "secured lib rt req sp =
     (if rq_privileged req then pret (apply_privileged lib sp)
      else pbind (apply_security lib rt req
                   (apply_capabilities lib (rq_add_capabilities req) (rq_drop_capabilities req) sp))
             (\<lambda>sp'. plift (apply_devices lib (rq_devices req) sp')))"

definition limited :: "'sec bundle_lib \<Rightarrow> container_request \<Rightarrow> 'sec oci_spec \<Rightarrow> 'sec oci_spec" where
  "limited lib req sp =
     (case nonempty (rq_cgroup_path req) of
        None \<Rightarrow> sp
      | Some cg \<Rightarrow> apply_resources lib (rq_resources req) (with_linux (\<lambda>l. l\<lparr>ol_cgroups_path := Some cg\<rparr>) sp))"

definition generate_spec ::
  "'sec bundle_lib \<Rightarrow> (string set \<Rightarrow> string + 'sec) \<Rightarrow> image_config \<Rightarrow> container_request \<Rightarrow> path
    \<Rightarrow> ('z os_scheme, bundle_error, 'sec oci_spec) prog" where
  "generate_spec lib rt_default img req rootfs =
     pbind (plift (build_process lib img req)) (\<lambda>process.
     pbind (plift (map_err Builder (lib_root lib \<lparr>or_path = rootfs, or_readonly = rq_readonly_rootfs req\<rparr>))) (\<lambda>root.
     pbind (plift (apply_user_namespace lib (rq_userns_uid_mappings req) (rq_userns_gid_mappings req)
              (apply_host_namespaces (rq_host_pid req) (rq_host_ipc req)
                (set_network_namespace lib (rq_netns_path req)
                  ((base_spec lib req)\<lparr>sp_process := Some process, sp_root := Some root,
                                       sp_hostname := rq_hostname req\<rparr>))))) (\<lambda>sp4.
     pbind (add_bind_mounts lib (rq_mounts req)
              (join_namespace lib NsIpc (rq_ipc_ns_path req)
                (join_namespace lib NsPid (rq_pid_ns_path req) sp4))) (\<lambda>sp5.
     pbind (secured lib rt_default req (limited lib req sp5)) (\<lambda>sp8.
     pret (apply_sysctls (rq_sysctls req) sp8))))))"

text \<open>\<open>Spec::save\<close> is a method of \<open>oci_spec\<close>: the parameter \<open>save\<close>.\<close>

definition write_bundle ::
  "(fpath \<Rightarrow> 'sec oci_spec \<Rightarrow> ('z os_scheme, bundle_error, unit) prog) \<Rightarrow> fpath \<Rightarrow> 'sec oci_spec
    \<Rightarrow> ('z os_scheme, bundle_error, fpath) prog" where
  "write_bundle save bundle_dir sp =
     pseq (with_err BundleIo (create_dir_all (bundle_dir @ [''rootfs''])))
       (let config = bundle_dir @ [''config.json''] in pseq (save config sp) (pret config))"

subsection \<open>What each stage leaves alone\<close>

definition spec_namespaces :: "'sec oci_spec \<Rightarrow> oci_namespace list option" where
  "spec_namespaces sp = map_option (\<lambda>l. unwrap_or [] (ol_namespaces l)) (sp_linux sp)"

named_theorems stage_simps \<open>fields that a stage of the generation does not change\<close>

lemma set_namespaces_simps [stage_simps]:
  "spec_namespaces (set_namespaces f sp) = map_option f (spec_namespaces sp)"
  "sp_process (set_namespaces f sp) = sp_process sp"
  by (auto simp: set_namespaces_def spec_namespaces_def option.map_comp comp_def)

lemma spec_namespaces_with_process [stage_simps]: "spec_namespaces (with_process f sp) = spec_namespaces sp"
  by (simp add: spec_namespaces_def)

lemma spec_namespaces_with_linux:
  "(\<And>l. ol_namespaces (f l) = ol_namespaces l) \<Longrightarrow> spec_namespaces (with_linux f sp) = spec_namespaces sp"
  by (simp add: spec_namespaces_def option.map_comp comp_def)

lemma apply_capabilities_ns [stage_simps]: "spec_namespaces (apply_capabilities lib a d sp) = spec_namespaces sp"
  by (simp add: apply_capabilities_def Let_def stage_simps split: option.splits)

lemma apply_privileged_ns [stage_simps]: "spec_namespaces (apply_privileged lib sp) = spec_namespaces sp"
  unfolding apply_privileged_def Let_def
  by (subst spec_namespaces_with_linux) (auto simp: stage_simps split: sum.splits option.splits)

lemma apply_resources_ns [stage_simps]: "spec_namespaces (apply_resources lib r sp) = spec_namespaces sp"
  by (simp add: apply_resources_def spec_namespaces_with_linux Let_def)

lemma apply_sysctls_ns [stage_simps]: "spec_namespaces (apply_sysctls s sp) = spec_namespaces sp"
  by (simp add: apply_sysctls_def spec_namespaces_with_linux)

lemma apply_devices_ns: "apply_devices lib ds sp = Inr sp' \<Longrightarrow> spec_namespaces sp' = spec_namespaces sp"
  by (auto simp: apply_devices_def spec_namespaces_def Let_def split: if_splits option.splits)

lemma apply_security_ns:
  "apply_security lib rt req sp w = (Inr sp', w') \<Longrightarrow> spec_namespaces sp' = spec_namespaces sp"
  by (auto simp: apply_security_def security_paths_def Let_def prog_Inr spec_namespaces_def split: option.splits if_splits)

lemma add_bind_mounts_ns:
  "add_bind_mounts lib ms sp w = (Inr sp', w') \<Longrightarrow> spec_namespaces sp' = spec_namespaces sp"
  by (auto simp: add_bind_mounts_def Let_def prog_Inr split: option.splits if_splits)
    (auto simp: spec_namespaces_def option.map_comp comp_def)

lemma push_namespace_ok [simp]:
  "builders_ok lib \<Longrightarrow> push_namespace lib t p ns = ns @ [\<lparr>on_typ = t, on_path = p\<rparr>]"
  by (simp add: push_namespace_def builders_ok_def)

text \<open>The effect of the stages on the list of namespaces.\<close>

definition ns_net :: "string option \<Rightarrow> oci_namespace list \<Rightarrow> oci_namespace list" where
  "ns_net p ns = drop_namespace NsNetwork ns @
     (case p of None \<Rightarrow> [] | Some q \<Rightarrow> if q = ''host'' then [] else [\<lparr>on_typ = NsNetwork, on_path = Some q\<rparr>])"

definition ns_host :: "bool \<Rightarrow> bool \<Rightarrow> oci_namespace list \<Rightarrow> oci_namespace list" where
  "ns_host hp hi ns = filter (\<lambda>n. \<not> (hp \<and> on_typ n = NsPid) \<and> \<not> (hi \<and> on_typ n = NsIpc)) ns"

definition ns_user :: "bool \<Rightarrow> oci_namespace list \<Rightarrow> oci_namespace list" where
  "ns_user mapped ns =
     (if \<not> mapped \<or> list_ex (\<lambda>n. on_typ n = NsUser) ns then ns
      else ns @ [\<lparr>on_typ = NsUser, on_path = None\<rparr>])"

definition ns_join :: "ns_type \<Rightarrow> string option \<Rightarrow> oci_namespace list \<Rightarrow> oci_namespace list" where
  "ns_join t p ns =
     (case p of None \<Rightarrow> ns | Some q \<Rightarrow> drop_namespace t ns @ [\<lparr>on_typ = t, on_path = Some q\<rparr>])"

lemma apply_user_namespace_ns:
  assumes "apply_user_namespace lib us gs sp = Inr sp'" "builders_ok lib"
  shows "spec_namespaces sp' = map_option (ns_user (\<not> (us = [] \<and> gs = []))) (spec_namespaces sp)"
proof (cases "us = [] \<and> gs = []")
  case True
  then have "ns_user (\<not> (us = [] \<and> gs = [])) = (\<lambda>ns. ns)" by (simp add: ns_user_def fun_eq_iff)
  with True assms show ?thesis by (simp add: apply_user_namespace_def option.map_ident)
next
  case False
  show ?thesis
  proof (cases "sp_linux sp")
    case None
    with assms False show ?thesis by (auto simp: apply_user_namespace_def spec_namespaces_def split: if_splits)
  next
    case (Some l)
    have "spec_namespaces (with_linux (\<lambda>l. l\<lparr>ol_uid_mappings := a, ol_gid_mappings := b\<rparr>) sp) = spec_namespaces sp" for a b
      by (rule spec_namespaces_with_linux) simp
    with assms False Some show ?thesis
      by (auto simp: apply_user_namespace_def Let_def stage_simps ns_user_def
          simp del: with_linux_simps split: if_splits intro!: option.map_cong)
  qed
qed

text \<open>The stages of a generation that succeeded.\<close>

lemma generate_spec_stages:
  assumes "generate_spec lib rt img req rootfs w = (Inr sp, w')"
  obtains p r sp4 sp5 sp8 w1 where
    "build_process lib img req = Inr p"
    "apply_user_namespace lib (rq_userns_uid_mappings req) (rq_userns_gid_mappings req)
       (apply_host_namespaces (rq_host_pid req) (rq_host_ipc req)
         (set_network_namespace lib (rq_netns_path req)
           ((base_spec lib req)\<lparr>sp_process := Some p, sp_root := Some r, sp_hostname := rq_hostname req\<rparr>))) = Inr sp4"
    "add_bind_mounts lib (rq_mounts req)
       (join_namespace lib NsIpc (rq_ipc_ns_path req) (join_namespace lib NsPid (rq_pid_ns_path req) sp4)) w = (Inr sp5, w1)"
    "secured lib rt req (limited lib req sp5) w1 = (Inr sp8, w')"
    "sp = apply_sysctls (rq_sysctls req) sp8"
  using assms
  by (auto simp: generate_spec_def prog_Inr)

lemma limited_ns [stage_simps]: "spec_namespaces (limited lib req sp) = spec_namespaces sp"
  by (auto simp: limited_def stage_simps spec_namespaces_with_linux split: option.splits)

lemma secured_ns: "secured lib rt req sp w = (Inr sp', w') \<Longrightarrow> spec_namespaces sp' = spec_namespaces sp"
  by (auto simp: secured_def prog_Inr stage_simps split: if_splits
      dest!: apply_security_ns apply_devices_ns)

lemma set_network_ns:
  "builders_ok lib \<Longrightarrow> spec_namespaces (set_network_namespace lib p sp) = map_option (ns_net p) (spec_namespaces sp)"
  by (cases p) (auto simp: set_network_namespace_def stage_simps Let_def ns_net_def intro!: option.map_cong)

lemma apply_host_ns:
  "spec_namespaces (apply_host_namespaces hp hi sp) = map_option (ns_host hp hi) (spec_namespaces sp)"
proof -
  have "ns_host False False = (\<lambda>ns. ns)" by (simp add: ns_host_def fun_eq_iff)
  then show ?thesis
    by (cases hp; cases hi)
      (auto simp: apply_host_namespaces_def stage_simps drop_namespace_def Let_def option.map_ident ns_host_def
        intro!: option.map_cong filter_cong)
qed

lemma join_ns:
  "builders_ok lib \<Longrightarrow> spec_namespaces (join_namespace lib t p sp) = map_option (ns_join t p) (spec_namespaces sp)"
proof (cases p)
  case None
  then have "ns_join t p = (\<lambda>ns. ns)" by (simp add: ns_join_def fun_eq_iff)
  with None show ?thesis by (simp add: join_namespace_def option.map_ident)
qed (auto simp: join_namespace_def stage_simps ns_join_def intro!: option.map_cong)

definition of_type :: "ns_type \<Rightarrow> oci_namespace list \<Rightarrow> oci_namespace list" where
  "of_type t ns = filter (\<lambda>n. on_typ n = t) ns"

lemma of_type_simps [simp]:
  "of_type t [] = []" "of_type t (xs @ ys) = of_type t xs @ of_type t ys"
  "of_type t (n # ns) = (if on_typ n = t then [n] else []) @ of_type t ns"
  "of_type t (drop_namespace u ns) = (if t = u then [] else of_type t ns)"
  by (auto simp: of_type_def drop_namespace_def filter_empty_conv intro: filter_cong)

lemma of_type_filter: "of_type t (filter P ns) = filter P (of_type t ns)"
  by (simp add: of_type_def conj_commute)

lemma of_type_stages:
  "of_type t (ns_net p ns) = (if t = NsNetwork
     then (case p of None \<Rightarrow> [] | Some q \<Rightarrow> if q = ''host'' then [] else [\<lparr>on_typ = NsNetwork, on_path = Some q\<rparr>])
     else of_type t ns)"
  "of_type t (ns_host hp hi ns) = (if hp \<and> t = NsPid \<or> hi \<and> t = NsIpc then [] else of_type t ns)"
  "of_type t (ns_user m ns) = (if t = NsUser \<and> m \<and> of_type NsUser ns = []
     then [\<lparr>on_typ = NsUser, on_path = None\<rparr>] else of_type t ns)"
  "of_type t (ns_join u p ns) = (case p of None \<Rightarrow> of_type t ns
     | Some q \<Rightarrow> if t = u then [\<lparr>on_typ = u, on_path = Some q\<rparr>] else of_type t ns)"
     apply (simp add: ns_net_def split: option.splits)
    apply (force simp: ns_host_def of_type_def filter_empty_conv intro!: filter_cong)
   apply (force simp: ns_user_def list_ex_iff of_type_def filter_empty_conv)
  apply (simp add: ns_join_def split: option.splits)
  done

lemma generate_spec_ns:
  assumes ok: "builders_ok lib" and run: "generate_spec lib rt img req rootfs w = (Inr sp, w')"
  shows "spec_namespaces sp = map_option (\<lambda>ns.
    ns_join NsIpc (rq_ipc_ns_path req) (ns_join NsPid (rq_pid_ns_path req)
      (ns_user (\<not> (rq_userns_uid_mappings req = [] \<and> rq_userns_gid_mappings req = []))
        (ns_host (rq_host_pid req) (rq_host_ipc req) (ns_net (rq_netns_path req) ns)))))
    (spec_namespaces (base_spec lib req))"
proof -
  from run obtain p r sp4 sp5 sp8 w1 where st:
    "apply_user_namespace lib (rq_userns_uid_mappings req) (rq_userns_gid_mappings req)
       (apply_host_namespaces (rq_host_pid req) (rq_host_ipc req)
         (set_network_namespace lib (rq_netns_path req)
           ((base_spec lib req)\<lparr>sp_process := Some p, sp_root := Some r, sp_hostname := rq_hostname req\<rparr>))) = Inr sp4"
    "add_bind_mounts lib (rq_mounts req)
       (join_namespace lib NsIpc (rq_ipc_ns_path req) (join_namespace lib NsPid (rq_pid_ns_path req) sp4)) w = (Inr sp5, w1)"
    "secured lib rt req (limited lib req sp5) w1 = (Inr sp8, w')"
    "sp = apply_sysctls (rq_sysctls req) sp8"
    by (rule generate_spec_stages)
  have base: "spec_namespaces (s\<lparr>sp_process := a, sp_root := b, sp_hostname := c\<rparr>) = spec_namespaces s" for s :: "'a oci_spec" and a b c
    by (simp add: spec_namespaces_def)
  show ?thesis
    using st(4) secured_ns [OF st(3)] add_bind_mounts_ns [OF st(2)] apply_user_namespace_ns [OF st(1) ok]
    by (simp add: stage_simps join_ns [OF ok] set_network_ns [OF ok] apply_host_ns base option.map_comp comp_def)
qed

subsection \<open>Capabilities, security and success\<close>

lemma build_caps_ok:
  "builders_ok lib \<Longrightarrow> build_caps lib c a = Some \<lparr>oc_bounding = Some c, oc_effective = Some c,
     oc_permitted = Some c, oc_inheritable = Some c, oc_ambient = Some a\<rparr>"
  by (simp add: build_caps_def builders_ok_def)

lemma build_process_ok:
  "builders_ok lib \<Longrightarrow> \<exists>p. build_process lib img req = Inr p \<and>
     op_capabilities p = build_caps lib default_capabilities {} \<and> op_no_new_privileges p = Some (rq_no_new_privileges req)"
  by (auto simp: build_process_def builders_ok_def Let_def split: prod.splits)

lemma set_namespaces_process [stage_simps]:
  "sp_process (set_network_namespace lib p sp) = sp_process sp"
  "sp_process (apply_host_namespaces hp hi sp) = sp_process sp"
  "sp_process (join_namespace lib t q sp) = sp_process sp"
  "sp_process (apply_resources lib r sp) = sp_process sp"
  "sp_process (apply_sysctls s sp) = sp_process sp"
  by (auto simp: set_network_namespace_def apply_host_namespaces_def join_namespace_def apply_resources_def
      apply_sysctls_def stage_simps split: option.splits)

lemma apply_user_namespace_process:
  "apply_user_namespace lib us gs sp = Inr sp' \<Longrightarrow> sp_process sp' = sp_process sp"
  by (auto simp: apply_user_namespace_def Let_def stage_simps split: if_splits option.splits)

lemma add_bind_mounts_process:
  "add_bind_mounts lib ms sp w = (Inr sp', w') \<Longrightarrow> sp_process sp' = sp_process sp"
  by (auto simp: add_bind_mounts_def Let_def prog_Inr split: option.splits if_splits)

lemma limited_process [stage_simps]: "sp_process (limited lib req sp) = sp_process sp"
  by (auto simp: limited_def stage_simps split: option.splits)

lemma apply_devices_process: "apply_devices lib ds sp = Inr sp' \<Longrightarrow> sp_process sp' = sp_process sp"
  by (auto simp: apply_devices_def Let_def split: if_splits option.splits)

text \<open>The process of the final specification before the security stage.\<close>

lemma no_linux_iff: "spec_namespaces sp = None \<longleftrightarrow> sp_linux sp = None"
  by (simp add: spec_namespaces_def)

lemma generate_spec_secured:
  assumes ok: "builders_ok lib" and run: "generate_spec lib rt img req rootfs w = (Inr sp, w')"
  obtains p sp6 sp8 w1 where "build_process lib img req = Inr p" "sp_process sp6 = Some p"
    "secured lib rt req sp6 w1 = (Inr sp8, w')" "sp = apply_sysctls (rq_sysctls req) sp8"
    "sp_linux sp6 = None \<longleftrightarrow> sp_linux (base_spec lib req) = None"
proof -
  from run obtain p r sp4 sp5 sp8 w1 where st: "build_process lib img req = Inr p"
    "apply_user_namespace lib (rq_userns_uid_mappings req) (rq_userns_gid_mappings req)
       (apply_host_namespaces (rq_host_pid req) (rq_host_ipc req)
         (set_network_namespace lib (rq_netns_path req)
           ((base_spec lib req)\<lparr>sp_process := Some p, sp_root := Some r, sp_hostname := rq_hostname req\<rparr>))) = Inr sp4"
    "add_bind_mounts lib (rq_mounts req)
       (join_namespace lib NsIpc (rq_ipc_ns_path req) (join_namespace lib NsPid (rq_pid_ns_path req) sp4)) w = (Inr sp5, w1)"
    "secured lib rt req (limited lib req sp5) w1 = (Inr sp8, w')" "sp = apply_sysctls (rq_sysctls req) sp8"
    by (rule generate_spec_stages)
  have "sp_process (limited lib req sp5) = Some p"
    using apply_user_namespace_process [OF st(2)] add_bind_mounts_process [OF st(3)] by (simp add: stage_simps)
  moreover have "sp_linux (limited lib req sp5) = None \<longleftrightarrow> sp_linux (base_spec lib req) = None"
  proof -
    have "spec_namespaces (limited lib req sp5) = None \<longleftrightarrow> sp_linux sp4 = None"
      using add_bind_mounts_ns [OF st(3)] by (simp add: stage_simps join_ns [OF ok] no_linux_iff)
    moreover have "sp_linux sp4 = None \<longleftrightarrow> sp_linux (base_spec lib req) = None"
      using apply_user_namespace_ns [OF st(2) ok]
      by (simp add: set_network_ns [OF ok] apply_host_ns flip: no_linux_iff) (simp add: no_linux_iff)
    ultimately show ?thesis by (simp add: no_linux_iff)
  qed
  ultimately show thesis using st(1,4,5) by (intro that)
qed

lemma apply_security_process:
  assumes "apply_security lib rt req sp w = (Inr sp', w')"
  shows "map_option op_capabilities (sp_process sp') = map_option op_capabilities (sp_process sp)"
proof -
  have "op_capabilities (security_process req p) = op_capabilities p" for p
    by (simp add: security_process_def Let_def split: option.splits)
  moreover have "sp_process sp' = sp_process (with_process (security_process req) sp)"
    using assms by (auto simp: apply_security_def Let_def prog_Inr split: option.splits)
  ultimately show ?thesis by (simp add: option.map_comp comp_def)
qed

definition dropped :: "'sec bundle_lib \<Rightarrow> string list \<Rightarrow> capability \<Rightarrow> bool" where
  "dropped lib names c \<longleftrightarrow> list_ex (\<lambda>n. cap_key n = ''ALL'' \<or> parse_cap lib n = Some c) names"

definition added :: "'sec bundle_lib \<Rightarrow> string list \<Rightarrow> capability \<Rightarrow> bool" where
  "added lib names c \<longleftrightarrow>
     list_ex (\<lambda>n. cap_key n = ''ALL'' \<and> c \<in> all_capabilities \<or> parse_cap lib n = Some c) names"

lemma fold_drop_cap: "c \<in> fold (drop_cap lib) ns s \<longleftrightarrow> c \<in> s \<and> \<not> dropped lib ns c"
  by (induction ns arbitrary: s) (auto simp: drop_cap_def dropped_def split: option.splits)

lemma fold_add_cap: "c \<in> fold (add_cap lib) ns s \<longleftrightarrow> c \<in> s \<or> added lib ns c"
  by (induction ns arbitrary: s) (auto simp: add_cap_def added_def parse_cap_def Let_def split: option.splits)

definition final_caps :: "'sec bundle_lib \<Rightarrow> container_request \<Rightarrow> capability set" where
  "final_caps lib req =
     (if rq_privileged req then all_capabilities
      else {c. added lib (rq_add_capabilities req) c \<or>
               c \<in> default_capabilities \<and> \<not> dropped lib (rq_drop_capabilities req) c})"

lemma secured_caps:
  assumes ok: "builders_ok lib" and p: "sp_process sp = Some p"
    and caps: "op_capabilities p = build_caps lib default_capabilities {}"
    and run: "secured lib rt req sp w = (Inr sp', w')"
  shows "spec_bounding sp' = Some (final_caps lib req)"
proof (cases "rq_privileged req")
  case True
  with run p ok show ?thesis
    by (auto simp: secured_def prog_Inr apply_privileged_def build_caps_ok spec_bounding_def final_caps_def Let_def)
next
  case False
  let ?a = "rq_add_capabilities req" and ?d = "rq_drop_capabilities req"
  from run False obtain sp1 where s: "apply_security lib rt req (apply_capabilities lib ?a ?d sp) w = (Inr sp1, w')"
    and d: "apply_devices lib (rq_devices req) sp1 = Inr sp'" by (auto simp: secured_def prog_Inr)
  have "spec_bounding sp' = spec_bounding sp1"
    using apply_devices_process [OF d] by (simp add: spec_bounding_def)
  also have "\<dots> = spec_bounding (apply_capabilities lib ?a ?d sp)"
    using apply_security_process [OF s]
    by (cases "sp_process sp1"; cases "sp_process (apply_capabilities lib ?a ?d sp)") (auto simp: spec_bounding_def)
  also have "\<dots> = Some (final_caps lib req)"
  proof -
    have fc: "fold (add_cap lib) ?a (fold (drop_cap lib) ?d default_capabilities) = final_caps lib req"
      using False by (auto simp: final_caps_def fold_add_cap fold_drop_cap)
    have sb: "spec_bounding sp = Some default_capabilities"
      using p caps ok by (simp add: spec_bounding_def build_caps_ok)
    show ?thesis
    proof (cases "?a = [] \<and> ?d = []")
      case True
      with fc sb show ?thesis by (simp add: apply_capabilities_def)
    next
      case False
      then have "apply_capabilities lib ?a ?d sp =
          with_process (\<lambda>p. p\<lparr>op_capabilities := build_caps lib (final_caps lib req) (final_caps lib req)\<rparr>) sp"
        using ok by (simp add: apply_capabilities_def Let_def sb fc build_caps_ok del: de_Morgan_conj)
      with p ok show ?thesis by (simp add: spec_bounding_def build_caps_ok)
    qed
  qed
  finally show ?thesis .
qed

lemma load_seccomp_some:
  "load_seccomp lib rt prof eff w = (Inr s, w') \<Longrightarrow> (s = None) = (prof = Unconfined)"
  by (cases prof) (auto simp: load_seccomp_def prog_Inr)

lemma apply_security_seccomp:
  assumes "apply_security lib rt req sp w = (Inr sp', w')" "sp_linux sp \<noteq> None" "rq_seccomp req \<noteq> Unconfined"
  shows "\<exists>l. sp_linux sp' = Some l \<and> ol_seccomp l \<noteq> None"
proof -
  from assms(2) obtain l where l: "sp_linux sp = Some l" by blast
  with assms(1) obtain s where
    s: "load_seccomp lib rt (rq_seccomp req) (effective_capabilities lib (with_process (security_process req) sp)) w = (Inr s, w')"
    and sp': "sp' = (with_process (security_process req) sp)\<lparr>sp_linux := Some (case s of
                       None \<Rightarrow> security_paths req l | Some prof \<Rightarrow> (security_paths req l)\<lparr>ol_seccomp := Some prof\<rparr>)\<rparr>"
    by (auto simp: apply_security_def Let_def prog_Inr)
  from load_seccomp_some [OF s] assms(3) have "s \<noteq> None" by simp
  with sp' show ?thesis by auto
qed

lemma apply_devices_Inr:
  assumes "apply_devices lib ds sp = Inr sp'" "sp_linux sp = Some l"
  shows "\<exists>l' es. sp_linux sp' = Some l' \<and> ol_seccomp l' = ol_seccomp l \<and>
     map (device_entry lib) ds = map Inr es \<and>
     (ds \<noteq> [] \<longrightarrow> (\<exists>r. ol_resources l' = Some r \<and>
        ors_devices r = Some (unwrap_or [] (ors_devices (unwrap_or (lib_resources_default lib) (ol_resources l))) @ map snd es)))"
  using assms by (auto simp: apply_devices_def Let_def collect_results_Inr split: if_splits)

lemma device_entry_rule:
  assumes "builders_ok lib" "device_entry lib d = Inr (node, rule)"
  shows "dr_allow rule \<and> dr_access rule = sanitize_device_access (dq_permissions d) \<and>
    (\<exists>dev. stat_device lib (dq_host_path d) = Inr dev \<and> dr_major rule = Some (sd_major dev) \<and>
       dr_minor rule = Some (sd_minor dev) \<and> dr_typ rule = Some (sd_typ dev))"
  using assms by (auto simp: device_entry_def Let_def builders_ok_def)

lemma sanitize_access:
  "sanitize_device_access s \<noteq> [] \<and> set (sanitize_device_access s) \<subseteq> set ''rwm''"
  by (auto simp: sanitize_device_access_def Let_def)

lemma apply_sysctls_keeps:
  "sp_linux sp = Some l \<Longrightarrow> \<exists>l'. sp_linux (apply_sysctls s sp) = Some l' \<and> ol_seccomp l' = ol_seccomp l \<and>
     ol_resources l' = ol_resources l \<and> ol_cgroups_path l' = ol_cgroups_path l"
  by (simp add: apply_sysctls_def)

lemma apply_capabilities_linux [stage_simps]: "sp_linux (apply_capabilities lib a d sp) = sp_linux sp"
  by (simp add: apply_capabilities_def Let_def split: option.splits)

subsection \<open>Merging the environment\<close>

definition env_key :: "string \<Rightarrow> string \<Rightarrow> bool" where
  "env_key k e \<longleftrightarrow> starts_with e (k @ ''='')"

lemma set_env_keys:
  "filter (env_key k) (set_env (k, v) out) = [k @ ''='' @ v]"
  "filter (\<lambda>e. \<not> env_key k e) (set_env (k, v) out) = filter (\<lambda>e. \<not> env_key k e) out"
  by (auto simp: set_env_def env_key_def filter_empty_conv starts_with_iff)

lemma env_key_other:
  assumes "k \<noteq> k'" "CHR ''='' \<notin> set k" "CHR ''='' \<notin> set k'"
  shows "\<not> (env_key k e \<and> env_key k' e)"
proof
  assume "env_key k e \<and> env_key k' e"
  then obtain t t' where e: "e = k @ CHR ''='' # t" and e': "e = k' @ CHR ''='' # t'"
    unfolding env_key_def starts_with_iff by force
  have "split_once (CHR ''='') e = Some (k, t)" unfolding e using assms by simp
  moreover have "split_once (CHR ''='') e = Some (k', t')" unfolding e' using assms by simp
  ultimately show False using assms(1) by simp
qed

lemma set_env_other:
  assumes "k \<noteq> k'" "CHR ''='' \<notin> set k" "CHR ''='' \<notin> set k'"
  shows "filter (env_key k') (set_env (k, v) out) = filter (env_key k') out"
proof -
  have "env_key k' e \<Longrightarrow> \<not> env_key k e" for e using env_key_other [OF assms] by blast
  moreover have "\<not> env_key k' (k @ ''='' @ v)"
    using env_key_other [OF assms, of "k @ ''='' @ v"] by (auto simp: env_key_def starts_with_iff)
  ultimately show ?thesis
    by (auto simp: set_env_def intro!: filter_cong) (simp add: env_key_def)+
qed

lemma merge_env_key:
  assumes "list_all (\<lambda>(k, _). CHR ''='' \<notin> set k) envs" "CHR ''='' \<notin> set k"
  shows "filter (env_key k) (fold set_env envs out) =
    (case map_of (rev envs) k of None \<Rightarrow> filter (env_key k) out | Some v \<Rightarrow> [k @ ''='' @ v])"
  using assms(1)
proof (induction envs arbitrary: out)
  case (Cons kv envs)
  obtain k1 v1 where kv: "kv = (k1, v1)" by (cases kv)
  have "filter (env_key k) (set_env kv out) = (if k1 = k then [k @ ''='' @ v1] else filter (env_key k) out)"
    using set_env_keys set_env_other Cons.prems assms(2) kv by auto
  with Cons kv show ?case by (auto simp: map_add_def split: option.splits)
qed simp

end
