(* ===== verification/Bundle_Properties.thy ===== *)
theory Bundle_Properties
  imports Oci_Bundle
begin

section \<open>Properties of the generated specification\<close>

text \<open>
  What \<open>generate_spec\<close> promises about namespaces, capabilities, seccomp and devices, when it
  succeeds, and how the environment is merged. The closed examples use \<open>sample_lib\<close>: builders
  that always succeed, a base specification with the five default namespaces and two device
  nodes.
\<close>

definition sample_linux :: "string oci_linux" where
  "sample_linux = \<lparr>ol_namespaces = Some (map (\<lambda>t. \<lparr>on_typ = t, on_path = None\<rparr>) [NsPid, NsIpc, NsNetwork, NsMount, NsUts]),
     ol_uid_mappings = None, ol_gid_mappings = None, ol_devices = None, ol_resources = None,
     ol_cgroups_path = None, ol_masked_paths = Some [''/proc/kcore''], ol_readonly_paths = None,
     ol_sysctl = None, ol_seccomp = None, ol_rootfs_propagation = None\<rparr>"

definition sample_spec :: "string oci_spec" where
  "sample_spec = \<lparr>sp_process = None, sp_root = None, sp_hostname = Some ''youki'', sp_mounts = None,
     sp_linux = Some sample_linux\<rparr>"

definition sample_lib :: "string bundle_lib" where
  "sample_lib = \<lparr>lib_default = sample_spec, lib_rootless = (\<lambda>u g. sample_spec),
     lib_user = Inr, lib_process = Inr, lib_root = Inr, lib_caps = Inr, lib_namespace = Inr, lib_mount = Inr,
     lib_id_mapping = Inr, lib_device = Inr, lib_dev_rule = Inr, lib_cpu = Inr, lib_memory = Inr,
     lib_hugepage = Inr, lib_resources = Inr,
     lib_resources_default = \<lparr>ors_devices = None, ors_cpu = None, ors_memory_limit = None,
        ors_hugepage_limits = None, ors_unified = None\<rparr>,
     lib_cap_parse = (\<lambda>s. if s = ''NET_ADMIN'' then Some CapNetAdmin else if s = ''CHOWN'' then Some CapChown else None),
     lib_cap_string = (\<lambda>c. if c = CapNetAdmin then Some ''CAP_NET_ADMIN'' else None),
     lib_seccomp_parse = (\<lambda>bs. if bs = [] then Inl ''EOF'' else Inr ''profile''),
     lib_stat = (\<lambda>p. if p = ''/dev/null'' then Inr (0x2190, 0x103) else Inl ''No such file or directory''),
     lib_file_type = (\<lambda>m. CharacterDevice), lib_major = (\<lambda>r. 1), lib_minor = (\<lambda>r. 3),
     lib_io_text = (\<lambda>e. ''io error'')\<rparr>"

definition sample_request :: container_request where
  "sample_request = \<lparr>rq_command = [], rq_args = [], rq_envs = [], rq_working_dir = None, rq_hostname = Some ''pod'',
     rq_terminal = False, rq_readonly_rootfs = False, rq_rootless_host_ids = None,
     rq_netns_path = Some ''/run/netns/a'', rq_pid_ns_path = None, rq_ipc_ns_path = None, rq_mounts = [],
     rq_privileged = False, rq_run_as_user = None, rq_run_as_group = None, rq_supplemental_groups = [],
     rq_sysctls = [], rq_resources = \<lparr>rs_cpu_shares = None, rs_cpu_quota = None, rs_cpu_period = None,
       rs_memory_limit = None, rs_cpuset_cpus = None, rs_cpuset_mems = None, rs_hugepage_limits = [], rs_unified = []\<rparr>,
     rq_cgroup_path = None, rq_add_capabilities = [], rq_drop_capabilities = [], rq_no_new_privileges = True,
     rq_apparmor_profile = None, rq_selinux_label = None, rq_masked_paths = [], rq_readonly_paths = [],
     rq_seccomp = Unconfined, rq_host_pid = False, rq_host_ipc = False, rq_userns_uid_mappings = [],
     rq_userns_gid_mappings = [], rq_devices = []\<rparr>"

definition sample_image_config :: image_config where
  "sample_image_config = \<lparr>ic_env = [''PATH=/bin'', ''A=1''], ic_entrypoint = [''/init''], ic_cmd = [''-v''],
     ic_working_dir = None, ic_user = Some ''1000:1000''\<rparr>"

definition sample_rt :: "string set \<Rightarrow> string + string" where
  "sample_rt caps = Inr ''default''"

lemma sample_lib_ok: "builders_ok sample_lib"
  by (simp add: builders_ok_def sample_lib_def)

subsection \<open>When generation succeeds\<close>

lemma ensure_source_ok: "\<exists>w'. ensure_source m w = (Inr (), w')"
  by (simp add: ensure_source_def Let_def prog_simps path_exists_def)

lemma piter_ensure_ok: "\<exists>w'. piter ensure_source ms w = (Inr (), w')"
proof (induction ms arbitrary: w)
  case (Cons m ms)
  obtain w1 where "ensure_source m w = (Inr (), w1)" using ensure_source_ok by blast
  with Cons [of w1] show ?case by (simp add: prog_simps)
qed (simp add: prog_simps)

lemma add_bind_mounts_ok: "\<exists>sp' w'. add_bind_mounts lib ms sp w = (Inr sp', w')"
  using piter_ensure_ok [of ms w] by (auto simp: add_bind_mounts_def Let_def prog_simps)

lemma apply_user_namespace_ok: "builders_ok lib \<Longrightarrow> \<exists>sp'. apply_user_namespace lib us gs sp = Inr sp'"
  by (auto simp: apply_user_namespace_def builders_ok_def Let_def collect_results_Inr split: option.splits)

lemma apply_devices_ok:
  assumes "builders_ok lib" "list_all (\<lambda>d. \<exists>dev. stat_device lib (dq_host_path d) = Inr dev) ds"
  shows "\<exists>sp'. apply_devices lib ds sp = Inr sp'"
proof -
  have "\<exists>es. map (device_entry lib) ds = map Inr es"
    using assms(2)
  proof (induction ds)
    case (Cons d ds)
    then obtain es dev where "map (device_entry lib) ds = map Inr es" "stat_device lib (dq_host_path d) = Inr dev"
      by auto
    moreover from this(2) assms(1) obtain e where "device_entry lib d = Inr e"
      by (auto simp: device_entry_def builders_ok_def Let_def)
    ultimately have "map (device_entry lib) (d # ds) = map Inr (e # es)" by simp
    then show ?case by blast
  qed simp
  then show ?thesis
    by (auto simp: apply_devices_def Let_def collect_results_Inr [THEN iffD2] split: option.splits)
qed

definition seccomp_loads :: "(string set \<Rightarrow> string + 'sec) \<Rightarrow> container_request \<Rightarrow> bool" where
  "seccomp_loads rt req \<longleftrightarrow>
     (case rq_seccomp req of
        Unconfined \<Rightarrow> True
      | RuntimeDefault \<Rightarrow> (\<forall>caps. \<exists>s. rt caps = Inr s)
      | Localhost _ \<Rightarrow> False)"

lemma apply_security_loads:
  assumes "seccomp_loads rt req"
  shows "\<exists>sp'. apply_security lib rt req sp w = (Inr sp', w)"
proof -
  have "\<exists>s. load_seccomp lib rt (rq_seccomp req) eff w = (Inr s, w)" for eff
  proof (cases "rq_seccomp req")
    case RuntimeDefault
    with assms obtain s where "rt eff = Inr s" by (auto simp: seccomp_loads_def)
    with RuntimeDefault show ?thesis by (simp add: load_seccomp_def prog_simps)
  qed (use assms in \<open>auto simp: load_seccomp_def prog_simps seccomp_loads_def\<close>)
  then obtain s where "load_seccomp lib rt (rq_seccomp req)
      (effective_capabilities lib (with_process (security_process req) sp)) w = (Inr s, w)" by blast
  then show ?thesis by (simp add: apply_security_def Let_def prog_simps split: option.splits)
qed

lemma generate_spec_ok:
  assumes ok: "builders_ok lib"
    and able: "rq_privileged req \<or> seccomp_loads rt req \<and>
      list_all (\<lambda>d. \<exists>dev. stat_device lib (dq_host_path d) = Inr dev) (rq_devices req)"
  shows "\<exists>sp w'. generate_spec lib rt img req rootfs w = (Inr sp, w')"
proof -
  obtain p where p: "build_process lib img req = Inr p" using build_process_ok [OF ok] by blast
  have r: "lib_root lib = Inr" using ok by (simp add: builders_ok_def)
  obtain sp4 where sp4: "apply_user_namespace lib (rq_userns_uid_mappings req) (rq_userns_gid_mappings req)
       (apply_host_namespaces (rq_host_pid req) (rq_host_ipc req)
         (set_network_namespace lib (rq_netns_path req)
           ((base_spec lib req)\<lparr>sp_process := Some p, sp_root := Some \<lparr>or_path = rootfs, or_readonly = rq_readonly_rootfs req\<rparr>,
                                sp_hostname := rq_hostname req\<rparr>))) = Inr sp4"
    using apply_user_namespace_ok [OF ok] by blast
  obtain sp5 w1 where sp5: "add_bind_mounts lib (rq_mounts req)
       (join_namespace lib NsIpc (rq_ipc_ns_path req) (join_namespace lib NsPid (rq_pid_ns_path req) sp4)) w = (Inr sp5, w1)"
    using add_bind_mounts_ok by blast
  have "\<exists>sp8 w'. secured lib rt req s w1 = (Inr sp8, w')" for s
  proof (cases "rq_privileged req")
    case False
    with able have u: "seccomp_loads rt req"
      and d: "list_all (\<lambda>d. \<exists>dev. stat_device lib (dq_host_path d) = Inr dev) (rq_devices req)" by auto
    obtain s1 where "apply_security lib rt req
        (apply_capabilities lib (rq_add_capabilities req) (rq_drop_capabilities req) s) w1 = (Inr s1, w1)"
      using apply_security_loads [OF u] by blast
    moreover obtain s2 where "apply_devices lib (rq_devices req) s1 = Inr s2"
      using apply_devices_ok [OF ok d] by blast
    ultimately show ?thesis using False by (simp add: secured_def prog_simps)
  qed (simp add: secured_def prog_simps)
  then obtain sp8 w' where "secured lib rt req (limited lib req sp5) w1 = (Inr sp8, w')" by blast
  with p r sp4 sp5 show ?thesis by (simp add: generate_spec_def prog_simps)
qed

lemma generate_sample:
  assumes "seccomp_loads sample_rt req" "rq_devices req = []"
  obtains sp w' where "generate_spec sample_lib sample_rt img req rootfs w = (Inr sp, w')"
proof -
  have "\<exists>sp w'. generate_spec sample_lib sample_rt img req rootfs w = (Inr sp, w')"
    by (rule generate_spec_ok [OF sample_lib_ok]) (simp add: assms)
  then show thesis using that by blast
qed



subsection \<open>Properties\<close>

text \<open>C29. Namespaces of a generated specification. There is no network namespace for a pod on
  the host network and exactly one, at the pod's path, otherwise; a namespace of the pod's
  holder replaces the private one of its type; a shared host namespace is dropped; a pod with
  identity mappings has a user namespace.\<close>

theorem container_namespaces:
  assumes "builders_ok lib" "generate_spec lib rt img req rootfs w = (Inr sp, w')"
    and "spec_namespaces (base_spec lib req) = Some base"
  shows "\<exists>ns. spec_namespaces sp = Some ns \<and>
    of_type NsNetwork ns = (case rq_netns_path req of
        None \<Rightarrow> [] | Some p \<Rightarrow> if p = ''host'' then [] else [\<lparr>on_typ = NsNetwork, on_path = Some p\<rparr>]) \<and>
    of_type NsPid ns = (case rq_pid_ns_path req of
        Some p \<Rightarrow> [\<lparr>on_typ = NsPid, on_path = Some p\<rparr>]
      | None \<Rightarrow> if rq_host_pid req then [] else of_type NsPid base) \<and>
    of_type NsIpc ns = (case rq_ipc_ns_path req of
        Some p \<Rightarrow> [\<lparr>on_typ = NsIpc, on_path = Some p\<rparr>]
      | None \<Rightarrow> if rq_host_ipc req then [] else of_type NsIpc base) \<and>
    (of_type NsUser ns = []) = (of_type NsUser base = [] \<and> rq_userns_uid_mappings req = [] \<and> rq_userns_gid_mappings req = [])"
  using generate_spec_ns [OF assms(1,2)] assms(3)
  by (simp add: of_type_stages split: option.splits)

theorem container_namespaces_witness:
  "\<exists>sp w' ns. generate_spec sample_lib sample_rt sample_image_config
      (sample_request\<lparr>rq_pid_ns_path := Some ''/proc/7/ns/pid'', rq_host_ipc := True\<rparr>) ''/rootfs''
      \<lparr>os_fs = [], os_sched = [], os_pid = 1, os_seq = 0\<rparr> = (Inr sp, w') \<and> spec_namespaces sp = Some ns \<and>
    of_type NsNetwork ns = [\<lparr>on_typ = NsNetwork, on_path = Some ''/run/netns/a''\<rparr>] \<and>
    of_type NsPid ns = [\<lparr>on_typ = NsPid, on_path = Some ''/proc/7/ns/pid''\<rparr>] \<and> of_type NsIpc ns = []"
proof -
  let ?req = "sample_request\<lparr>rq_pid_ns_path := Some ''/proc/7/ns/pid'', rq_host_ipc := True\<rparr>"
  let ?w = "\<lparr>os_fs = [], os_sched = [], os_pid = 1, os_seq = 0\<rparr>"
  obtain sp w' where run: "generate_spec sample_lib sample_rt sample_image_config ?req ''/rootfs'' ?w = (Inr sp, w')"
    by (rule generate_sample [where req = ?req and img = sample_image_config and rootfs = "''/rootfs''" and w = ?w])
      (simp_all add: sample_request_def seccomp_loads_def sample_rt_def)
  have "spec_namespaces (base_spec sample_lib ?req) =
      Some (map (\<lambda>t. \<lparr>on_typ = t, on_path = None\<rparr>) [NsPid, NsIpc, NsNetwork, NsMount, NsUts])"
    by (simp add: spec_namespaces_def base_spec_def sample_lib_def sample_request_def sample_spec_def sample_linux_def)
  from run container_namespaces [OF sample_lib_ok run this] show ?thesis
    by (auto simp: sample_request_def)
qed





text \<open>Environment. For names without an equals sign, a variable of the request appears once,
  with the last value the request gives it, and a variable the request does not name keeps the
  image's entries in their order.\<close>

theorem merge_env_overrides:
  assumes "list_all (\<lambda>(k, _). CHR ''='' \<notin> set k) (rq_envs req)" "CHR ''='' \<notin> set k"
  shows "filter (env_key k) (merge_env img req) =
    (case map_of (rev (rq_envs req)) k of
       Some v \<Rightarrow> [k @ ''='' @ v]
     | None \<Rightarrow> filter (env_key k) (ic_env img))"
  using merge_env_key [OF assms] by (simp add: merge_env_def split: option.splits)

theorem merge_env_overrides_witness:
  "filter (env_key ''A'') (merge_env sample_image_config (sample_request\<lparr>rq_envs := [(''A'', ''2''), (''B'', ''3'')]\<rparr>))
     = [''A=2'']"
  using merge_env_overrides [of "sample_request\<lparr>rq_envs := [(''A'', ''2''), (''B'', ''3'')]\<rparr>" "''A''" sample_image_config]
  by simp

end
