(* ===== verification/Json.thy ===== *)
theory Json
  imports Rust_Prelude "HOL-Library.AList"
begin

section \<open>JSON values\<close>

text \<open>
  \<open>serde_json::Value\<close> as the source reads and edits it: \<open>get\<close> on an object, \<open>as_str\<close>,
  \<open>as_bool\<close>, \<open>as_array\<close>, \<open>insert\<close> into an object. An object is an association list with
  one entry per key; the numbers that occur are integers.
\<close>

datatype json =
    JNull
  | JBool bool
  | JNum int
  | JStr string
  | JArr "json list"
  | JObj "(string \<times> json) list"

definition j_get :: "string \<Rightarrow> json \<Rightarrow> json option" where
  "j_get k j = (case j of JObj kvs \<Rightarrow> map_of kvs k | _ \<Rightarrow> None)"

definition as_str :: "json \<Rightarrow> string option" where
  "as_str j = (case j of JStr s \<Rightarrow> Some s | _ \<Rightarrow> None)"

definition as_bool :: "json \<Rightarrow> bool option" where
  "as_bool j = (case j of JBool b \<Rightarrow> Some b | _ \<Rightarrow> None)"

definition as_array :: "json \<Rightarrow> json list option" where
  "as_array j = (case j of JArr xs \<Rightarrow> Some xs | _ \<Rightarrow> None)"

definition is_object :: "json \<Rightarrow> bool" where
  "is_object j = (case j of JObj _ \<Rightarrow> True | _ \<Rightarrow> False)"

text \<open>\<open>as_object_mut\<close> followed by \<open>insert\<close>: a value that is no object stays as it is.\<close>

definition j_insert :: "string \<Rightarrow> json \<Rightarrow> json \<Rightarrow> json" where
  "j_insert k v j = (case j of JObj kvs \<Rightarrow> JObj (AList.update k v kvs) | _ \<Rightarrow> j)"

definition get_str :: "string \<Rightarrow> json \<Rightarrow> string option" where
  "get_str k j = Option.bind (j_get k j) as_str"

lemma j_get_insert [simp]:
  "is_object j \<Longrightarrow> j_get k' (j_insert k v j) = (if k' = k then Some v else j_get k' j)"
  by (auto simp: j_get_def j_insert_def is_object_def update_conv' split: json.splits)

lemma is_object_insert [simp]: "is_object (j_insert k v j) = is_object j"
  by (auto simp: j_insert_def is_object_def split: json.splits)

lemma j_insert_other [simp]: "\<not> is_object j \<Longrightarrow> j_insert k v j = j"
  by (auto simp: j_insert_def is_object_def split: json.splits)

end
