(* ===== verification/Rust_Utf8.thy ===== *)
theory Rust_Utf8
  imports Core_Types
begin

section \<open>UTF-8\<close>

text \<open>
  \<open>String::from_utf8_lossy\<close> of the standard library: the bytes are cut into well-formed
  sequences and maximal ill-formed pieces, and each of the latter becomes U+FFFD. A \<open>String\<close>
  is the list of its bytes, so a sequence that is well formed stays as it is.
\<close>

definition in_range :: "nat \<Rightarrow> nat \<Rightarrow> nat \<Rightarrow> bool" where
  "in_range lo hi b \<longleftrightarrow> lo \<le> b \<and> b \<le> hi"

text \<open>The allowed second bytes after a leading byte.\<close>

definition second_ok :: "nat \<Rightarrow> nat \<Rightarrow> bool" where
  "second_ok b c =
     (if b = 224 then in_range 160 191 c
      else if b = 237 then in_range 128 159 c
      else if b = 240 then in_range 144 191 c
      else if b = 244 then in_range 128 143 c
      else in_range 128 191 c)"

text \<open>The number of bytes a leading byte asks for, \<open>0\<close> for a byte that cannot lead.\<close>

definition utf8_width :: "nat \<Rightarrow> nat" where
  "utf8_width b =
     (if b < 128 then 1 else if in_range 194 223 b then 2 else if in_range 224 239 b then 3
      else if in_range 240 244 b then 4 else 0)"

text \<open>Whether the first piece is well formed, and its length.\<close>

definition utf8_piece :: "nat list \<Rightarrow> bool \<times> nat" where
  "utf8_piece bs =
     (let w = utf8_width (hd bs); tail = take (w - 1) (tl bs);
          good = (case tail of [] \<Rightarrow> 0 | c # cs \<Rightarrow>
                    if second_ok (hd bs) c then 1 + length (takeWhile (in_range 128 191) cs) else 0)
      in if w = 0 then (False, 1) else (good = w - 1, 1 + good))"

lemma utf8_piece_pos: "0 < snd (utf8_piece bs)"
  by (simp add: utf8_piece_def Let_def)

lemma utf8_piece_shrinks: "bs \<noteq> [] \<Longrightarrow> (good, n) = utf8_piece bs \<Longrightarrow> length bs - n < length bs"
  by (metis diff_less length_greater_0_conv snd_conv utf8_piece_pos)

function utf8_lossy_nat :: "nat list \<Rightarrow> nat list" where
  "utf8_lossy_nat bs =
     (if bs = [] then []
      else (let (good, n) = utf8_piece bs in
            (if good then take n bs else [239, 191, 189]) @ utf8_lossy_nat (drop n bs)))"
  by auto
termination
  by (relation "measure length") (auto intro: utf8_piece_shrinks)

declare utf8_lossy_nat.simps [simp del]

function utf8_valid_nat :: "nat list \<Rightarrow> bool" where
  "utf8_valid_nat bs =
     (if bs = [] then True
      else (let (good, n) = utf8_piece bs in good \<and> utf8_valid_nat (drop n bs)))"
  by auto
termination
  by (relation "measure length") (auto intro: utf8_piece_shrinks)

declare utf8_valid_nat.simps [simp del]

definition byte_values :: "bytes \<Rightarrow> nat list" where
  "byte_values bs = map unat bs"

definition from_utf8_lossy :: "bytes \<Rightarrow> string" where
  "from_utf8_lossy bs = map char_of (utf8_lossy_nat (byte_values bs))"

text \<open>What every \<open>String\<close> of the program satisfies.\<close>

definition is_utf8 :: "string \<Rightarrow> bool" where
  "is_utf8 s \<longleftrightarrow> utf8_valid_nat (map of_char s)"

definition bytes_text :: "bytes \<Rightarrow> string" where
  "bytes_text bs = map (\<lambda>b. char_of (unat b)) bs"

definition from_utf8 :: "bytes \<Rightarrow> string option" where
  "from_utf8 bs = (if is_utf8 (bytes_text bs) then Some (bytes_text bs) else None)"

lemma utf8_lossy_valid: "utf8_valid_nat bs \<Longrightarrow> utf8_lossy_nat bs = bs"
proof (induction bs rule: utf8_valid_nat.induct)
  case (1 bs)
  then show ?case
    by (cases "utf8_piece bs") (auto simp: utf8_lossy_nat.simps [of bs] utf8_valid_nat.simps [of bs])
qed

lemma unat_of_char: "unat (of_char c :: 8 word) = of_char c"
proof -
  have "(of_char c :: 8 word) = of_nat (of_char c)" by (simp add: of_nat_of_char)
  then show ?thesis by (simp add: unat_of_nat take_bit_eq_mod)
qed

lemma byte_values_str: "byte_values (str_bytes s) = map of_char s"
  by (simp add: byte_values_def str_bytes_def unat_of_char)

lemma from_utf8_lossy_str [simp]: "is_utf8 s \<Longrightarrow> from_utf8_lossy (str_bytes s) = s"
  by (simp add: from_utf8_lossy_def byte_values_str is_utf8_def utf8_lossy_valid comp_def)

text \<open>ASCII text is valid.\<close>

lemma utf8_piece_ascii: "b < 128 \<Longrightarrow> utf8_piece (b # bs) = (True, 1)"
  by (simp add: utf8_piece_def utf8_width_def)

lemma ascii_is_utf8:
  assumes "list_all (\<lambda>c. (of_char c :: nat) < 128) s"
  shows "is_utf8 s"
  unfolding is_utf8_def using assms
proof (induction s)
  case (Cons c s)
  then show ?case
    by (subst utf8_valid_nat.simps) (simp add: utf8_piece_ascii)
qed (simp add: utf8_valid_nat.simps [of "[]"])

end
