(* ===== verification/Cni.thy ===== *)
theory Cni
  imports Json File_System Rust_Utf8 "HOL-Library.Char_ord" "HOL-Library.List_Lexorder"
begin

section \<open>Pod networking through CNI plugins\<close>

text \<open>
  \<open>crates/sandbox/src/cni.rs\<close>: the choice of a network configuration, the ADD chain of
  \<open>setup\<close>, the DEL chain of \<open>teardown\<close> and the network namespace's anchor file. A plugin
  is a program of the node: running one consumes the next outcome the environment holds
  (\<open>cw_outcomes\<close>) and is recorded in \<open>cw_calls\<close>, so that the order and the arguments of
  the calls can be stated. The calls that unshare, mount and unmount the namespace are steps
  that may fail and change no file. Decoding JSON is a parameter.
\<close>

datatype cni_error =
    CniIo io_error
  | CniJson string
  | NoConfList string
  | PluginFailed string string
  | NetnsFailed string
  | NoIp

record conf_list =
  cl_cni_version :: string
  cl_name :: string
  cl_plugins :: "json list"

record port_mapping =
  pm_host_port :: int
  pm_container_port :: int
  pm_protocol :: string
  pm_host_ip :: string

record cni =
  cn_conf_dir :: fpath
  cn_bin_dir :: fpath
  cn_netns_dir :: fpath

record plugin_call =
  pc_command :: string
  pc_container_id :: string
  pc_netns :: fpath
  pc_ifname :: string
  pc_program :: fpath
  pc_netconf :: json

datatype plugin_outcome = SpawnFails io_error | PluginExit int bytes bytes

record cni_os = os +
  cw_calls :: "plugin_call list"
  cw_outcomes :: "plugin_outcome list"

record cni_codec =
  cd_conflist :: "bytes \<Rightarrow> string + conf_list"
  cd_json :: "bytes \<Rightarrow> string + json"

subsection \<open>Configuration\<close>

definition conf_ext :: "string \<Rightarrow> string option" where
  "conf_ext n = extension [Normal n]"

definition is_conf_file :: "string \<Rightarrow> bool" where
  "is_conf_file n \<longleftrightarrow> conf_ext n = Some ''conflist'' \<or> conf_ext n = Some ''conf''"

definition wrap_plugin :: "json \<Rightarrow> conf_list" where
  "wrap_plugin plugin =
     \<lparr>cl_cni_version = unwrap_or ''1.0.0'' (get_str ''cniVersion'' plugin),
      cl_name = unwrap_or ''cni'' (get_str ''name'' plugin), cl_plugins = [plugin]\<rparr>"

definition conf_files :: "(fpath \<times> node) list \<Rightarrow> string list" where
  "conf_files es = sort (filter is_conf_file (map (last \<circ> fst) es))"

definition load_conflist :: "cni_codec \<Rightarrow> cni \<Rightarrow> ('z os_scheme, cni_error, conf_list) prog" where
  "load_conflist cdc c =
     pbind (with_err CniIo (read_dir (cn_conf_dir c))) (\<lambda>es.
       case conf_files es of
         [] \<Rightarrow> pfail (NoConfList (join_with ''/'' (cn_conf_dir c)))
       | n # _ \<Rightarrow>
           pbind (with_err CniIo (read_file (cn_conf_dir c @ [n]))) (\<lambda>bs.
             if conf_ext n = Some ''conflist'' then plift (map_err CniJson (cd_conflist cdc bs))
             else plift (rbind (map_err CniJson (cd_json cdc bs)) (\<lambda>p. Inr (wrap_plugin p)))))"

definition loopback_netconf :: "conf_list \<Rightarrow> json" where
  "loopback_netconf cl =
     JObj [(''cniVersion'', JStr (cl_cni_version cl)), (''name'', JStr (cl_name cl)), (''type'', JStr ''loopback'')]"

definition assemble_netconf :: "conf_list \<Rightarrow> json \<Rightarrow> json option \<Rightarrow> json" where
  "assemble_netconf cl plugin prev_result =
     (let n1 = j_insert ''name'' (JStr (cl_name cl)) (j_insert ''cniVersion'' (JStr (cl_cni_version cl)) plugin)
      in case prev_result of None \<Rightarrow> n1 | Some p \<Rightarrow> j_insert ''prevResult'' p n1)"

definition port_capable :: "json \<Rightarrow> bool" where
  "port_capable plugin =
     unwrap_or False (Option.bind (Option.bind (j_get ''capabilities'' plugin) (j_get ''portMappings'')) as_bool)"

definition port_json :: "port_mapping \<Rightarrow> json" where
  "port_json p =
     JObj [(''hostPort'', JNum (pm_host_port p)), (''containerPort'', JNum (pm_container_port p)),
           (''protocol'', JStr (pm_protocol p)), (''hostIP'', JStr (pm_host_ip p))]"

definition inject_port_mappings :: "json \<Rightarrow> port_mapping list \<Rightarrow> json \<Rightarrow> json" where
  "inject_port_mappings plugin pms netconf =
     (if \<not> port_capable plugin then netconf
      else let mappings = map port_json (filter (\<lambda>p. pm_host_port p > 0) pms) in
           if mappings = [] then netconf
           else if \<not> is_object netconf then netconf
           else let rc = unwrap_or (JObj []) (j_get ''runtimeConfig'' netconf) in
                j_insert ''runtimeConfig'' (j_insert ''portMappings'' (JArr mappings) rc) netconf)"

definition extract_ip :: "json \<Rightarrow> cni_error + string" where
  "extract_ip result =
     rbind (ok_or NoIp (Option.bind (j_get ''ips'' result) as_array)) (\<lambda>ips.
     rbind (ok_or NoIp (case ips of [] \<Rightarrow> None | ip # _ \<Rightarrow> get_str ''address'' ip)) (\<lambda>addr.
     Inr (hd (split_char (CHR ''/'') addr))))"

subsection \<open>Running plugins\<close>

definition plugin_type :: "json \<Rightarrow> string" where
  "plugin_type plugin = unwrap_or [] (get_str ''type'' plugin)"

definition exit_text :: "int \<Rightarrow> bytes \<Rightarrow> bytes \<Rightarrow> string" where
  "exit_text code out err =
     ''exit='' @ dec_int code @ '' stdout='' @ trim (from_utf8_lossy out) @ '' stderr='' @ trim (from_utf8_lossy err)"

definition run_plugin :: "plugin_call \<Rightarrow> ('z cni_os_scheme, cni_error, plugin_outcome) prog" where
  "run_plugin call w =
     (Inr (case cw_outcomes w of [] \<Rightarrow> SpawnFails NotFound | r # _ \<Rightarrow> r),
      w\<lparr>cw_calls := cw_calls w @ [call], cw_outcomes := tl (cw_outcomes w)\<rparr>)"

definition exec_plugin ::
  "cni_codec \<Rightarrow> cni \<Rightarrow> string \<Rightarrow> string \<Rightarrow> fpath \<Rightarrow> string \<Rightarrow> json \<Rightarrow> json
    \<Rightarrow> ('z cni_os_scheme, cni_error, json) prog" where
  "exec_plugin cdc c command container_id netns ifname plugin netconf =
     pbind (run_plugin \<lparr>pc_command = command, pc_container_id = container_id, pc_netns = netns,
                        pc_ifname = ifname, pc_program = cn_bin_dir c @ [plugin_type plugin],
                        pc_netconf = netconf\<rparr>) (\<lambda>out.
       case out of
         SpawnFails e \<Rightarrow> pfail (CniIo e)
       | PluginExit code sout serr \<Rightarrow>
           if code \<noteq> 0 then pfail (PluginFailed (plugin_type plugin) (exit_text code sout serr))
           else if sout = [] then pret JNull
           else plift (map_err CniJson (cd_json cdc sout)))"

definition netns_path :: "cni \<Rightarrow> string \<Rightarrow> fpath" where
  "netns_path c netns = cn_netns_dir c @ [netns]"

definition loopback_plugin :: json where
  "loopback_plugin = JObj [(''type'', JStr ''loopback'')]"

definition add_plugin ::
  "cni_codec \<Rightarrow> cni \<Rightarrow> conf_list \<Rightarrow> string \<Rightarrow> fpath \<Rightarrow> port_mapping list \<Rightarrow> json option \<Rightarrow> json
    \<Rightarrow> ('z cni_os_scheme, cni_error, json option) prog" where
  "add_plugin cdc c cl container_id np pms prev plugin =
     (let netconf = inject_port_mappings plugin pms (assemble_netconf cl plugin prev) in
      pbind (exec_plugin cdc c ''ADD'' container_id np ''eth0'' plugin netconf) (\<lambda>result. pret (Some result)))"

definition cni_setup ::
  "cni_codec \<Rightarrow> cni \<Rightarrow> string \<Rightarrow> string \<Rightarrow> port_mapping list \<Rightarrow> ('z cni_os_scheme, cni_error, string) prog" where
  "cni_setup cdc c container_id netns pms =
     pbind (load_conflist cdc c) (\<lambda>cl.
     let np = netns_path c netns in
     pseq (exec_plugin cdc c ''ADD'' container_id np ''lo'' loopback_plugin (loopback_netconf cl))
       (pbind (pfold (add_plugin cdc c cl container_id np pms) None (cl_plugins cl)) (\<lambda>prev.
          plift (rbind (ok_or NoIp prev) extract_ip))))"

text \<open>The thread that unshares its network namespace and binds it to the anchor: either call may fail.\<close>

definition create_netns_linux :: "fpath \<Rightarrow> ('z cni_os_scheme, cni_error, unit) prog" where
  "create_netns_linux anchor = pseq (with_err CniIo sync_handle) (with_err CniIo sync_handle)"

definition create_netns :: "cni \<Rightarrow> string \<Rightarrow> ('z cni_os_scheme, cni_error, fpath) prog" where
  "create_netns c netns =
     (let mount_path = netns_path c netns in
      pseq (with_err CniIo (create_dir_all (butlast mount_path)))
        (pbind (path_exists mount_path) (\<lambda>there.
           pseq (pwhen (\<not> there) (with_err CniIo (create_file mount_path)))
             (pseq (create_netns_linux mount_path) (pret mount_path)))))"

definition delete_netns :: "cni \<Rightarrow> string \<Rightarrow> ('z cni_os_scheme, cni_error, unit) prog" where
  "delete_netns c netns =
     (let mount_path = netns_path c netns in
      pbind (path_exists mount_path) (\<lambda>there.
        if \<not> there then pret ()
        else pseq (attempt sync_handle) (pseq (attempt (remove_file mount_path)) (pret ()))))"

definition del_plugin ::
  "cni_codec \<Rightarrow> cni \<Rightarrow> conf_list \<Rightarrow> string \<Rightarrow> fpath \<Rightarrow> json \<Rightarrow> ('z cni_os_scheme, cni_error, unit) prog" where
  "del_plugin cdc c cl container_id np plugin =
     pseq (attempt (exec_plugin cdc c ''DEL'' container_id np ''eth0'' plugin (assemble_netconf cl plugin None))) (pret ())"

definition cni_teardown :: "cni_codec \<Rightarrow> cni \<Rightarrow> string \<Rightarrow> string \<Rightarrow> ('z cni_os_scheme, cni_error, unit) prog" where
  "cni_teardown cdc c container_id netns =
     pbind (attempt (load_conflist cdc c)) (\<lambda>r.
       pseq (case r of
               Inl _ \<Rightarrow> pret ()
             | Inr cl \<Rightarrow>
                 let np = netns_path c netns in
                 pseq (piter (del_plugin cdc c cl container_id np) (rev (cl_plugins cl)))
                   (pseq (attempt (exec_plugin cdc c ''DEL'' container_id np ''lo'' loopback_plugin (loopback_netconf cl)))
                      (pret ())))
         (delete_netns c netns))"

subsection \<open>The trace of calls\<close>

definition plugin_run :: "cni \<Rightarrow> string \<Rightarrow> string \<Rightarrow> fpath \<Rightarrow> string \<Rightarrow> json \<Rightarrow> json \<Rightarrow> plugin_call" where
  "plugin_run c command cid np ifname plugin netconf =
     \<lparr>pc_command = command, pc_container_id = cid, pc_netns = np, pc_ifname = ifname,
      pc_program = cn_bin_dir c @ [plugin_type plugin], pc_netconf = netconf\<rparr>"

definition calls_kept :: "'z cni_os_scheme \<Rightarrow> 'z cni_os_scheme \<Rightarrow> bool" where
  "calls_kept w w' \<longleftrightarrow> cw_calls w' = cw_calls w \<and> cw_outcomes w' = cw_outcomes w"

interpretation ck: step_order calls_kept
  by unfold_locales (auto simp: calls_kept_def)

lemma calls_kept_upd [simp]:
  "cw_calls (tick w) = cw_calls w" "cw_calls (set_node p n w) = cw_calls w" "cw_calls (del_node p w) = cw_calls w"
  "cw_outcomes (tick w) = cw_outcomes w" "cw_outcomes (set_node p n w) = cw_outcomes w"
  "cw_outcomes (del_node p w) = cw_outcomes w"
  by (simp_all add: tick_def set_node_def del_node_def)

lemma calls_kept_syscalls:
  "steps calls_kept (read_dir p)" "steps calls_kept (read_file p)" "steps calls_kept (path_exists p)"
  "steps calls_kept sync_handle" "steps calls_kept (create_file p)" "steps calls_kept (remove_file p)"
  "steps calls_kept (ensure_dir p)"
  by (simp_all add: steps_def calls_kept_def syscall_def read_dir_def read_file_def path_exists_def sync_handle_def
      create_file_def remove_file_def ensure_dir_def split: option.splits node.splits)

lemma load_conflist_calls: "steps calls_kept (load_conflist cdc c)"
  unfolding load_conflist_def
  by (auto intro!: ck.steps_rules calls_kept_syscalls split: list.splits)

lemma delete_netns_calls: "steps calls_kept (delete_netns c n)"
  unfolding delete_netns_def Let_def by (auto intro!: ck.steps_rules calls_kept_syscalls)

lemma exec_plugin_calls:
  "exec_plugin cdc c cmd cid np ifn plugin nc w = (r, w') \<Longrightarrow>
     cw_calls w' = cw_calls w @ [plugin_run c cmd cid np ifn plugin nc]"
  by (auto simp: exec_plugin_def prog_eq run_plugin_def plugin_run_def split: plugin_outcome.splits if_splits)

text \<open>The calls an ADD chain makes when the plugins give \<open>results\<close>: each gets the result of
  the one before it.\<close>

fun add_calls :: "cni \<Rightarrow> conf_list \<Rightarrow> string \<Rightarrow> fpath \<Rightarrow> port_mapping list \<Rightarrow> json option \<Rightarrow> json list \<Rightarrow> json list \<Rightarrow> plugin_call list" where
  "add_calls c cl cid np pms prev (p # ps) (r # rs) =
     plugin_run c ''ADD'' cid np ''eth0'' p (inject_port_mappings p pms (assemble_netconf cl p prev))
       # add_calls c cl cid np pms (Some r) ps rs"
| "add_calls c cl cid np pms prev _ _ = []"

lemma add_chain:
  assumes "pfold (add_plugin cdc c cl cid np pms) prev ps w = (Inr out, w')"
  shows "\<exists>rs. length rs = length ps \<and> cw_calls w' = cw_calls w @ add_calls c cl cid np pms prev ps rs
    \<and> out = (if ps = [] then prev else Some (last rs))"
  using assms
proof (induction ps arbitrary: prev w)
  case (Cons p ps)
  from Cons.prems obtain r w1 where
    one: "exec_plugin cdc c ''ADD'' cid np ''eth0'' p (inject_port_mappings p pms (assemble_netconf cl p prev)) w = (Inr r, w1)"
    and rest: "pfold (add_plugin cdc c cl cid np pms) (Some r) ps w1 = (Inr out, w')"
    by (auto simp: prog_Inr add_plugin_def [of cdc c cl cid np pms prev p] Let_def)
  from Cons.IH [OF rest] obtain rs where
    rs: "length rs = length ps" "cw_calls w' = cw_calls w1 @ add_calls c cl cid np pms (Some r) ps rs"
      "out = (if ps = [] then Some r else Some (last rs))" by blast
  with exec_plugin_calls [OF one] show ?case
    by (intro exI [of _ "r # rs"]) (auto split: if_splits)
qed (auto simp: prog_Inr)

lemma del_chain:
  "\<exists>w'. piter (del_plugin cdc c cl cid np) ps w = (Inr (), w') \<and>
     cw_calls w' = cw_calls w @ map (\<lambda>p. plugin_run c ''DEL'' cid np ''eth0'' p (assemble_netconf cl p None)) ps"
proof (induction ps arbitrary: w)
  case (Cons p ps)
  obtain r w1 where one: "exec_plugin cdc c ''DEL'' cid np ''eth0'' p (assemble_netconf cl p None) w = (r, w1)"
    by fastforce
  from Cons [of w1] exec_plugin_calls [OF one] one show ?case
    by (auto simp: prog_simps del_plugin_def)
qed (simp add: prog_simps)

subsection \<open>Properties\<close>


definition sample_cni :: cni where
  "sample_cni = \<lparr>cn_conf_dir = [''cni''], cn_bin_dir = [''bin''], cn_netns_dir = [''ns'']\<rparr>"

definition sample_codec :: cni_codec where
  "sample_codec = \<lparr>cd_conflist = (\<lambda>bs. Inr \<lparr>cl_cni_version = ''1.0.0'', cl_name = ''n'',
       cl_plugins = [JObj [(''type'', JStr ''bridge'')]]\<rparr>),
     cd_json = (\<lambda>bs. Inr (JObj [(''ips'', JArr [JObj [(''address'', JStr ''10.0.0.5/24'')]])]))\<rparr>"

definition sample_cni_os :: cni_os where
  "sample_cni_os = \<lparr>os_fs = [([''cni''], Dir), ([''cni'', ''a.conflist''], File [2]), ([''cni'', ''README''], File [])],
     os_sched = [], os_pid = 1, os_seq = 0, cw_calls = [],
     cw_outcomes = [PluginExit 0 [] [], PluginExit 0 [1] []]\<rparr>"


text \<open>C31. Teardown never stops half way. Whatever the plugins answer, it returns without an
  error, having run the plugins of the configuration with DEL in reverse order and then the
  loopback plugin, when a configuration could be loaded, and no plugin otherwise.\<close>

theorem cni_teardown_complete:
  "\<exists>w'. cni_teardown cdc c cid netns w = (Inr (), w') \<and>
    cw_calls w' = cw_calls w @
      (case fst (load_conflist cdc c w) of
         Inl _ \<Rightarrow> []
       | Inr cl \<Rightarrow>
           map (\<lambda>p. plugin_run c ''DEL'' cid (netns_path c netns) ''eth0'' p (assemble_netconf cl p None)) (rev (cl_plugins cl))
           @ [plugin_run c ''DEL'' cid (netns_path c netns) ''lo'' loopback_plugin (loopback_netconf cl)])"
proof -
  let ?np = "netns_path c netns"
  obtain r w1 where l: "load_conflist cdc c w = (r, w1)" by fastforce
  have k1: "cw_calls w1 = cw_calls w" using stepsD [OF load_conflist_calls l] by (simp add: calls_kept_def)
  have del: "\<exists>w'. delete_netns c netns v = (Inr (), w') \<and> cw_calls w' = cw_calls v" for v
  proof -
    obtain x v' where d: "delete_netns c netns v = (x, v')" by fastforce
    moreover have "x = Inr ()" using d by (auto simp: delete_netns_def Let_def prog_eq path_exists_def split: if_splits)
    ultimately show ?thesis using stepsD [OF delete_netns_calls d] by (simp add: calls_kept_def)
  qed
  show ?thesis
  proof (cases r)
    case (Inl e)
    with del [of w1] l k1 show ?thesis by (auto simp: cni_teardown_def prog_simps)
  next
    case (Inr cl)
    obtain w2 where w2: "piter (del_plugin cdc c cl cid ?np) (rev (cl_plugins cl)) w1 = (Inr (), w2)"
      "cw_calls w2 = cw_calls w1 @ map (\<lambda>p. plugin_run c ''DEL'' cid ?np ''eth0'' p (assemble_netconf cl p None)) (rev (cl_plugins cl))"
      using del_chain by blast
    obtain x w3 where w3: "exec_plugin cdc c ''DEL'' cid ?np ''lo'' loopback_plugin (loopback_netconf cl) w2 = (x, w3)"
      by fastforce
    from del [of w3] l k1 Inr w2 w3 exec_plugin_calls [OF w3] show ?thesis
      by (auto simp: cni_teardown_def prog_simps Let_def)
  qed
qed

end
