(* ===== verification/Keyed_Locks.thy ===== *)
theory Keyed_Locks
  imports Rust_Effects
begin

section \<open>Per-key locks\<close>

text \<open>
  \<open>crates/cri/src/locks.rs\<close>. \<open>KeyedLocks::guard\<close> looks the key's mutex up in a map, making
  it when the key is new, and then waits for the mutex. The map's own lock makes the first part
  one step; \<open>tokio\<close>'s mutex is what its documentation says: the wait ends in a state where
  nobody holds it, and dropping the guard frees it. A call of \<open>guard\<close> is named by a number,
  and so is a mutex, in the order they are made.
\<close>

record lock_state =
  lk_map :: "string \<Rightarrow> nat option"
  lk_next :: nat
  lk_owner :: "nat \<Rightarrow> nat option"
  lk_wait :: "nat \<Rightarrow> (string \<times> nat) option"
  lk_hold :: "nat \<Rightarrow> (string \<times> nat) option"

definition lock_entry :: "string \<Rightarrow> lock_state \<Rightarrow> nat \<times> lock_state" where
  "lock_entry key s =
     (case lk_map s key of
        Some m \<Rightarrow> (m, s)
      | None \<Rightarrow> (lk_next s, s\<lparr>lk_map := (lk_map s)(key \<mapsto> lk_next s), lk_next := lk_next s + 1\<rparr>))"

definition guard_request :: "nat \<Rightarrow> string \<Rightarrow> lock_state \<Rightarrow> lock_state" where
  "guard_request t key s =
     (let (m, s') = lock_entry key s in s'\<lparr>lk_wait := (lk_wait s')(t \<mapsto> (key, m))\<rparr>)"

definition guard_acquire :: "nat \<Rightarrow> lock_state \<Rightarrow> lock_state option" where
  "guard_acquire t s =
     (case lk_wait s t of
        None \<Rightarrow> None
      | Some (key, m) \<Rightarrow>
          if lk_owner s m \<noteq> None then None
          else Some (s\<lparr>lk_owner := (lk_owner s)(m \<mapsto> t), lk_wait := (lk_wait s)(t := None),
                       lk_hold := (lk_hold s)(t \<mapsto> (key, m))\<rparr>))"

definition guard_drop :: "nat \<Rightarrow> lock_state \<Rightarrow> lock_state option" where
  "guard_drop t s =
     (case lk_hold s t of
        None \<Rightarrow> None
      | Some (key, m) \<Rightarrow> Some (s\<lparr>lk_owner := (lk_owner s)(m := None), lk_hold := (lk_hold s)(t := None)\<rparr>))"

inductive lock_step :: "lock_state \<Rightarrow> lock_state \<Rightarrow> bool" where
  lk_request: "lk_wait s t = None \<Longrightarrow> lk_hold s t = None \<Longrightarrow> lock_step s (guard_request t key s)"
| lk_acquire: "guard_acquire t s = Some s' \<Longrightarrow> lock_step s s'"
| lk_release: "guard_drop t s = Some s' \<Longrightarrow> lock_step s s'"

definition lock_init :: "lock_state \<Rightarrow> bool" where
  "lock_init s \<longleftrightarrow> s = \<lparr>lk_map = (\<lambda>_. None), lk_next = 0, lk_owner = (\<lambda>_. None), lk_wait = (\<lambda>_. None), lk_hold = (\<lambda>_. None)\<rparr>"

definition lock_inv :: "lock_state \<Rightarrow> bool" where
  "lock_inv s \<longleftrightarrow>
     (\<forall>k m. lk_map s k = Some m \<longrightarrow> m < lk_next s)
     \<and> (\<forall>k k' m. lk_map s k = Some m \<and> lk_map s k' = Some m \<longrightarrow> k = k')
     \<and> (\<forall>t k m. lk_wait s t = Some (k, m) \<longrightarrow> lk_map s k = Some m)
     \<and> (\<forall>t k m. lk_hold s t = Some (k, m) \<longrightarrow> lk_map s k = Some m \<and> lk_owner s m = Some t)
     \<and> (\<forall>t m. lk_owner s m = Some t \<longrightarrow> (\<exists>k. lk_hold s t = Some (k, m)))
     \<and> (\<forall>t. lk_wait s t \<noteq> None \<longrightarrow> lk_hold s t = None)"

lemma lock_entry_map:
  assumes "lock_entry key s = (m, s')"
  shows "lk_map s' = (lk_map s)(key \<mapsto> m)" "lk_owner s' = lk_owner s" "lk_wait s' = lk_wait s" "lk_hold s' = lk_hold s"
  using assms by (auto simp: lock_entry_def fun_eq_iff split: option.splits)

lemma lock_request_inv:
  assumes "lock_inv s" "lk_wait s t = None" "lk_hold s t = None"
  shows "lock_inv (guard_request t key s)"
proof (cases "lk_map s key")
  case None
  with assms show ?thesis
    unfolding lock_inv_def guard_request_def lock_entry_def Let_def
    by (auto split: if_splits) (metis less_Suc_eq less_irrefl option.distinct(1))+
next
  case (Some m)
  with assms show ?thesis
    unfolding lock_inv_def guard_request_def lock_entry_def Let_def by auto
qed

lemma lock_acquire_inv:
  assumes "lock_inv s" "guard_acquire t s = Some s'"
  shows "lock_inv s'"
proof -
  from assms(2) obtain key m where k: "lk_wait s t = Some (key, m)" "lk_owner s m = None"
    "s' = s\<lparr>lk_owner := (lk_owner s)(m \<mapsto> t), lk_wait := (lk_wait s)(t := None), lk_hold := (lk_hold s)(t \<mapsto> (key, m))\<rparr>"
    by (auto simp: guard_acquire_def split: option.splits if_splits)
  moreover from k(1) assms(1) have "lk_hold s t = None" unfolding lock_inv_def by simp
  ultimately show ?thesis using assms(1) unfolding lock_inv_def by auto (metis option.distinct(1))+
qed

lemma lock_release_inv:
  assumes "lock_inv s" "guard_drop t s = Some s'"
  shows "lock_inv s'"
proof -
  from assms(2) obtain key m where k: "lk_hold s t = Some (key, m)"
    "s' = s\<lparr>lk_owner := (lk_owner s)(m := None), lk_hold := (lk_hold s)(t := None)\<rparr>"
    by (auto simp: guard_drop_def split: option.splits)
  with assms(1) show ?thesis unfolding lock_inv_def by (auto split: if_splits) (metis option.inject prod.inject)+
qed

interpretation lock_sys: invariant_system lock_init lock_step lock_inv
proof unfold_locales
  show "lock_init s \<Longrightarrow> lock_inv s" for s by (simp add: lock_init_def lock_inv_def)
  show "lock_inv s \<Longrightarrow> lock_step s t \<Longrightarrow> lock_inv t" for s t
    by (auto elim!: lock_step.cases intro: lock_request_inv lock_acquire_inv lock_release_inv)
qed

lemma keyed_locks_parts:
  assumes "reachable lock_init lock_step s"
  shows "\<And>t u key m n. lk_hold s t = Some (key, m) \<Longrightarrow> lk_hold s u = Some (key, n) \<Longrightarrow> t = u"
    and "\<And>t key m. lk_wait s t = Some (key, m) \<Longrightarrow>
           (guard_acquire t s \<noteq> None) = (\<forall>u n. lk_hold s u \<noteq> Some (key, n))"
    and "\<And>t u key m n s'. lk_hold s t = Some (key, m) \<Longrightarrow> lk_wait s u = Some (key, n) \<Longrightarrow>
           guard_drop t s = Some s' \<Longrightarrow> guard_acquire u s' \<noteq> None"
proof -
  have inv: "lock_inv s" using assms by (rule lock_sys.reachable_inv)
  show "t = u" if "lk_hold s t = Some (key, m)" "lk_hold s u = Some (key, n)" for t u key m n
    using inv that unfolding lock_inv_def by (metis option.inject)
  show "(guard_acquire t s \<noteq> None) = (\<forall>u n. lk_hold s u \<noteq> Some (key, n))"
    if "lk_wait s t = Some (key, m)" for t key m
  proof -
    have "lk_map s key = Some m" using inv that unfolding lock_inv_def by blast
    then have "lk_owner s m = Some u" if "lk_hold s u = Some (key, n)" for u n
      using inv that unfolding lock_inv_def by (metis option.inject)
    moreover have "lk_hold s u = Some (key, m)" if o: "lk_owner s m = Some u" for u
    proof -
      obtain k where k: "lk_hold s u = Some (k, m)" using inv o unfolding lock_inv_def by blast
      then have "lk_map s k = Some m" using inv unfolding lock_inv_def by blast
      moreover have "\<And>k k' m. lk_map s k = Some m \<Longrightarrow> lk_map s k' = Some m \<Longrightarrow> k = k'"
        using inv unfolding lock_inv_def by blast
      ultimately have "k = key" using \<open>lk_map s key = Some m\<close> by blast
      with k show ?thesis by simp
    qed
    ultimately have "(lk_owner s m = None) = (\<forall>u n. lk_hold s u \<noteq> Some (key, n))"
      by (metis not_None_eq)
    with that show ?thesis unfolding guard_acquire_def by auto
  qed
  show "guard_acquire u s' \<noteq> None"
    if "lk_hold s t = Some (key, m)" "lk_wait s u = Some (key, n)" "guard_drop t s = Some s'" for t u key m n s'
  proof -
    have "m = n" using inv that(1,2) unfolding lock_inv_def by (metis option.inject)
    with that show ?thesis by (auto simp: guard_acquire_def guard_drop_def)
  qed
qed


text \<open>Two callers of one key: the first is inside, the second waits until the first has left.\<close>

definition two_callers :: lock_state where
  "two_callers =
     the (guard_acquire 0 (guard_request 1 ''a'' (guard_request 0 ''a''
       \<lparr>lk_map = (\<lambda>_. None), lk_next = 0, lk_owner = (\<lambda>_. None), lk_wait = (\<lambda>_. None), lk_hold = (\<lambda>_. None)\<rparr>)))"

lemma two_callers_reachable: "reachable lock_init lock_step two_callers"
proof -
  let ?s = "\<lparr>lk_map = (\<lambda>_. None), lk_next = 0, lk_owner = (\<lambda>_. None), lk_wait = (\<lambda>_. None), lk_hold = (\<lambda>_. None)\<rparr>"
  have "reachable lock_init lock_step ?s" by (rule reach_init) (simp add: lock_init_def)
  then have "reachable lock_init lock_step (guard_request 0 ''a'' ?s)"
    by (rule reach_step) (rule lk_request; simp)
  then have "reachable lock_init lock_step (guard_request 1 ''a'' (guard_request 0 ''a'' ?s))"
    by (rule reach_step) (rule lk_request; simp add: guard_request_def lock_entry_def)
  then show ?thesis
    by (rule reach_step)
      (rule lk_acquire [of 0]; simp add: two_callers_def guard_request_def guard_acquire_def lock_entry_def)
qed


end
