(* ===== verification/Spdy.thy ===== *)
theory Spdy
  imports Rust_Utf8 Rust_Effects Json
begin

section \<open>The SPDY/3.1 wire codec\<close>

text \<open>
  \<open>crates/cri/src/spdy.rs\<close>, the codec half: frames, their parser and writer, the plain
  name/value blocks and the loops that drive the \<open>zlib\<close> streams. The streams belong to
  \<open>flate2\<close>, a parameter: the record \<open>flate\<close> holds what one call of each of its methods does,
  given the state of the stream, the input and the room in the output vector. A slice out of
  range is Rust's panic, the error \<open>SpdyPanic\<close>; a loop that is still running when its fuel is
  used up gives \<open>SpdyFuel\<close>.
\<close>

datatype spdy_error = SpdyErr string | SpdyPanic | SpdyFuel

definition TYPE_SYN_STREAM :: u16 where "TYPE_SYN_STREAM = 1"
definition TYPE_SYN_REPLY :: u16 where "TYPE_SYN_REPLY = 2"
definition TYPE_RST_STREAM :: u16 where "TYPE_RST_STREAM = 3"
definition TYPE_SETTINGS :: u16 where "TYPE_SETTINGS = 4"
definition TYPE_PING :: u16 where "TYPE_PING = 6"
definition TYPE_GOAWAY :: u16 where "TYPE_GOAWAY = 7"
definition TYPE_HEADERS :: u16 where "TYPE_HEADERS = 8"
definition TYPE_WINDOW_UPDATE :: u16 where "TYPE_WINDOW_UPDATE = 9"
definition SPDY_VERSION :: u16 where "SPDY_VERSION = 3"
definition FLAG_FIN :: u8 where "FLAG_FIN = 1"
definition SETTINGS_INITIAL_WINDOW_SIZE :: u32 where "SETTINGS_INITIAL_WINDOW_SIZE = 7"
definition BIG_WINDOW :: u32 where "BIG_WINDOW = 0x7fffffff"
definition RST_CANCEL :: u32 where "RST_CANCEL = 5"

lemmas spdy_types = TYPE_SYN_STREAM_def TYPE_SYN_REPLY_def TYPE_RST_STREAM_def TYPE_SETTINGS_def
  TYPE_PING_def TYPE_GOAWAY_def TYPE_HEADERS_def TYPE_WINDOW_UPDATE_def SPDY_VERSION_def

type_synonym headers = "(string \<times> string) list"

datatype spdy_frame =
    SynStream u32 u8 headers
  | SynReply u32 u8 headers
  | RstStream u32 u32
  | Settings "(u32 \<times> u32) list"
  | Ping u32
  | GoAway u32 u32
  | Headers u32 u8 headers
  | WindowUpdate u32 u32
  | Data u32 u8 bytes

subsection \<open>Numbers on the wire\<close>

definition rd_u32 :: "bytes \<Rightarrow> u32" where
  "rd_u32 b = of_nat (((unat (b ! 0) * 256 + unat (b ! 1)) * 256 + unat (b ! 2)) * 256 + unat (b ! 3))"

definition rd_u24 :: "bytes \<Rightarrow> nat" where
  "rd_u24 b = (unat (b ! 0) * 256 + unat (b ! 1)) * 256 + unat (b ! 2)"

definition wr_u32 :: "u32 \<Rightarrow> bytes" where
  "wr_u32 v = [of_nat (unat v div 16777216), of_nat (unat v div 65536), of_nat (unat v div 256), of_nat (unat v)]"

definition wr_u24 :: "nat \<Rightarrow> bytes" where
  "wr_u24 v = [of_nat (v div 65536), of_nat (v div 256), of_nat v]"

text \<open>The slices \<open>&b[a..e]\<close> and \<open>&b[a..]\<close>, and a number read from one.\<close>

definition slice :: "nat \<Rightarrow> nat \<Rightarrow> bytes \<Rightarrow> spdy_error + bytes" where
  "slice a e b = (if a \<le> e \<and> e \<le> length b then Inr (take (e - a) (drop a b)) else Inl SpdyPanic)"

definition slice_from :: "nat \<Rightarrow> bytes \<Rightarrow> spdy_error + bytes" where
  "slice_from a b = (if a \<le> length b then Inr (drop a b) else Inl SpdyPanic)"

definition u32_at :: "nat \<Rightarrow> bytes \<Rightarrow> spdy_error + u32" where
  "u32_at a b = rbind (slice a (a + 4) b) (\<lambda>x. Inr (rd_u32 x))"

definition stream_id_mask :: "u32 \<Rightarrow> u32" where
  "stream_id_mask x = and x 0x7fffffff"

subsection \<open>Name/value blocks\<close>

definition nv_text :: "string \<Rightarrow> bytes" where
  "nv_text s = wr_u32 (of_nat (length s)) @ str_bytes s"

definition write_nv_block :: "headers \<Rightarrow> bytes" where
  "write_nv_block hs = wr_u32 (of_nat (length hs)) @ concat (map (\<lambda>(k, v). nv_text k @ nv_text v) hs)"

definition nv_take :: "bytes \<Rightarrow> nat \<Rightarrow> spdy_error + string \<times> nat" where
  "nv_take buf off =
     (if length buf < off + 4 then Inl (SpdyErr ''spdy nv: truncated length'')
      else (let n = unat (rd_u32 (take 4 (drop off buf))); off = off + 4 in
            if length buf < off + n then Inl (SpdyErr ''spdy nv: truncated value'')
            else Inr (from_utf8_lossy (take n (drop off buf)), off + n)))"

primrec nv_pairs :: "nat \<Rightarrow> bytes \<Rightarrow> nat \<Rightarrow> spdy_error + headers" where
  "nv_pairs 0 buf off = Inr []"
| "nv_pairs (Suc n) buf off =
     rbind (nv_take buf off) (\<lambda>(name, off).
       rbind (nv_take buf off) (\<lambda>(val, off).
         rbind (nv_pairs n buf off) (\<lambda>rest. Inr ((name, val) # rest))))"

definition read_nv_block :: "bytes \<Rightarrow> spdy_error + headers" where
  "read_nv_block buf =
     (if length buf < 4 then Inr []
      else nv_pairs (unat (rd_u32 (take 4 buf))) buf 4)"

definition header :: "headers \<Rightarrow> string \<Rightarrow> string option" where
  "header hs name = map_option snd (List.find (\<lambda>(k, _). eq_ignore_ascii_case k name) hs)"

subsection \<open>The compression streams\<close>

text \<open>The dictionary of SPDY/3, byte by byte.\<close>

definition SPDY_DICTIONARY :: bytes where
  "SPDY_DICTIONARY =
    [0, 0, 0, 7, 111, 112, 116, 105, 111, 110, 115, 0, 0, 0, 4, 104, 101, 97, 100, 0, 0, 0, 4, 112,
     111, 115, 116, 0, 0, 0, 3, 112, 117, 116, 0, 0, 0, 6, 100, 101, 108, 101, 116, 101, 0, 0, 0, 5,
     116, 114, 97, 99, 101, 0, 0, 0, 6, 97, 99, 99, 101, 112, 116, 0, 0, 0, 14, 97, 99, 99, 101, 112,
     116, 45, 99, 104, 97, 114, 115, 101, 116, 0, 0, 0, 15, 97, 99, 99, 101, 112, 116, 45, 101, 110, 99, 111,
     100, 105, 110, 103, 0, 0, 0, 15, 97, 99, 99, 101, 112, 116, 45, 108, 97, 110, 103, 117, 97, 103, 101, 0,
     0, 0, 13, 97, 99, 99, 101, 112, 116, 45, 114, 97, 110, 103, 101, 115, 0, 0, 0, 3, 97, 103, 101, 0,
     0, 0, 5, 97, 108, 108, 111, 119, 0, 0, 0, 13, 97, 117, 116, 104, 111, 114, 105, 122, 97, 116, 105, 111,
     110, 0, 0, 0, 13, 99, 97, 99, 104, 101, 45, 99, 111, 110, 116, 114, 111, 108, 0, 0, 0, 10, 99, 111,
     110, 110, 101, 99, 116, 105, 111, 110, 0, 0, 0, 12, 99, 111, 110, 116, 101, 110, 116, 45, 98, 97, 115, 101,
     0, 0, 0, 16, 99, 111, 110, 116, 101, 110, 116, 45, 101, 110, 99, 111, 100, 105, 110, 103, 0, 0, 0, 16,
     99, 111, 110, 116, 101, 110, 116, 45, 108, 97, 110, 103, 117, 97, 103, 101, 0, 0, 0, 14, 99, 111, 110, 116,
     101, 110, 116, 45, 108, 101, 110, 103, 116, 104, 0, 0, 0, 16, 99, 111, 110, 116, 101, 110, 116, 45, 108, 111,
     99, 97, 116, 105, 111, 110, 0, 0, 0, 11, 99, 111, 110, 116, 101, 110, 116, 45, 109, 100, 53, 0, 0, 0,
     13, 99, 111, 110, 116, 101, 110, 116, 45, 114, 97, 110, 103, 101, 0, 0, 0, 12, 99, 111, 110, 116, 101, 110,
     116, 45, 116, 121, 112, 101, 0, 0, 0, 4, 100, 97, 116, 101, 0, 0, 0, 4, 101, 116, 97, 103, 0, 0,
     0, 6, 101, 120, 112, 101, 99, 116, 0, 0, 0, 7, 101, 120, 112, 105, 114, 101, 115, 0, 0, 0, 4, 102,
     114, 111, 109, 0, 0, 0, 4, 104, 111, 115, 116, 0, 0, 0, 8, 105, 102, 45, 109, 97, 116, 99, 104, 0,
     0, 0, 17, 105, 102, 45, 109, 111, 100, 105, 102, 105, 101, 100, 45, 115, 105, 110, 99, 101, 0, 0, 0, 13,
     105, 102, 45, 110, 111, 110, 101, 45, 109, 97, 116, 99, 104, 0, 0, 0, 8, 105, 102, 45, 114, 97, 110, 103,
     101, 0, 0, 0, 19, 105, 102, 45, 117, 110, 109, 111, 100, 105, 102, 105, 101, 100, 45, 115, 105, 110, 99, 101,
     0, 0, 0, 13, 108, 97, 115, 116, 45, 109, 111, 100, 105, 102, 105, 101, 100, 0, 0, 0, 8, 108, 111, 99,
     97, 116, 105, 111, 110, 0, 0, 0, 12, 109, 97, 120, 45, 102, 111, 114, 119, 97, 114, 100, 115, 0, 0, 0,
     6, 112, 114, 97, 103, 109, 97, 0, 0, 0, 18, 112, 114, 111, 120, 121, 45, 97, 117, 116, 104, 101, 110, 116,
     105, 99, 97, 116, 101, 0, 0, 0, 19, 112, 114, 111, 120, 121, 45, 97, 117, 116, 104, 111, 114, 105, 122, 97,
     116, 105, 111, 110, 0, 0, 0, 5, 114, 97, 110, 103, 101, 0, 0, 0, 7, 114, 101, 102, 101, 114, 101, 114,
     0, 0, 0, 11, 114, 101, 116, 114, 121, 45, 97, 102, 116, 101, 114, 0, 0, 0, 6, 115, 101, 114, 118, 101,
     114, 0, 0, 0, 2, 116, 101, 0, 0, 0, 7, 116, 114, 97, 105, 108, 101, 114, 0, 0, 0, 17, 116, 114,
     97, 110, 115, 102, 101, 114, 45, 101, 110, 99, 111, 100, 105, 110, 103, 0, 0, 0, 7, 117, 112, 103, 114, 97,
     100, 101, 0, 0, 0, 10, 117, 115, 101, 114, 45, 97, 103, 101, 110, 116, 0, 0, 0, 4, 118, 97, 114, 121,
     0, 0, 0, 3, 118, 105, 97, 0, 0, 0, 7, 119, 97, 114, 110, 105, 110, 103, 0, 0, 0, 16, 119, 119,
     119, 45, 97, 117, 116, 104, 101, 110, 116, 105, 99, 97, 116, 101, 0, 0, 0, 6, 109, 101, 116, 104, 111, 100,
     0, 0, 0, 3, 103, 101, 116, 0, 0, 0, 6, 115, 116, 97, 116, 117, 115, 0, 0, 0, 6, 50, 48, 48,
     32, 79, 75, 0, 0, 0, 7, 118, 101, 114, 115, 105, 111, 110, 0, 0, 0, 8, 72, 84, 84, 80, 47, 49,
     46, 49, 0, 0, 0, 3, 117, 114, 108, 0, 0, 0, 6, 112, 117, 98, 108, 105, 99, 0, 0, 0, 10, 115,
     101, 116, 45, 99, 111, 111, 107, 105, 101, 0, 0, 0, 10, 107, 101, 101, 112, 45, 97, 108, 105, 118, 101, 0,
     0, 0, 6, 111, 114, 105, 103, 105, 110, 49, 48, 48, 49, 48, 49, 50, 48, 49, 50, 48, 50, 50, 48, 53,
     50, 48, 54, 51, 48, 48, 51, 48, 50, 51, 48, 51, 51, 48, 52, 51, 48, 53, 51, 48, 54, 51, 48, 55,
     52, 48, 50, 52, 48, 53, 52, 48, 54, 52, 48, 55, 52, 48, 56, 52, 48, 57, 52, 49, 48, 52, 49, 49,
     52, 49, 50, 52, 49, 51, 52, 49, 52, 52, 49, 53, 52, 49, 54, 52, 49, 55, 53, 48, 50, 53, 48, 52,
     53, 48, 53, 50, 48, 51, 32, 78, 111, 110, 45, 65, 117, 116, 104, 111, 114, 105, 116, 97, 116, 105, 118, 101,
     32, 73, 110, 102, 111, 114, 109, 97, 116, 105, 111, 110, 50, 48, 52, 32, 78, 111, 32, 67, 111, 110, 116, 101,
     110, 116, 51, 48, 49, 32, 77, 111, 118, 101, 100, 32, 80, 101, 114, 109, 97, 110, 101, 110, 116, 108, 121, 52,
     48, 48, 32, 66, 97, 100, 32, 82, 101, 113, 117, 101, 115, 116, 52, 48, 49, 32, 85, 110, 97, 117, 116, 104,
     111, 114, 105, 122, 101, 100, 52, 48, 51, 32, 70, 111, 114, 98, 105, 100, 100, 101, 110, 52, 48, 52, 32, 78,
     111, 116, 32, 70, 111, 117, 110, 100, 53, 48, 48, 32, 73, 110, 116, 101, 114, 110, 97, 108, 32, 83, 101, 114,
     118, 101, 114, 32, 69, 114, 114, 111, 114, 53, 48, 49, 32, 78, 111, 116, 32, 73, 109, 112, 108, 101, 109, 101,
     110, 116, 101, 100, 53, 48, 51, 32, 83, 101, 114, 118, 105, 99, 101, 32, 85, 110, 97, 118, 97, 105, 108, 97,
     98, 108, 101, 74, 97, 110, 32, 70, 101, 98, 32, 77, 97, 114, 32, 65, 112, 114, 32, 77, 97, 121, 32, 74,
     117, 110, 32, 74, 117, 108, 32, 65, 117, 103, 32, 83, 101, 112, 116, 32, 79, 99, 116, 32, 78, 111, 118, 32,
     68, 101, 99, 32, 48, 48, 58, 48, 48, 58, 48, 48, 32, 77, 111, 110, 44, 32, 84, 117, 101, 44, 32, 87,
     101, 100, 44, 32, 84, 104, 117, 44, 32, 70, 114, 105, 44, 32, 83, 97, 116, 44, 32, 83, 117, 110, 44, 32,
     71, 77, 84, 99, 104, 117, 110, 107, 101, 100, 44, 116, 101, 120, 116, 47, 104, 116, 109, 108, 44, 105, 109, 97,
     103, 101, 47, 112, 110, 103, 44, 105, 109, 97, 103, 101, 47, 106, 112, 103, 44, 105, 109, 97, 103, 101, 47, 103,
     105, 102, 44, 97, 112, 112, 108, 105, 99, 97, 116, 105, 111, 110, 47, 120, 109, 108, 44, 97, 112, 112, 108, 105,
     99, 97, 116, 105, 111, 110, 47, 120, 104, 116, 109, 108, 43, 120, 109, 108, 44, 116, 101, 120, 116, 47, 112, 108,
     97, 105, 110, 44, 116, 101, 120, 116, 47, 106, 97, 118, 97, 115, 99, 114, 105, 112, 116, 44, 112, 117, 98, 108,
     105, 99, 112, 114, 105, 118, 97, 116, 101, 109, 97, 120, 45, 97, 103, 101, 61, 103, 122, 105, 112, 44, 100, 101,
     102, 108, 97, 116, 101, 44, 115, 100, 99, 104, 99, 104, 97, 114, 115, 101, 116, 61, 117, 116, 102, 45, 56, 99,
     104, 97, 114, 115, 101, 116, 61, 105, 115, 111, 45, 56, 56, 53, 57, 45, 49, 44, 117, 116, 102, 45, 44, 42,
     44, 101, 110, 113, 61, 48, 46]"

datatype flate_status = FlOk | FlNeedsDictionary | FlError

text \<open>
  One call of \<open>compress_vec\<close> or \<open>decompress_vec\<close>: how many bytes of the input it used and the
  bytes it appended (the differences of \<open>total_in\<close> and \<open>total_out\<close>), with the new state.
\<close>

record ('d, 'i) flate =
  fl_new_deflate :: "'d"
  fl_new_inflate :: "'i"
  fl_deflate_dictionary :: "'d \<Rightarrow> bytes \<Rightarrow> 'd"
  fl_inflate_dictionary :: "'i \<Rightarrow> bytes \<Rightarrow> 'i option"
  fl_compress :: "'d \<Rightarrow> bytes \<Rightarrow> nat \<Rightarrow> (nat \<times> bytes) option \<times> 'd"
  fl_decompress :: "'i \<Rightarrow> bytes \<Rightarrow> nat \<Rightarrow> flate_status \<times> nat \<times> bytes \<times> 'i"
  fl_fuel :: nat

record ('d, 'i) nv_codec =
  nv_deflate :: "'d"
  nv_inflate :: "'i"
  nv_dict_set :: bool

definition nv_new :: "('d, 'i) flate \<Rightarrow> ('d, 'i) nv_codec" where
  "nv_new fl = \<lparr>nv_deflate = fl_deflate_dictionary fl (fl_new_deflate fl) SPDY_DICTIONARY,
                nv_inflate = fl_new_inflate fl, nv_dict_set = False\<rparr>"

text \<open>\<open>Vec::reserve\<close>: the capacity after it.\<close>

definition vec_reserve :: "nat \<Rightarrow> nat \<Rightarrow> nat \<Rightarrow> nat" where
  "vec_reserve cap len extra = (if cap - len < extra then max 8 (max (2 * cap) (len + extra)) else cap)"

primrec compress_loop ::
  "('d, 'i) flate \<Rightarrow> nat \<Rightarrow> 'd \<Rightarrow> bytes \<Rightarrow> nat \<Rightarrow> bytes \<Rightarrow> nat \<Rightarrow> (spdy_error + bytes) \<times> 'd" where
  "compress_loop fl 0 z plain in_off out cap = (Inl SpdyFuel, z)"
| "compress_loop fl (Suc fuel) z plain in_off out cap =
     (case fl_compress fl z (drop in_off plain) (cap - length out) of
        (None, z) \<Rightarrow> (Inl (SpdyErr ''spdy deflate''), z)
      | (Some (used, made), z) \<Rightarrow>
          let in_off = in_off + used; out = out @ made in
          if length plain \<le> in_off \<and> made = [] then (Inr out, z)
          else
            let cap = (if length out = cap then vec_reserve cap (length out) 256 else cap) in
            if length plain \<le> in_off \<and> made \<noteq> [] then
              (case fl_compress fl z [] (cap - length out) of
                 (None, z) \<Rightarrow> (Inl (SpdyErr ''spdy deflate''), z)
               | (Some (_, rest), z) \<Rightarrow>
                   if rest = [] then (Inr out, z)
                   else compress_loop fl fuel z plain in_off (out @ rest) cap)
            else compress_loop fl fuel z plain in_off out cap)"

definition compress_nv :: "('d, 'i) flate \<Rightarrow> headers \<Rightarrow> (('d, 'i) nv_codec, spdy_error, bytes) prog" where
  "compress_nv fl hs nv =
     (let plain = write_nv_block hs;
          (r, z) = compress_loop fl (fl_fuel fl) (nv_deflate nv) plain 0 [] (length plain)
      in (r, nv\<lparr>nv_deflate := z\<rparr>))"

primrec decompress_loop ::
  "('d, 'i) flate \<Rightarrow> nat \<Rightarrow> 'i \<Rightarrow> bool \<Rightarrow> bytes \<Rightarrow> nat \<Rightarrow> bytes \<Rightarrow> nat \<Rightarrow> (spdy_error + bytes) \<times> 'i \<times> bool" where
  "decompress_loop fl 0 z dict raw in_off out cap = (Inl SpdyFuel, z, dict)"
| "decompress_loop fl (Suc fuel) z dict raw in_off out cap =
     (case fl_decompress fl z (drop in_off raw) (cap - length out) of
        (FlNeedsDictionary, used, made, z) \<Rightarrow>
          if \<not> dict then
            (case fl_inflate_dictionary fl z SPDY_DICTIONARY of
               None \<Rightarrow> (Inl (SpdyErr ''spdy inflate dict''), z, dict)
             | Some z \<Rightarrow> decompress_loop fl fuel z True raw (in_off + used) (out @ made) cap)
          else (Inl (SpdyErr ''spdy inflate''), z, dict)
      | (FlError, _, _, z) \<Rightarrow> (Inl (SpdyErr ''spdy inflate''), z, dict)
      | (FlOk, used, made, z) \<Rightarrow>
          let in_off = in_off + used; out = out @ made in
          if length raw \<le> in_off \<and> made = [] then (Inr out, z, dict)
          else
            let cap = (if length out = cap then vec_reserve cap (length out) (max cap 256) else cap) in
            decompress_loop fl fuel z dict raw in_off out cap)"

definition decompress_nv :: "('d, 'i) flate \<Rightarrow> bytes \<Rightarrow> (('d, 'i) nv_codec, spdy_error, headers) prog" where
  "decompress_nv fl raw nv =
     (let (r, z, dict) =
            decompress_loop fl (fl_fuel fl) (nv_inflate nv) (nv_dict_set nv) raw 0 [] (length raw * 4 + 64)
      in (rbind r read_nv_block, nv\<lparr>nv_inflate := z, nv_dict_set := dict\<rparr>))"

subsection \<open>Frames\<close>

primrec settings_entries :: "nat \<Rightarrow> nat \<Rightarrow> bytes \<Rightarrow> (u32 \<times> u32) list" where
  "settings_entries 0 off body = []"
| "settings_entries (Suc n) off body =
     (if length body < off + 8 then []
      else (of_nat (rd_u24 (take 3 (drop (off + 1) body))), rd_u32 (take 4 (drop (off + 4) body)))
           # settings_entries n (off + 8) body)"

definition headed ::
  "('d, 'i) flate \<Rightarrow> nat \<Rightarrow> (u32 \<Rightarrow> headers \<Rightarrow> spdy_frame) \<Rightarrow> bytes \<Rightarrow> (('d, 'i) nv_codec, spdy_error, spdy_frame) prog"
where
  "headed fl skip mk body =
     pbind (plift (u32_at 0 body)) (\<lambda>sid.
     pbind (plift (slice_from skip body)) (\<lambda>raw.
     pbind (decompress_nv fl raw) (\<lambda>hs. pret (mk (stream_id_mask sid) hs))))"

definition parse_control ::
  "('d, 'i) flate \<Rightarrow> u16 \<Rightarrow> u8 \<Rightarrow> bytes \<Rightarrow> (('d, 'i) nv_codec, spdy_error, spdy_frame) prog" where
  "parse_control fl ftype flags body =
     (if ftype = TYPE_SYN_STREAM then headed fl 10 (\<lambda>sid hs. SynStream sid flags hs) body
      else if ftype = TYPE_SYN_REPLY then headed fl 4 (\<lambda>sid hs. SynReply sid flags hs) body
      else if ftype = TYPE_HEADERS then headed fl 4 (\<lambda>sid hs. Headers sid flags hs) body
      else if ftype = TYPE_RST_STREAM then
        plift (rbind (u32_at 0 body) (\<lambda>sid. rbind (u32_at 4 body) (\<lambda>st.
          Inr (RstStream (stream_id_mask sid) st))))
      else if ftype = TYPE_SETTINGS then
        plift (rbind (u32_at 0 body) (\<lambda>n. Inr (Settings (settings_entries (unat n) 4 body))))
      else if ftype = TYPE_PING then plift (rbind (u32_at 0 body) (\<lambda>i. Inr (Ping i)))
      else if ftype = TYPE_GOAWAY then
        plift (rbind (u32_at 0 body) (\<lambda>sid.
          rbind (if 8 \<le> length body then u32_at 4 body else Inr 0) (\<lambda>st.
            Inr (GoAway (stream_id_mask sid) st))))
      else if ftype = TYPE_WINDOW_UPDATE then
        plift (rbind (u32_at 0 body) (\<lambda>sid. rbind (u32_at 4 body) (\<lambda>d.
          Inr (WindowUpdate (stream_id_mask sid) (stream_id_mask d)))))
      else pret (Settings []))"

definition parse_frame ::
  "('d, 'i) flate \<Rightarrow> bytes \<Rightarrow> (('d, 'i) nv_codec, spdy_error, (spdy_frame \<times> nat) option) prog" where
  "parse_frame fl buf =
     (if length buf < 8 then pret None
      else
        let is_control = (and (buf ! 0) 0x80 \<noteq> 0); len = rd_u24 (take 3 (drop 5 buf)); tot = 8 + len in
        if length buf < tot then pret None
        else
          let body = take len (drop 8 buf); flags = buf ! 4 in
          if \<not> is_control then
            pret (Some (Data (stream_id_mask (rd_u32 (take 4 buf))) flags body, tot))
          else
            pbind (parse_control fl (of_nat (unat (buf ! 2) * 256 + unat (buf ! 3))) flags body)
              (\<lambda>f. pret (Some (f, tot))))"

definition control_header :: "u16 \<Rightarrow> u8 \<Rightarrow> nat \<Rightarrow> bytes" where
  "control_header ftype flags len =
     [or 0x80 (of_nat (unat SPDY_VERSION div 256)), of_nat (unat SPDY_VERSION),
      of_nat (unat ftype div 256), of_nat (unat ftype), flags] @ wr_u24 len"

definition write_headed ::
  "('d, 'i) flate \<Rightarrow> u16 \<Rightarrow> u8 \<Rightarrow> bytes \<Rightarrow> headers \<Rightarrow> (('d, 'i) nv_codec, spdy_error, bytes) prog" where
  "write_headed fl ftype flags front hs =
     pbind (compress_nv fl hs) (\<lambda>nvb.
       pret (control_header ftype flags (length (front @ nvb)) @ front @ nvb))"

text \<open>The bytes \<open>write_frame\<close> appends to its output.\<close>

primrec write_frame ::
  "('d, 'i) flate \<Rightarrow> spdy_frame \<Rightarrow> (('d, 'i) nv_codec, spdy_error, bytes) prog" where
  "write_frame fl (SynReply sid flags hs) =
     write_headed fl TYPE_SYN_REPLY flags (wr_u32 (stream_id_mask sid)) hs"
| "write_frame fl (SynStream sid flags hs) =
     write_headed fl TYPE_SYN_STREAM flags (wr_u32 (stream_id_mask sid) @ wr_u32 0 @ [0, 0]) hs"
| "write_frame fl (RstStream sid st) =
     pret (control_header TYPE_RST_STREAM 0 8 @ wr_u32 (stream_id_mask sid) @ wr_u32 st)"
| "write_frame fl (Settings es) =
     pret (control_header TYPE_SETTINGS 0 (4 + length es * 8) @ wr_u32 (of_nat (length es))
           @ concat (map (\<lambda>(i, v). [0] @ wr_u24 (unat i) @ wr_u32 v) es))"
| "write_frame fl (Ping i) = pret (control_header TYPE_PING 0 4 @ wr_u32 i)"
| "write_frame fl (GoAway sid st) =
     pret (control_header TYPE_GOAWAY 0 8 @ wr_u32 (stream_id_mask sid) @ wr_u32 st)"
| "write_frame fl (Headers sid flags hs) =
     write_headed fl TYPE_HEADERS flags (wr_u32 (stream_id_mask sid)) hs"
| "write_frame fl (WindowUpdate sid d) =
     pret (control_header TYPE_WINDOW_UPDATE 0 8 @ wr_u32 (stream_id_mask sid) @ wr_u32 (stream_id_mask d))"
| "write_frame fl (Data sid flags payload) =
     pret (wr_u32 (stream_id_mask sid) @ [flags] @ wr_u24 (length payload) @ payload)"

end
