(* ===== verification/Spdy_Properties.thy ===== *)
theory Spdy_Properties
  imports Spdy
begin

section \<open>The SPDY codec is correct\<close>

text \<open>
  Numbers, name/value blocks and frames survive the wire; the loops around the \<open>zlib\<close> streams
  end and pass on exactly what the streams owe; a frame that has not arrived whole is left
  alone. Two theorems show what a peer can do to the parser.
\<close>

subsection \<open>Numbers\<close>

lemma horner_byte: "y div 256 mod m * 256 + y mod 256 = (y :: nat) mod (m * 256)"
  by (metis add.commute mod_mult2_eq mult.commute)

lemma unat_byte: "unat (of_nat n :: 8 word) = n mod 256"
  by (simp add: unat_of_nat take_bit_eq_mod)

lemma be_bytes24:
  fixes n :: nat
  shows "(n div 65536 mod 256 * 256 + n div 256 mod 256) * 256 + n mod 256 = n mod 16777216"
  using horner_byte [of "n div 256" 256] horner_byte [of n 65536] by (simp add: div_mult2_eq [symmetric])

lemma be_bytes:
  fixes n :: nat
  shows "((n div 16777216 mod 256 * 256 + n div 65536 mod 256) * 256 + n div 256 mod 256) * 256 + n mod 256
           = n mod 4294967296"
  using be_bytes24 [of "n div 256"] horner_byte [of n 16777216] by (simp add: div_mult2_eq [symmetric])

lemma rd_wr_u32 [simp]: "rd_u32 (wr_u32 v) = v"
proof -
  have "unat v < 4294967296" using unsigned_less [of v] by simp
  then have "((unat v div 16777216 mod 256 * 256 + unat v div 65536 mod 256) * 256 + unat v div 256 mod 256) * 256
               + unat v mod 256 = unat v"
    using be_bytes [of "unat v"] by (simp only: mod_less [of _ 4294967296])
  then show ?thesis
    unfolding rd_u32_def wr_u32_def nth_Cons_0 nth_Cons_Suc One_nat_def numeral_2_eq_2 numeral_3_eq_3 unat_byte
    by (simp only:) simp
qed

lemma rd_wr_u24 [simp]:
  assumes "n < 16777216"
  shows "rd_u24 (wr_u24 n) = n"
proof -
  have "(n div 65536 mod 256 * 256 + n div 256 mod 256) * 256 + n mod 256 = n"
    using be_bytes24 [of n] assms by (simp only: mod_less [of _ 16777216])
  then show ?thesis
    unfolding rd_u24_def wr_u24_def nth_Cons_0 nth_Cons_Suc One_nat_def numeral_2_eq_2 unat_byte .
qed

lemma length_wr [simp]: "length (wr_u32 v) = 4" "length (wr_u24 n) = 3"
  by (simp_all add: wr_u32_def wr_u24_def)

lemma mask_idem [simp]: "stream_id_mask (stream_id_mask x) = stream_id_mask x"
  by (simp add: stream_id_mask_def and.assoc)

lemma take_wr [simp]:
  "take 4 (wr_u32 v @ xs) = wr_u32 v" "drop 4 (wr_u32 v @ xs) = xs" "take 3 (wr_u24 n @ xs) = wr_u24 n"
  by simp_all

lemma unat_len: "n < 4294967296 \<Longrightarrow> unat (of_nat n :: 32 word) = n"
  by (simp add: unat_of_nat take_bit_eq_mod)

subsection \<open>Name/value blocks\<close>

definition text_ok :: "string \<Rightarrow> bool" where
  "text_ok s \<longleftrightarrow> is_utf8 s \<and> length s < 2 ^ 32"

definition headers_ok :: "headers \<Rightarrow> bool" where
  "headers_ok hs \<longleftrightarrow> length hs < 2 ^ 32 \<and> list_all (\<lambda>(k, v). text_ok k \<and> text_ok v) hs"

lemma nv_take_text:
  assumes "text_ok s"
  shows "nv_take (pre @ nv_text s @ rest) (length pre) = Inr (s, length pre + length (nv_text s))"
  using assms by (simp add: nv_take_def nv_text_def text_ok_def Let_def unat_len str_bytes_def [of s] )
    (simp add: str_bytes_def [symmetric])

lemma nv_pairs_write:
  "list_all (\<lambda>(k, v). text_ok k \<and> text_ok v) hs \<Longrightarrow>
   nv_pairs (length hs) (pre @ concat (map (\<lambda>(k, v). nv_text k @ nv_text v) hs) @ rest) (length pre) = Inr hs"
proof (induction hs arbitrary: pre)
  case (Cons h hs)
  obtain k v where h: "h = (k, v)" by (cases h)
  let ?c = "concat (map (\<lambda>(k, v). nv_text k @ nv_text v) hs)"
  have k: "nv_take (pre @ nv_text k @ (nv_text v @ ?c @ rest)) (length pre) = Inr (k, length (pre @ nv_text k))"
    using Cons.prems h by (subst nv_take_text) auto
  have v: "nv_take ((pre @ nv_text k) @ nv_text v @ (?c @ rest)) (length (pre @ nv_text k))
            = Inr (v, length ((pre @ nv_text k) @ nv_text v))"
    using Cons.prems h by (subst nv_take_text) auto
  have r: "nv_pairs (length hs) (((pre @ nv_text k) @ nv_text v) @ ?c @ rest) (length ((pre @ nv_text k) @ nv_text v)) = Inr hs"
    using Cons.prems by (intro Cons.IH) simp
  from k v r show ?case by (simp add: h)
qed simp

lemma read_write_nv:
  assumes "headers_ok hs"
  shows "read_nv_block (write_nv_block hs) = Inr hs"
  using nv_pairs_write [of hs "wr_u32 (of_nat (length hs))" "[]"] assms
  by (simp add: read_nv_block_def write_nv_block_def headers_ok_def unat_len)

subsection \<open>The compression loops\<close>

text \<open>
  What \<open>zlib\<close> documents of a deflating stream under \<open>Z_SYNC_FLUSH\<close>: it appends a part of the
  bytes it owes for its input, never more than there is room for, and when it leaves room it
  has used all the input and owes nothing more.
\<close>

definition deflate_law :: "('d, 'i) flate \<Rightarrow> ('d \<Rightarrow> bytes \<Rightarrow> bytes) \<Rightarrow> bool" where
  "deflate_law fl owed \<longleftrightarrow>
     (\<forall>z inp r. \<exists>used made z'. fl_compress fl z inp r = (Some (used, made), z')
        \<and> used \<le> length inp \<and> length made \<le> r \<and> made @ owed z' (drop used inp) = owed z inp
        \<and> (length made < r \<longrightarrow> used = length inp \<and> owed z' [] = []))"

text \<open>
  The same for an inflating stream that reads a valid continuation of its input; before the
  first block it asks for the dictionary once.
\<close>

definition inflate_law ::
  "('d, 'i) flate \<Rightarrow> (bool \<Rightarrow> 'i \<Rightarrow> bytes \<Rightarrow> bool) \<Rightarrow> ('i \<Rightarrow> bytes \<Rightarrow> bytes) \<Rightarrow> bool" where
  "inflate_law fl valid yields \<longleftrightarrow>
     (\<forall>dict i inp r. valid dict i inp \<longrightarrow>
        (case fl_decompress fl i inp r of
           (FlOk, used, made, i') \<Rightarrow>
             used \<le> length inp \<and> length made \<le> r \<and> made @ yields i' (drop used inp) = yields i inp
             \<and> valid dict i' (drop used inp) \<and> (length made < r \<longrightarrow> used = length inp \<and> yields i' [] = [])
         | (FlNeedsDictionary, used, made, i') \<Rightarrow>
             \<not> dict \<and> used \<le> length inp \<and> made = []
             \<and> (\<exists>i''. fl_inflate_dictionary fl i' SPDY_DICTIONARY = Some i''
                  \<and> yields i'' (drop used inp) = yields i inp \<and> valid True i'' (drop used inp))
         | (FlError, _) \<Rightarrow> False))"

lemma deflate_lawD:
  assumes "deflate_law fl owed"
  obtains used made z' where "fl_compress fl z inp r = (Some (used, made), z')" "used \<le> length inp"
    "length made \<le> r" "made @ owed z' (drop used inp) = owed z inp"
    "length made < r \<Longrightarrow> used = length inp \<and> owed z' [] = []"
  using assms unfolding deflate_law_def by metis

text \<open>When the stream is flushed the loop stops with what it has.\<close>

lemma compress_loop_drained:
  assumes "deflate_law fl owed" "owed z [] = []" "length out < cap" "length plain \<le> in_off"
  shows "\<exists>z'. compress_loop fl (Suc n) z plain in_off out cap = (Inr out, z') \<and> owed z' [] = []"
proof -
  obtain used made z' where c: "fl_compress fl z [] (cap - length out) = (Some (used, made), z')"
    "used \<le> length ([] :: bytes)" "made @ owed z' (drop used []) = owed z []"
    using deflate_lawD [OF assms(1)] by metis
  then show ?thesis using assms by simp
qed

text \<open>With room for all that is owed, one more call and a drain are enough.\<close>

lemma compress_loop_roomy:
  assumes law: "deflate_law fl owed" and room: "length out + length (owed z (drop in_off plain)) < cap"
    and off: "in_off \<le> length plain"
  shows "\<exists>z'. compress_loop fl (Suc (Suc n)) z plain in_off out cap = (Inr (out @ owed z (drop in_off plain)), z')
           \<and> owed z' [] = []"
proof -
  obtain used made z1 where c: "fl_compress fl z (drop in_off plain) (cap - length out) = (Some (used, made), z1)"
    "used \<le> length (drop in_off plain)" "made @ owed z1 (drop used (drop in_off plain)) = owed z (drop in_off plain)"
    "length made < cap - length out \<Longrightarrow> used = length (drop in_off plain) \<and> owed z1 [] = []"
    using deflate_lawD [OF law] by metis
  have "length made \<le> length (owed z (drop in_off plain))" by (metis c(3) le_add1 length_append)
  then have d: "used = length (drop in_off plain)" "owed z1 [] = []" using c(4) room by auto
  then have made: "made = owed z (drop in_off plain)" using c(3) by simp
  obtain u2 m2 z2 where e: "fl_compress fl z1 [] (cap - length (out @ made)) = (Some (u2, m2), z2)"
    "u2 \<le> length ([] :: bytes)" "m2 @ owed z2 (drop u2 []) = owed z1 []"
    using deflate_lawD [OF law] by metis
  then have "m2 = []" "owed z2 [] = []" using d(2) by auto
  then show ?thesis using c(1) d off e room made by (auto simp: Let_def)
qed

lemma vec_reserve_room: "len + extra \<le> vec_reserve cap len extra \<or> cap - len \<ge> extra"
  by (auto simp: vec_reserve_def)

lemma compress_loop_full:
  assumes law: "deflate_law fl owed" and bound: "length (owed z plain) < length plain + 256"
    and plain: "plain \<noteq> []" and fuel: "3 \<le> fuel"
  shows "\<exists>z'. compress_loop fl fuel z plain 0 [] (length plain) = (Inr (owed z plain), z') \<and> owed z' [] = []"
proof -
  obtain n where n: "fuel = Suc (Suc (Suc n))" using fuel by (metis Suc_le_D numeral_3_eq_3 Suc_le_mono)
  obtain used made z1 where c: "fl_compress fl z plain (length plain) = (Some (used, made), z1)"
    "used \<le> length plain" "length made \<le> length plain" "made @ owed z1 (drop used plain) = owed z plain"
    "length made < length plain \<Longrightarrow> used = length plain \<and> owed z1 [] = []"
    using deflate_lawD [OF law] by metis
  define cap where "cap = (if length made = length plain then vec_reserve (length plain) (length plain) 256 else length plain)"
  have rest: "length (owed z plain) = length made + length (owed z1 (drop used plain))"
    using c(4) by (metis length_append)
  have room: "length made + length (owed z1 (drop used plain)) < cap" if "length made = length plain"
    using that rest bound unfolding cap_def by (simp add: vec_reserve_def)
  have fin: "used = length plain \<and> owed z1 [] = []" "length made < cap" if "length made \<noteq> length plain"
    using that c(3,5) unfolding cap_def by auto
  have eq: "(length plain \<le> used) = (used = length plain)" using c(2) by auto
  have first: "compress_loop fl fuel z plain 0 [] (length plain) =
     (if used = length plain \<and> made = [] then (Inr made, z1)
      else if used = length plain then
        (case fl_compress fl z1 [] (cap - length made) of
           (None, z) \<Rightarrow> (Inl (SpdyErr ''spdy deflate''), z)
         | (Some (_, rest), z) \<Rightarrow> if rest = [] then (Inr made, z)
             else compress_loop fl (Suc (Suc n)) z plain used (made @ rest) cap)
      else compress_loop fl (Suc (Suc n)) z1 plain used made cap)"
    unfolding n using c(1) eq
    by (subst compress_loop.simps(2)) (auto simp: Let_def cap_def simp del: compress_loop.simps split: prod.splits option.splits)
  show ?thesis
  proof (cases "used = length plain")
    case False
    with fin have "length made = length plain" by blast
    then show ?thesis
      using False first compress_loop_roomy [OF law room c(2), of n] c(4) by auto
  next
    case True
    obtain u2 m2 z2 where e: "fl_compress fl z1 [] (cap - length made) = (Some (u2, m2), z2)"
      "u2 \<le> length ([] :: bytes)" "m2 @ owed z2 (drop u2 []) = owed z1 []"
      "length m2 < cap - length made \<Longrightarrow> owed z2 [] = []"
      using deflate_lawD [OF law] by metis
    have lt: "length m2 < cap - length made"
      using e(3) room fin True by (cases "length made = length plain") (auto dest: arg_cong [where f = length])
    then have z2: "owed z2 [] = []" and m2: "m2 = owed z1 []" using e by auto
    have made: "made @ m2 = owed z plain" using c(4) True m2 by simp
    show ?thesis
    proof (cases "made = []")
      case True
      with plain fin have "owed z1 [] = []" by auto
      with True \<open>used = length plain\<close> first c(4) show ?thesis by simp
    next
      case False
      have "\<exists>z'. compress_loop fl (Suc (Suc n)) z2 plain used (made @ m2) cap = (Inr (made @ m2), z') \<and> owed z' [] = []"
        by (rule compress_loop_drained [OF law z2]) (use lt True in auto)
      then show ?thesis using False True first e(1) made z2 by (cases "m2 = []") auto
    qed
  qed
qed

text \<open>The inflating loop: enough fuel is the length of the output and three more.\<close>

lemma decompress_loop_full:
  assumes law: "inflate_law fl valid yields"
  shows "valid dict i (drop in_off raw) \<Longrightarrow> in_off \<le> length raw \<Longrightarrow> length out < cap \<Longrightarrow>
         length (yields i (drop in_off raw)) + (if dict then 1 else 2) < fuel \<Longrightarrow>
         fst (decompress_loop fl fuel i dict raw in_off out cap) = Inr (out @ yields i (drop in_off raw))"
proof (induction fuel arbitrary: i dict in_off out cap)
  case (Suc fuel)
  obtain st used made i' where c: "fl_decompress fl i (drop in_off raw) (cap - length out) = (st, used, made, i')"
    by (metis prod_cases4)
  note L = law [unfolded inflate_law_def, rule_format, OF Suc.prems(1), of "cap - length out", unfolded c]
  show ?case
  proof (cases st)
    case FlError
    with L show ?thesis by simp
  next
    case FlNeedsDictionary
    with L obtain i'' where d: "\<not> dict" "used \<le> length (drop in_off raw)" "made = []"
      "fl_inflate_dictionary fl i' SPDY_DICTIONARY = Some i''"
      "yields i'' (drop used (drop in_off raw)) = yields i (drop in_off raw)" "valid True i'' (drop used (drop in_off raw))"
      by auto
    have "fst (decompress_loop fl fuel i'' True raw (in_off + used) out cap) = Inr (out @ yields i'' (drop (in_off + used) raw))"
      by (rule Suc.IH) (use d Suc.prems in \<open>auto simp: add.commute\<close>)
    with FlNeedsDictionary c d show ?thesis by (simp add: add.commute)
  next
    case FlOk
    with L have d: "used \<le> length (drop in_off raw)" "length made \<le> cap - length out"
      "made @ yields i' (drop used (drop in_off raw)) = yields i (drop in_off raw)"
      "valid dict i' (drop used (drop in_off raw))"
      "length made < cap - length out \<Longrightarrow> used = length (drop in_off raw) \<and> yields i' [] = []"
      by auto
    define cap' where "cap' = (if length (out @ made) = cap then vec_reserve cap (length (out @ made)) (max cap 256) else cap)"
    have step: "decompress_loop fl (Suc fuel) i dict raw in_off out cap =
        (if length raw \<le> in_off + used \<and> made = [] then (Inr out, i', dict)
         else decompress_loop fl fuel i' dict raw (in_off + used) (out @ made) cap')"
      using c FlOk unfolding cap'_def by (auto simp: Let_def)
    show ?thesis
    proof (cases "length raw \<le> in_off + used \<and> made = []")
      case True
      then have "yields i (drop in_off raw) = []" using d Suc.prems(3) by auto
      then show ?thesis using step True by simp
    next
      case False
      then have made: "made \<noteq> []" using d(1,5) Suc.prems(2,3) by (cases made) auto
      then have pos: "1 \<le> length made" by (cases made) auto
      have room: "length (out @ made) < cap'"
        using d(2) Suc.prems(3) made unfolding cap'_def by (auto simp: vec_reserve_def)
      have y: "length (yields i (drop in_off raw)) = length made + length (yields i' (drop used (drop in_off raw)))"
        using d(3) by (metis length_append)
      have "fst (decompress_loop fl fuel i' dict raw (in_off + used) (out @ made) cap')
             = Inr ((out @ made) @ yields i' (drop (in_off + used) raw))"
        by (rule Suc.IH) (use d(1,4) Suc.prems y pos room in \<open>simp_all add: add.commute split: if_splits del: One_nat_def\<close>)
      with step False d(3) show ?thesis by (simp add: add.commute)
    qed
  qed
qed simp

subsection \<open>Frames\<close>

lemma u16_of_bytes: "of_nat (unat (of_nat (unat t div 256) :: 8 word) * 256 + unat (of_nat (unat t) :: 8 word)) = (t :: u16)"
proof -
  have "unat t < 65536" using unsigned_less [of t] by simp
  then have "unat t div 256 mod 256 * 256 + unat t mod 256 = unat t"
    using horner_byte [of "unat t" 256] by (simp only: mod_less [of _ 65536] mult_numeral_1) simp
  then show ?thesis unfolding unat_byte by (simp only:) simp
qed

lemma control_header_parts:
  "length (control_header t flags len) = 8" "control_header t flags len ! 4 = flags"
  "and (control_header t flags len ! 0) 0x80 \<noteq> 0"
  "control_header t flags len ! 2 = of_nat (unat t div 256)" "control_header t flags len ! 3 = of_nat (unat t)"
  "take 3 (drop 5 (control_header t flags len)) = wr_u24 len"
proof -
  show "length (control_header t flags len) = 8" by (simp add: control_header_def wr_u24_def)
  show "control_header t flags len ! 4 = flags" by (simp add: control_header_def)
  show "and (control_header t flags len ! 0) 0x80 \<noteq> 0" by (simp add: control_header_def SPDY_VERSION_def)
  show "control_header t flags len ! 2 = of_nat (unat t div 256)" by (simp add: control_header_def)
  show "control_header t flags len ! 3 = of_nat (unat t)" by (simp add: control_header_def)
  show "take 3 (drop 5 (control_header t flags len)) = wr_u24 len" by (simp add: control_header_def wr_u24_def)
qed

lemma parse_control_frame:
  assumes "length body < 16777216"
  shows "parse_frame fl (control_header t flags (length body) @ body @ rest)
         = pbind (parse_control fl t flags body) (\<lambda>f. pret (Some (f, 8 + length body)))"
  using assms control_header_parts [of t flags "length body"] u16_of_bytes [of t]
  by (simp add: parse_frame_def Let_def nth_append drop_append take_append)

lemma parse_partial:
  assumes "length body < 16777216" "n < length (front @ body)" "length front = 8"
    "take 3 (drop 5 front) = wr_u24 (length body)"
  shows "parse_frame fl (take n (front @ body)) nv = (Inr None, nv)"
proof (cases "n < 8")
  case False
  then have "take 3 (drop 5 (take n (front @ body))) = wr_u24 (length body)"
    using assms by (simp add: take_append drop_append min_def)
  moreover have "\<not> length (take n (front @ body)) < 8" "length (take n (front @ body)) < 8 + length body"
    using False assms by auto
  ultimately show ?thesis using assms(1) unfolding parse_frame_def by (simp add: Let_def prog_simps del: take_append)
qed (use assms in \<open>simp add: parse_frame_def prog_simps\<close>)

lemma masked_bound: "unat (stream_id_mask sid) < 2 ^ 31"
proof -
  have "stream_id_mask sid = take_bit 31 sid"
    unfolding stream_id_mask_def take_bit_eq_mask by (simp add: mask_eq_exp_minus_1)
  then have "unat (stream_id_mask sid) = take_bit 31 (unat sid)" by (simp only: unsigned_take_bit_eq)
  then show ?thesis by (simp add: take_bit_eq_mod)
qed

lemma byte_low:
  assumes "n < 128"
  shows "and (of_nat n :: 8 word) 0x80 = 0"
proof -
  have "(of_nat n :: 8 word) = take_bit 7 (of_nat n)"
    using assms by (simp add: take_bit_of_nat take_bit_nat_eq_self)
  moreover have "and (take_bit 7 w) (0x80 :: 8 word) = 0" for w :: "8 word"
    by (simp add: take_bit_eq_mask and.assoc mask_eq_exp_minus_1)
  ultimately show ?thesis by metis
qed

lemma data_not_control: "and (wr_u32 (stream_id_mask sid) ! 0) 0x80 = 0"
  using masked_bound [of sid] unfolding wr_u32_def nth_Cons_0 by (intro byte_low) simp

lemma parse_data_frame:
  assumes "length payload < 16777216"
  shows "parse_frame fl ((wr_u32 (stream_id_mask sid) @ [flags] @ wr_u24 (length payload)) @ payload @ rest) nv
         = (Inr (Some (Data (stream_id_mask sid) flags payload, 8 + length payload)), nv)"
  using assms data_not_control [of sid]
  by (simp add: parse_frame_def Let_def nth_append drop_append take_append prog_simps)

lemma u32_at_0: "u32_at 0 (wr_u32 v @ xs) = Inr v"
  by (simp add: u32_at_def slice_def)

lemma u32_at_4: "u32_at 4 (wr_u32 w @ wr_u32 v @ xs) = Inr v"
  by (simp add: u32_at_def slice_def)

lemma settings_entries_write:
  "list_all (\<lambda>(i, v). unat i < 16777216) es \<Longrightarrow>
   settings_entries (length es) (length pre) (pre @ concat (map (\<lambda>(i, v). [0] @ wr_u24 (unat i) @ wr_u32 v) es)) = es"
proof (induction es arbitrary: pre)
  case (Cons e es)
  obtain i v where e: "e = (i, v)" by (cases e)
  let ?h = "[0] @ wr_u24 (unat i) @ wr_u32 v"
  let ?c = "concat (map (\<lambda>(i, v). [0] @ wr_u24 (unat i) @ wr_u32 v) es)"
  have "settings_entries (length es) (length (pre @ ?h)) ((pre @ ?h) @ ?c) = es"
    using Cons.prems by (intro Cons.IH) simp
  then show ?case using Cons.prems by (simp add: e drop_append take_append)
qed simp

text \<open>What a frame must satisfy to fit the wire format, and the header block it carries.\<close>

definition masked :: "u32 \<Rightarrow> bool" where
  "masked sid \<longleftrightarrow> stream_id_mask sid = sid"

primrec frame_headers :: "spdy_frame \<Rightarrow> headers option" where
  "frame_headers (SynStream _ _ hs) = Some hs"
| "frame_headers (SynReply _ _ hs) = Some hs"
| "frame_headers (Headers _ _ hs) = Some hs"
| "frame_headers (RstStream _ _) = None"
| "frame_headers (Settings _) = None"
| "frame_headers (Ping _) = None"
| "frame_headers (GoAway _ _) = None"
| "frame_headers (WindowUpdate _ _) = None"
| "frame_headers (Data _ _ _) = None"

primrec frame_fits :: "spdy_frame \<Rightarrow> bool" where
  "frame_fits (SynStream sid _ hs) \<longleftrightarrow> masked sid \<and> headers_ok hs"
| "frame_fits (SynReply sid _ hs) \<longleftrightarrow> masked sid \<and> headers_ok hs"
| "frame_fits (Headers sid _ hs) \<longleftrightarrow> masked sid \<and> headers_ok hs"
| "frame_fits (RstStream sid _) \<longleftrightarrow> masked sid"
| "frame_fits (Settings es) \<longleftrightarrow> list_all (\<lambda>(i, v). unat i < 16777216) es \<and> 4 + 8 * length es < 16777216"
| "frame_fits (Ping _) \<longleftrightarrow> True"
| "frame_fits (GoAway sid _) \<longleftrightarrow> masked sid"
| "frame_fits (WindowUpdate sid d) \<longleftrightarrow> masked sid \<and> masked d"
| "frame_fits (Data sid _ payload) \<longleftrightarrow> masked sid \<and> length payload < 16777216"

text \<open>
  The two ends of a connection agree on a block: what the writer's stream owes for it is a valid
  continuation for the reader's stream, inflates to it, and does not outgrow it by 256 bytes or
  a frame.
\<close>

definition streams_agree ::
  "('d, 'i) flate \<Rightarrow> ('d \<Rightarrow> bytes \<Rightarrow> bytes) \<Rightarrow> (bool \<Rightarrow> 'i \<Rightarrow> bytes \<Rightarrow> bool) \<Rightarrow> ('i \<Rightarrow> bytes \<Rightarrow> bytes)
   \<Rightarrow> ('d, 'i) nv_codec \<Rightarrow> ('d, 'i) nv_codec \<Rightarrow> headers \<Rightarrow> bool" where
  "streams_agree fl owed valid yields nvw nvr hs \<longleftrightarrow>
     (let p = write_nv_block hs; c = owed (nv_deflate nvw) p in
      valid (nv_dict_set nvr) (nv_inflate nvr) c \<and> yields (nv_inflate nvr) c = p
      \<and> length c < length p + 256 \<and> length p + 266 < 16777216 \<and> length p + 3 \<le> fl_fuel fl)"

lemma compress_nv_agree:
  assumes "deflate_law fl owed" "streams_agree fl owed valid yields nvw nvr hs"
  shows "\<exists>nv'. compress_nv fl hs nvw = (Inr (owed (nv_deflate nvw) (write_nv_block hs)), nv')"
proof -
  have "write_nv_block hs \<noteq> []" by (simp add: write_nv_block_def wr_u32_def)
  then obtain z' where "compress_loop fl (fl_fuel fl) (nv_deflate nvw) (write_nv_block hs) 0 [] (length (write_nv_block hs))
      = (Inr (owed (nv_deflate nvw) (write_nv_block hs)), z')"
    using compress_loop_full [OF assms(1), of "nv_deflate nvw" "write_nv_block hs" "fl_fuel fl"] assms(2)
    by (auto simp: streams_agree_def Let_def)
  then show ?thesis by (simp add: compress_nv_def Let_def)
qed

lemma decompress_nv_agree:
  assumes "inflate_law fl valid yields" "streams_agree fl owed valid yields nvw nvr hs" "headers_ok hs"
  shows "\<exists>nv'. decompress_nv fl (owed (nv_deflate nvw) (write_nv_block hs)) nvr = (Inr hs, nv')"
proof -
  let ?c = "owed (nv_deflate nvw) (write_nv_block hs)"
  have "fst (decompress_loop fl (fl_fuel fl) (nv_inflate nvr) (nv_dict_set nvr) ?c 0 [] (length ?c * 4 + 64))
        = Inr (write_nv_block hs)"
    using decompress_loop_full [OF assms(1), of "nv_dict_set nvr" "nv_inflate nvr" 0 ?c "[]" "length ?c * 4 + 64" "fl_fuel fl"]
      assms(2) by (simp add: streams_agree_def Let_def)
  then show ?thesis
    using read_write_nv [OF assms(3)] by (auto simp: decompress_nv_def split: prod.splits)
qed

text \<open>A frame with headers: the fixed part in front of the block is skipped by the parser.\<close>

lemma headed_roundtrip:
  assumes law: "deflate_law fl owed" "inflate_law fl valid yields"
    and agree: "streams_agree fl owed valid yields nvw nvr hs" and hs: "headers_ok hs" and sid: "masked sid"
    and front: "front = wr_u32 (stream_id_mask sid) @ pad" "length front \<le> 10"
    and ctl: "\<And>body. parse_control fl t flags body = headed fl (length front) mk body"
  shows "\<exists>out nv'. write_headed fl t flags front hs nvw = (Inr out, nv')
     \<and> (\<forall>rest. fst (parse_frame fl (out @ rest) nvr) = Inr (Some (mk sid hs, length out)))
     \<and> (\<forall>n < length out. parse_frame fl (take n out) nvr = (Inr None, nvr))"
proof -
  define c where "c = owed (nv_deflate nvw) (write_nv_block hs)"
  obtain nv' where w: "compress_nv fl hs nvw = (Inr c, nv')"
    using compress_nv_agree [OF law(1) agree] unfolding c_def by blast
  obtain nv'' where r: "decompress_nv fl c nvr = (Inr hs, nv'')"
    using decompress_nv_agree [OF law(2) agree hs] unfolding c_def by blast
  define out where "out = control_header t flags (length (front @ c)) @ front @ c"
  have len: "length (front @ c) < 16777216"
    using agree front(2) unfolding c_def by (simp add: streams_agree_def Let_def)
  have "write_headed fl t flags front hs nvw = (Inr out, nv')"
    using w by (simp add: write_headed_def out_def prog_simps)
  moreover have "fst (parse_frame fl (out @ rest) nvr) = Inr (Some (mk sid hs, length out))" for rest
  proof -
    have "headed fl (length front) mk (front @ c) nvr = (Inr (mk sid hs), nv'')"
      using r sid u32_at_0 [of "stream_id_mask sid" "pad @ c"]
      by (simp add: headed_def slice_from_def prog_simps masked_def front(1))
    then show ?thesis
      using parse_control_frame [OF len, of fl t flags rest]
      by (simp add: out_def ctl prog_simps control_header_parts)
  qed
  moreover have "parse_frame fl (take n out) nvr = (Inr None, nvr)" if "n < length out" for n
    using parse_partial [OF len, of n "control_header t flags (length (front @ c))"] that
    by (simp add: out_def control_header_parts)
  ultimately show ?thesis by blast
qed

lemma plain_roundtrip:
  assumes "length body < 16777216" "parse_control fl t 0 body nvr = (Inr f, nvr)"
  shows "fst (parse_frame fl ((control_header t 0 (length body) @ body) @ rest) nvr)
           = Inr (Some (f, length (control_header t 0 (length body) @ body)))"
    and "n < length (control_header t 0 (length body) @ body) \<Longrightarrow>
         parse_frame fl (take n (control_header t 0 (length body) @ body)) nvr = (Inr None, nvr)"
  using assms parse_control_frame [OF assms(1), of fl t 0 rest]
    parse_partial [OF assms(1), of n "control_header t 0 (length body)"]
  by (simp_all add: prog_simps control_header_parts)

text \<open>The frames without a header block.\<close>

lemma plain_frames:
  assumes "frame_fits f" "frame_headers f = None"
  shows "\<exists>out nv'. write_frame fl f nvw = (Inr out, nv')
     \<and> (\<forall>rest. fst (parse_frame fl (out @ rest) nvr) = Inr (Some (f, length out)))
     \<and> (\<forall>n < length out. parse_frame fl (take n out) nvr = (Inr None, nvr))"
proof (cases f)
  case (RstStream sid st)
  let ?b = "wr_u32 (stream_id_mask sid) @ wr_u32 st"
  have "parse_control fl TYPE_RST_STREAM 0 ?b nvr = (Inr f, nvr)"
    using RstStream assms(1) u32_at_0 [of "stream_id_mask sid" "wr_u32 st"] u32_at_4 [of "stream_id_mask sid" st "[]"]
    by (simp add: parse_control_def spdy_types prog_simps masked_def)
  from plain_roundtrip [OF _ this] show ?thesis using RstStream by (simp add: prog_simps)
next
  case (GoAway sid st)
  let ?b = "wr_u32 (stream_id_mask sid) @ wr_u32 st"
  have "parse_control fl TYPE_GOAWAY 0 ?b nvr = (Inr f, nvr)"
    using GoAway assms(1) u32_at_0 [of "stream_id_mask sid" "wr_u32 st"] u32_at_4 [of "stream_id_mask sid" st "[]"]
    by (simp add: parse_control_def spdy_types prog_simps masked_def)
  from plain_roundtrip [OF _ this] show ?thesis using GoAway by (simp add: prog_simps)
next
  case (WindowUpdate sid d)
  let ?b = "wr_u32 (stream_id_mask sid) @ wr_u32 (stream_id_mask d)"
  have "parse_control fl TYPE_WINDOW_UPDATE 0 ?b nvr = (Inr f, nvr)"
    using WindowUpdate assms(1) u32_at_0 [of "stream_id_mask sid" "wr_u32 (stream_id_mask d)"]
      u32_at_4 [of "stream_id_mask sid" "stream_id_mask d" "[]"]
    by (simp add: parse_control_def spdy_types prog_simps masked_def)
  from plain_roundtrip [OF _ this] show ?thesis using WindowUpdate by (simp add: prog_simps)
next
  case (Ping i)
  have "parse_control fl TYPE_PING 0 (wr_u32 i) nvr = (Inr f, nvr)"
    using Ping u32_at_0 [of i "[]"] by (simp add: parse_control_def spdy_types prog_simps)
  from plain_roundtrip [OF _ this] show ?thesis using Ping by (simp add: prog_simps)
next
  case (Settings es)
  let ?n = "wr_u32 (of_nat (length es))" and ?c = "concat (map (\<lambda>(i, v). [0] @ wr_u24 (unat i) @ wr_u32 v) es)"
  have len: "length ?c = 8 * length es" by (induction es) (auto split: prod.splits)
  have "settings_entries (length es) 4 (?n @ ?c) = es"
    using settings_entries_write [of es ?n] Settings assms(1) by simp
  then have p: "parse_control fl TYPE_SETTINGS 0 (?n @ ?c) nvr = (Inr f, nvr)"
    using Settings assms(1) u32_at_0 [of "of_nat (length es)" ?c]
    by (simp add: parse_control_def spdy_types prog_simps unat_len)
  have "length (?n @ ?c) = 4 + length es * 8" using len by simp
  with plain_roundtrip [OF _ p] show ?thesis using Settings assms(1) len by (simp add: prog_simps)
next
  case (Data sid flags payload)
  let ?h = "wr_u32 (stream_id_mask sid) @ [flags] @ wr_u24 (length payload)"
  have "parse_frame fl (?h @ payload @ rest) nvr = (Inr (Some (f, 8 + length payload)), nvr)" for rest
    using parse_data_frame [of payload fl sid flags rest nvr] Data assms(1) by (simp add: masked_def)
  moreover have "parse_frame fl (take n (?h @ payload)) nvr = (Inr None, nvr)" if "n < length (?h @ payload)" for n
    using parse_partial [of payload n ?h fl nvr] that Data assms(1) by simp
  ultimately show ?thesis using Data by (simp add: prog_simps)
qed (use assms(2) in simp_all)

text \<open>C32. Every frame that fits the wire format survives it: \<open>write_frame\<close> returns the bytes of the
  frame, \<open>parse_frame\<close> reads the same frame back from any buffer that starts with them and
  consumes exactly them, and while the frame has not arrived whole \<open>parse_frame\<close> asks for more
  and leaves the compression streams alone. For frames with headers this rests on what \<open>zlib\<close>
  documents of one call and on the two ends' streams agreeing on the block.\<close>

theorem spdy_frame_roundtrip:
  assumes "deflate_law fl owed" "inflate_law fl valid yields" "frame_fits f"
    and "\<And>hs. frame_headers f = Some hs \<Longrightarrow> streams_agree fl owed valid yields nvw nvr hs"
  shows "\<exists>out nv'. write_frame fl f nvw = (Inr out, nv')
     \<and> (\<forall>rest. fst (parse_frame fl (out @ rest) nvr) = Inr (Some (f, length out)))
     \<and> (\<forall>n < length out. parse_frame fl (take n out) nvr = (Inr None, nvr))"
proof (cases f)
  case (SynStream sid flags hs)
  then show ?thesis
    using headed_roundtrip [OF assms(1,2,4), of hs sid "wr_u32 (stream_id_mask sid) @ wr_u32 0 @ [0, 0]" "wr_u32 0 @ [0, 0]"
        TYPE_SYN_STREAM flags "\<lambda>sid hs. SynStream sid flags hs"] assms(3)
    by (simp add: parse_control_def)
next
  case (SynReply sid flags hs)
  then show ?thesis
    using headed_roundtrip [OF assms(1,2,4), of hs sid "wr_u32 (stream_id_mask sid)" "[]"
        TYPE_SYN_REPLY flags "\<lambda>sid hs. SynReply sid flags hs"] assms(3)
    by (simp add: parse_control_def spdy_types)
next
  case (Headers sid flags hs)
  then show ?thesis
    using headed_roundtrip [OF assms(1,2,4), of hs sid "wr_u32 (stream_id_mask sid)" "[]"
        TYPE_HEADERS flags "\<lambda>sid hs. Headers sid flags hs"] assms(3)
    by (simp add: parse_control_def spdy_types)
qed ((rule plain_frames [OF assms(3)], simp)+)

text \<open>A stream that stores its input as it is, and asks for the dictionary first.\<close>

definition stored_flate :: "(unit, bool) flate" where
  "stored_flate = \<lparr>fl_new_deflate = (), fl_new_inflate = False, fl_deflate_dictionary = (\<lambda>z d. z),
     fl_inflate_dictionary = (\<lambda>i d. Some True),
     fl_compress = (\<lambda>z inp r. (Some (length (take r inp), take r inp), z)),
     fl_decompress = (\<lambda>i inp r. if i then (FlOk, length (take r inp), take r inp, i) else (FlNeedsDictionary, 0, [], i)),
     fl_fuel = 200\<rparr>"

lemma take_drop_min: "take r inp @ drop (min (length inp) r) inp = inp"
  by (cases "length inp \<le> r") auto

lemma stored_deflate: "deflate_law stored_flate (\<lambda>z inp. inp)"
  by (auto simp: deflate_law_def stored_flate_def take_drop_min)

lemma stored_inflate: "inflate_law stored_flate (\<lambda>dict i inp. dict = i) (\<lambda>i inp. inp)"
  by (auto simp: inflate_law_def stored_flate_def take_drop_min)

theorem spdy_frame_roundtrip_witness:
  "\<exists>out nv'. write_frame stored_flate (SynStream 3 1 [(''streamType'', ''stdout'')]) (nv_new stored_flate) = (Inr out, nv')
     \<and> (\<forall>rest. fst (parse_frame stored_flate (out @ rest) (nv_new stored_flate))
          = Inr (Some (SynStream 3 1 [(''streamType'', ''stdout'')], length out)))
     \<and> (\<forall>n < length out. parse_frame stored_flate (take n out) (nv_new stored_flate) = (Inr None, nv_new stored_flate))"
proof -
  have "is_utf8 ''streamType''" "is_utf8 ''stdout''" by (rule ascii_is_utf8, simp)+
  then have "frame_fits (SynStream 3 1 [(''streamType'', ''stdout'')])"
    by (simp add: masked_def stream_id_mask_def headers_ok_def text_ok_def)
  moreover have "streams_agree stored_flate (\<lambda>z inp. inp) (\<lambda>dict i inp. dict = i) (\<lambda>i inp. inp)
      (nv_new stored_flate) (nv_new stored_flate) [(''streamType'', ''stdout'')]"
    by (simp add: streams_agree_def nv_new_def stored_flate_def write_nv_block_def nv_text_def str_bytes_def)
  ultimately show ?thesis
    by (intro spdy_frame_roundtrip [OF stored_deflate stored_inflate]) auto
qed

subsection \<open>What a peer can do\<close>

text \<open>A peer can make the parser panic: a control frame of one of the known types whose body
  is shorter than its fixed part is cut out of range, whatever the state of the streams. The body
  of an unknown type is skipped.\<close>

theorem parse_frame_panics:
  assumes "t \<in> {TYPE_SYN_STREAM, TYPE_SYN_REPLY, TYPE_HEADERS, TYPE_RST_STREAM, TYPE_SETTINGS, TYPE_PING,
                 TYPE_GOAWAY, TYPE_WINDOW_UPDATE}" "length body < 4"
  shows "fst (parse_frame fl (control_header t flags (length body) @ body @ rest) nv) = Inl SpdyPanic"
proof -
  have "length body < 16777216" using assms(2) by simp
  moreover have "fst (parse_control fl t flags body nv) = Inl SpdyPanic"
    using assms by (auto simp: parse_control_def headed_def u32_at_def slice_def spdy_types prog_simps)
  ultimately show ?thesis
    using parse_control_frame [of body fl t flags rest] by (auto simp: prog_simps split: prod.splits sum.splits)
qed

theorem parse_frame_panics_witness:
  "fst (parse_frame stored_flate (control_header TYPE_PING 0 (length [1 :: u8, 2]) @ [1, 2] @ []) (nv_new stored_flate)) = Inl SpdyPanic"
  by (rule parse_frame_panics) simp_all

text \<open>C40. A peer can make the connection's reader spin: once the inflating stream has seen the end of
  the \<open>zlib\<close> data it uses no input and gives no output, and for a header block with bytes left
  the loop of \<open>decompress_nv\<close> then never ends, with whatever fuel.\<close>

theorem decompress_nv_spins:
  assumes ended: "\<And>inp r. fl_decompress fl (nv_inflate nv) inp r = (FlOk, 0, [], nv_inflate nv)"
    and "raw \<noteq> []"
  shows "fst (decompress_nv (fl\<lparr>fl_fuel := fuel\<rparr>) raw nv) = Inl SpdyFuel"
proof -
  have "fst (decompress_loop (fl\<lparr>fl_fuel := fuel\<rparr>) n (nv_inflate nv) dict raw 0 [] cap) = Inl SpdyFuel" for n dict cap
    using assms by (induction n arbitrary: cap) (simp_all add: Let_def)
  then show ?thesis by (simp add: decompress_nv_def split: prod.splits) (metis fst_conv rbind_simps(1))
qed

definition ended_flate :: "(unit, unit) flate" where
  "ended_flate = \<lparr>fl_new_deflate = (), fl_new_inflate = (), fl_deflate_dictionary = (\<lambda>z d. z),
     fl_inflate_dictionary = (\<lambda>i d. Some i), fl_compress = (\<lambda>z inp r. (Some (0, []), z)),
     fl_decompress = (\<lambda>i inp r. (FlOk, 0, [], i)), fl_fuel = 0\<rparr>"

theorem decompress_nv_spins_witness:
  "fst (decompress_nv (ended_flate\<lparr>fl_fuel := 5\<rparr>) [0] (nv_new ended_flate)) = Inl SpdyFuel"
  by (rule decompress_nv_spins) (simp_all add: ended_flate_def)

end
