(* ===== verification/Spdy_Mux.thy ===== *)
theory Spdy_Mux
  imports Spdy_Properties Rust_Text
begin

section \<open>The SPDY connection\<close>

text \<open>
  \<open>crates/cri/src/spdy.rs\<close>, the connection half: the writer handle, \<open>serve\<close> and \<open>read_loop\<close>.
  The socket is a parameter (\<open>se_write\<close> says whether a write and its flush succeed), and so is
  the consumer of new streams, which may have gone away (\<open>se_accepting\<close>). Channels are numbered
  in the order they are made; what goes through them is the list \<open>sc_events\<close>. The end of the
  reader is a value: \<open>MuxPanic\<close> and \<open>MuxSpin\<close> are the two ends no test of the source intends.
\<close>

datatype spdy_event = EvOpen nat u32 headers | EvData nat bytes | EvClose nat

datatype mux_end = MuxMore | MuxClosed | MuxPanic | MuxSpin

record ('d, 'i, 'w) spdy_env =
  se_flate :: "('d, 'i) flate"
  se_write :: "bytes \<Rightarrow> 'w \<Rightarrow> bool \<times> 'w"
  se_accepting :: "nat \<Rightarrow> bool"

record ('d, 'i, 'w) spdy_conn =
  sc_reader :: "('d, 'i) nv_codec"
  sc_writer :: "('d, 'i) nv_codec"
  sc_sink :: "'w"
  sc_buf :: bytes
  sc_streams :: "u32 \<Rightarrow> nat option"
  sc_opened :: nat
  sc_events :: "spdy_event list"

subsection \<open>Writing\<close>

definition spdy_write ::
  "('d, 'i, 'w) spdy_env \<Rightarrow> spdy_frame \<Rightarrow> (('d, 'i, 'w) spdy_conn, spdy_error, unit) prog" where
  "spdy_write env f c =
     (case write_frame (se_flate env) f (sc_writer c) of
        (Inl e, nv) \<Rightarrow> (Inl e, c\<lparr>sc_writer := nv\<rparr>)
      | (Inr buf, nv) \<Rightarrow>
          (let (good, w) = se_write env buf (sc_sink c) in
           (if good then Inr () else Inl (SpdyErr ''io''), c\<lparr>sc_writer := nv, sc_sink := w\<rparr>)))"

definition syn_reply :: "('d, 'i, 'w) spdy_env \<Rightarrow> u32 \<Rightarrow> (('d, 'i, 'w) spdy_conn, spdy_error, unit) prog" where
  "syn_reply env sid = spdy_write env (SynReply sid 0 [])"

definition send_data ::
  "('d, 'i, 'w) spdy_env \<Rightarrow> u32 \<Rightarrow> bool \<Rightarrow> bytes \<Rightarrow> (('d, 'i, 'w) spdy_conn, spdy_error, unit) prog" where
  "send_data env sid fin payload = spdy_write env (Data sid (if fin then FLAG_FIN else 0) payload)"

definition spdy_rst :: "('d, 'i, 'w) spdy_env \<Rightarrow> u32 \<Rightarrow> u32 \<Rightarrow> (('d, 'i, 'w) spdy_conn, spdy_error, unit) prog" where
  "spdy_rst env sid st = spdy_write env (RstStream sid st)"

definition spdy_goaway :: "('d, 'i, 'w) spdy_env \<Rightarrow> u32 \<Rightarrow> (('d, 'i, 'w) spdy_conn, spdy_error, unit) prog" where
  "spdy_goaway env sid = spdy_write env (GoAway sid 0)"

subsection \<open>The read loop\<close>

text \<open>Removing an entry of the stream table drops its sender, which closes the receiver.\<close>

definition close_stream :: "u32 \<Rightarrow> ('d, 'i, 'w) spdy_conn \<Rightarrow> ('d, 'i, 'w) spdy_conn" where
  "close_stream sid c =
     (case sc_streams c sid of
        None \<Rightarrow> c
      | Some ch \<Rightarrow> c\<lparr>sc_streams := (sc_streams c)(sid := None), sc_events := sc_events c @ [EvClose ch]\<rparr>)"

definition open_stream ::
  "('d, 'i, 'w) spdy_env \<Rightarrow> u32 \<Rightarrow> headers \<Rightarrow> ('d, 'i, 'w) spdy_conn \<Rightarrow> bool \<times> ('d, 'i, 'w) spdy_conn" where
  "open_stream env sid hs c =
     (let ch = sc_opened c; c = close_stream sid c;
          c = c\<lparr>sc_streams := (sc_streams c)(sid \<mapsto> ch), sc_opened := ch + 1\<rparr> in
      if se_accepting env ch then (True, c\<lparr>sc_events := sc_events c @ [EvOpen ch sid hs]\<rparr>) else (False, c))"

definition deliver :: "u32 \<Rightarrow> bytes \<Rightarrow> ('d, 'i, 'w) spdy_conn \<Rightarrow> ('d, 'i, 'w) spdy_conn" where
  "deliver sid payload c =
     (if payload = [] then c
      else case sc_streams c sid of
             None \<Rightarrow> c
           | Some ch \<Rightarrow> c\<lparr>sc_events := sc_events c @ [EvData ch payload]\<rparr>)"

text \<open>One parsed frame; \<open>False\<close> is the \<open>return\<close> of the reader.\<close>

definition handle_frame ::
  "('d, 'i, 'w) spdy_env \<Rightarrow> spdy_frame \<Rightarrow> ('d, 'i, 'w) spdy_conn \<Rightarrow> bool \<times> ('d, 'i, 'w) spdy_conn" where
  "handle_frame env f c =
     (case f of
        SynStream sid _ hs \<Rightarrow>
          (case syn_reply env sid c of
             (Inl _, c) \<Rightarrow> (False, c)
           | (Inr _, c) \<Rightarrow> open_stream env sid hs c)
      | Data sid flags payload \<Rightarrow>
          (let c = deliver sid payload c in
           (True, if and flags FLAG_FIN \<noteq> 0 then close_stream sid c else c))
      | Ping i \<Rightarrow> (True, snd (spdy_write env (Ping i) c))
      | RstStream sid _ \<Rightarrow> (True, close_stream sid c)
      | GoAway _ _ \<Rightarrow> (False, c)
      | _ \<Rightarrow> (True, c))"

lemma parse_frame_consumes:
  assumes "parse_frame fl buf nv = (Inr (Some (f, n)), nv')"
  shows "8 \<le> n \<and> n \<le> length buf"
  using assms by (auto simp: parse_frame_def Let_def prog_Inr split: if_splits)

lemma close_stream_buf [simp]: "sc_buf (close_stream sid c) = sc_buf c"
  by (simp add: close_stream_def split: option.splits)

lemma spdy_write_buf [simp]: "sc_buf (snd (spdy_write env f c)) = sc_buf c"
  by (auto simp: spdy_write_def split: prod.splits sum.splits)

lemma handle_frame_buf: "sc_buf (snd (handle_frame env f c)) = sc_buf c"
  using spdy_write_buf [of env "SynReply s 0 []" c for s]
  by (auto simp: handle_frame_def open_stream_def deliver_def syn_reply_def Let_def
      split: spdy_frame.splits option.splits prod.splits sum.splits) (metis snd_conv spdy_write_buf)+

lemma drain_shrinks:
  assumes "parse_frame fl (sc_buf c) (sc_reader c) = (Inr (Some (f, n)), nv)"
    and "handle_frame env f (c\<lparr>sc_reader := nv, sc_buf := drop n (sc_buf c)\<rparr>) = (go, c')"
  shows "length (sc_buf c') < length (sc_buf c)"
  using parse_frame_consumes [OF assms(1)] handle_frame_buf [of env f "c\<lparr>sc_reader := nv, sc_buf := drop n (sc_buf c)\<rparr>"]
  by (auto simp: assms(2))

function (sequential) drain ::
  "('d, 'i, 'w) spdy_env \<Rightarrow> ('d, 'i, 'w) spdy_conn \<Rightarrow> mux_end \<times> ('d, 'i, 'w) spdy_conn" where
  "drain env c =
     (case parse_frame (se_flate env) (sc_buf c) (sc_reader c) of
        (Inl SpdyPanic, nv) \<Rightarrow> (MuxPanic, c\<lparr>sc_reader := nv\<rparr>)
      | (Inl SpdyFuel, nv) \<Rightarrow> (MuxSpin, c\<lparr>sc_reader := nv\<rparr>)
      | (Inl (SpdyErr _), nv) \<Rightarrow> (MuxClosed, c\<lparr>sc_reader := nv\<rparr>)
      | (Inr None, nv) \<Rightarrow> (MuxMore, c\<lparr>sc_reader := nv\<rparr>)
      | (Inr (Some (f, n)), nv) \<Rightarrow>
          (case handle_frame env f (c\<lparr>sc_reader := nv, sc_buf := drop n (sc_buf c)\<rparr>) of
             (True, c') \<Rightarrow> drain env c'
           | (False, c') \<Rightarrow> (MuxClosed, c')))"
  by pat_completeness auto
termination
  by (relation "measure (\<lambda>(env, c). length (sc_buf c))") (auto dest!: sym [of _ "parse_frame _ _ _"] sym [of _ "handle_frame _ _ _"] intro: drain_shrinks)

declare drain.simps [simp del]

text \<open>The reads of the socket: a chunk of no bytes is the end of the connection.\<close>

fun read_loop ::
  "('d, 'i, 'w) spdy_env \<Rightarrow> bytes list \<Rightarrow> ('d, 'i, 'w) spdy_conn \<Rightarrow> mux_end \<times> ('d, 'i, 'w) spdy_conn" where
  "read_loop env chunks c =
     (case drain env c of
        (MuxMore, c) \<Rightarrow>
          (case chunks of
             [] \<Rightarrow> (MuxClosed, c)
           | chunk # rest \<Rightarrow>
               if chunk = [] then (MuxClosed, c)
               else read_loop env rest (c\<lparr>sc_buf := sc_buf c @ chunk\<rparr>))
      | r \<Rightarrow> r)"

declare read_loop.simps [simp del]

definition new_conn :: "('d, 'i, 'w) spdy_env \<Rightarrow> 'w \<Rightarrow> ('d, 'i, 'w) spdy_conn" where
  "new_conn env w =
     \<lparr>sc_reader = nv_new (se_flate env), sc_writer = nv_new (se_flate env), sc_sink = w, sc_buf = [],
      sc_streams = (\<lambda>_. None), sc_opened = 0, sc_events = []\<rparr>"

definition spdy_serve ::
  "('d, 'i, 'w) spdy_env \<Rightarrow> bytes list \<Rightarrow> 'w \<Rightarrow> spdy_error + mux_end \<times> ('d, 'i, 'w) spdy_conn" where
  "spdy_serve env chunks w =
     (case spdy_write env (Settings [(SETTINGS_INITIAL_WINDOW_SIZE, BIG_WINDOW)]) (new_conn env w) of
        (Inl e, _) \<Rightarrow> Inl e
      | (Inr _, c) \<Rightarrow> Inr (read_loop env chunks c))"

subsection \<open>Messages on the streams\<close>

text \<open>\<open>serde_json\<close>'s reader and printer are arguments; a width beyond \<open>u16\<close> is cut, as \<open>as u16\<close> does.\<close>

definition HEADER_STREAM_TYPE :: string where "HEADER_STREAM_TYPE = ''streamType''"

definition stream_type :: "headers \<Rightarrow> string option" where
  "stream_type hs = header hs HEADER_STREAM_TYPE"

definition as_u64 :: "json \<Rightarrow> u64 option" where
  "as_u64 j = (case j of JNum n \<Rightarrow> if 0 \<le> n \<and> n < 2 ^ 64 then Some (of_int n) else None | _ \<Rightarrow> None)"

definition parse_resize :: "(bytes \<Rightarrow> json option) \<Rightarrow> bytes \<Rightarrow> (u16 \<times> u16) option" where
  "parse_resize from_slice msg =
     Option.bind (from_slice msg) (\<lambda>v.
     Option.bind (Option.bind (j_get ''Width'' v) as_u64) (\<lambda>w.
     Option.bind (Option.bind (j_get ''Height'' v) as_u64) (\<lambda>h. Some (ucast w, ucast h))))"

definition status_success :: bytes where
  "status_success = str_bytes ''{\"status\":\"Success\"}''"

definition status_failure :: "(json \<Rightarrow> string) \<Rightarrow> string \<Rightarrow> bytes" where
  "status_failure show msg = str_bytes (show (JObj [(''status'', JStr ''Failure''), (''message'', JStr msg)]))"

definition status_exit :: "(json \<Rightarrow> string) \<Rightarrow> int \<Rightarrow> bytes" where
  "status_exit show code =
     (if code = 0 then status_success
      else str_bytes (show (JObj [(''status'', JStr ''Failure''), (''reason'', JStr ''NonZeroExitCode''),
        (''details'', JObj [(''causes'', JArr [JObj [(''reason'', JStr ''ExitCode''), (''message'', JStr (dec_int code))]])])])))"

subsection \<open>How the bytes are cut does not matter\<close>

lemma parse_frame_more:
  assumes "parse_frame fl buf nv = (r, nv')" "r \<noteq> Inr None"
  shows "parse_frame fl (buf @ x) nv = (r, nv')"
proof -
  have len: "8 \<le> length buf" "8 + rd_u24 (take 3 (drop 5 buf)) \<le> length buf"
    using assms by (auto simp: parse_frame_def Let_def prog_simps split: if_splits)
  then have at: "(buf @ x) ! 0 = buf ! 0" "(buf @ x) ! 2 = buf ! 2" "(buf @ x) ! 3 = buf ! 3" "(buf @ x) ! 4 = buf ! 4"
    by (auto simp: nth_append)
  have "parse_frame fl (buf @ x) = parse_frame fl buf"
    unfolding parse_frame_def at Let_def using len by simp
  with assms(1) show ?thesis by simp
qed

lemma parse_frame_none:
  assumes "parse_frame fl buf nv = (Inr None, nv')"
  shows "nv' = nv"
  using assms by (auto simp: parse_frame_def Let_def prog_eq split: if_splits)

definition with_buf :: "bytes \<Rightarrow> ('d, 'i, 'w) spdy_conn \<Rightarrow> ('d, 'i, 'w) spdy_conn" where
  "with_buf x c = c\<lparr>sc_buf := sc_buf c @ x\<rparr>"

lemma spdy_write_frame: "spdy_write env f (with_buf x c) = map_prod id (with_buf x) (spdy_write env f c)"
  by (auto simp: spdy_write_def with_buf_def split: prod.splits sum.splits)

lemma close_stream_frame: "close_stream sid (with_buf x c) = with_buf x (close_stream sid c)"
  by (auto simp: close_stream_def with_buf_def split: option.splits)

lemma handle_frame_frame: "handle_frame env f (with_buf x c) = map_prod id (with_buf x) (handle_frame env f c)"
proof (cases f)
  case (SynStream sid flags hs)
  then show ?thesis
    by (auto simp: handle_frame_def syn_reply_def spdy_write_frame open_stream_def close_stream_frame Let_def
        split: prod.splits sum.splits) (simp_all add: with_buf_def)
next
  case (Data sid flags payload)
  have "deliver sid payload (with_buf x c) = with_buf x (deliver sid payload c)"
    by (auto simp: deliver_def with_buf_def split: option.splits)
  with Data show ?thesis by (simp add: handle_frame_def Let_def close_stream_frame)
qed (simp_all add: handle_frame_def close_stream_frame spdy_write_frame)

lemma drain_more:
  "drain env (with_buf x c) =
     (case drain env c of
        (MuxMore, c') \<Rightarrow> drain env (with_buf x c')
      | (r, c') \<Rightarrow> (r, with_buf x c'))"
proof (induction env c rule: drain.induct)
  case (1 env c)
  obtain r nv where p: "parse_frame (se_flate env) (sc_buf c) (sc_reader c) = (r, nv)"
    by (cases "parse_frame (se_flate env) (sc_buf c) (sc_reader c)")
  show ?case
  proof (cases "r = Inr None")
    case True
    with p parse_frame_none have "nv = sc_reader c" by blast
    with True p show ?thesis by (simp add: drain.simps [of env c])
  next
    case False
    have q: "parse_frame (se_flate env) (sc_buf (with_buf x c)) (sc_reader (with_buf x c)) = (r, nv)"
      using parse_frame_more [OF p False] by (simp add: with_buf_def)
    show ?thesis
    proof (cases r)
      case (Inl e)
      with p q show ?thesis
        by (cases e) (simp_all add: drain.simps [of env c] drain.simps [of env "with_buf x c"], simp_all add: with_buf_def)
    next
      case (Inr o')
      with False obtain f n where o': "r = Inr (Some (f, n))" by (cases o') auto
      have cut: "(with_buf x c)\<lparr>sc_reader := nv, sc_buf := drop n (sc_buf (with_buf x c))\<rparr>
                 = with_buf x (c\<lparr>sc_reader := nv, sc_buf := drop n (sc_buf c)\<rparr>)"
        using parse_frame_consumes p o' by (fastforce simp: with_buf_def)
      obtain go c' where h: "handle_frame env f (c\<lparr>sc_reader := nv, sc_buf := drop n (sc_buf c)\<rparr>) = (go, c')"
        by (cases "handle_frame env f (c\<lparr>sc_reader := nv, sc_buf := drop n (sc_buf c)\<rparr>)")
      then have h': "handle_frame env f ((with_buf x c)\<lparr>sc_reader := nv, sc_buf := drop n (sc_buf (with_buf x c))\<rparr>)
                     = (go, with_buf x c')"
        unfolding cut by (simp add: handle_frame_frame)
      show ?thesis
        using p q o' h h' 1 by (cases go) (simp_all add: drain.simps [of env c] drain.simps [of env "with_buf x c"])
    qed
  qed
qed

lemma with_buf_simps [simp]:
  "with_buf x (with_buf y c) = with_buf (y @ x) c" "with_buf [] c = c"
  "(with_buf x c)\<lparr>sc_buf := b\<rparr> = c\<lparr>sc_buf := b\<rparr>"
  by (simp_all add: with_buf_def)

definition at_eof :: "mux_end \<Rightarrow> mux_end" where
  "at_eof r = (if r = MuxMore then MuxClosed else r)"

lemma read_loop_drain:
  assumes "list_all (\<lambda>chunk. chunk \<noteq> []) chunks"
  shows "map_prod id (sc_buf_update (\<lambda>_. [])) (read_loop env chunks c)
         = map_prod at_eof (sc_buf_update (\<lambda>_. [])) (drain env (with_buf (concat chunks) c))"
  using assms
proof (induction chunks arbitrary: c)
  case Nil
  show ?case by (cases "drain env c") (auto simp: read_loop.simps at_eof_def split: mux_end.splits)
next
  case (Cons chunk rest)
  obtain r c1 where d: "drain env c = (r, c1)" by (cases "drain env c")
  show ?case
  proof (cases "r = MuxMore")
    case True
    then have "read_loop env (chunk # rest) c = read_loop env rest (with_buf chunk c1)"
      using d Cons.prems by (simp add: read_loop.simps [of env "chunk # rest"] with_buf_def)
    then show ?thesis
      using True d Cons.IH [of "with_buf chunk c1"] Cons.prems drain_more [of env "chunk @ concat rest" c] by simp
  next
    case False
    then show ?thesis
      using d drain_more [of env "chunk @ concat rest" c]
      by (cases r) (simp_all add: read_loop.simps [of env "chunk # rest"] at_eof_def)
  qed
qed

text \<open>C22. How the network cuts the byte stream does not matter: two sequences of non-empty reads
  with the same bytes end the same way, with the same streams opened, the same data delivered in
  the same order, the same answers written and the same state of every stream; only the bytes
  left unread in the buffer may differ when the reader stops early.\<close>

theorem read_loop_chunking:
  assumes "concat xs = concat ys" "list_all (\<lambda>chunk. chunk \<noteq> []) xs" "list_all (\<lambda>chunk. chunk \<noteq> []) ys"
  shows "map_prod id (sc_buf_update (\<lambda>_. [])) (read_loop env xs c)
         = map_prod id (sc_buf_update (\<lambda>_. [])) (read_loop env ys c)"
  using read_loop_drain [OF assms(2), of env c] read_loop_drain [OF assms(3), of env c] assms(1) by simp

definition sample_env :: "(unit, bool, bytes) spdy_env" where
  "sample_env = \<lparr>se_flate = stored_flate, se_write = (\<lambda>b w. (True, w @ b)), se_accepting = (\<lambda>_. True)\<rparr>"

definition sample_wire :: bytes where
  "sample_wire = [128, 3, 0, 6, 0, 0, 0, 4, 0, 0, 0, 9]"

theorem read_loop_chunking_witness:
  "map_prod id (sc_buf_update (\<lambda>_. [])) (read_loop sample_env [take 5 sample_wire, drop 5 sample_wire] (new_conn sample_env []))
   = map_prod id (sc_buf_update (\<lambda>_. [])) (read_loop sample_env [sample_wire] (new_conn sample_env []))"
  by (rule read_loop_chunking) (simp_all add: sample_wire_def)

subsection \<open>What arrives on a stream\<close>

text \<open>The frames of a connection one after the other, until the reader returns.\<close>

primrec handle_frames ::
  "('d, 'i, 'w) spdy_env \<Rightarrow> spdy_frame list \<Rightarrow> ('d, 'i, 'w) spdy_conn \<Rightarrow> bool \<times> ('d, 'i, 'w) spdy_conn" where
  "handle_frames env [] c = (True, c)"
| "handle_frames env (f # fs) c =
     (case handle_frame env f c of (True, c) \<Rightarrow> handle_frames env fs c | (False, c) \<Rightarrow> (False, c))"

definition delivered :: "nat \<Rightarrow> spdy_event list \<Rightarrow> bytes" where
  "delivered ch evs = concat (map (\<lambda>e. case e of EvData n p \<Rightarrow> if n = ch then p else [] | _ \<Rightarrow> []) evs)"

definition sent_on :: "u32 \<Rightarrow> spdy_frame list \<Rightarrow> bytes" where
  "sent_on sid fs = concat (map (\<lambda>f. case f of Data s _ p \<Rightarrow> if s = sid then p else [] | _ \<Rightarrow> []) fs)"

text \<open>A frame that ends the stream or replaces it.\<close>

definition ends_stream :: "u32 \<Rightarrow> spdy_frame \<Rightarrow> bool" where
  "ends_stream sid f =
     (case f of SynStream s _ _ \<Rightarrow> s = sid | RstStream s _ \<Rightarrow> s = sid | Data s flags _ \<Rightarrow> s = sid \<and> and flags FLAG_FIN \<noteq> 0
      | _ \<Rightarrow> False)"

text \<open>The table names every channel once, and table and events only name channels that were made.\<close>

definition table_ok :: "('d, 'i, 'w) spdy_conn \<Rightarrow> bool" where
  "table_ok c \<longleftrightarrow> (\<forall>s ch. sc_streams c s = Some ch \<longrightarrow> ch < sc_opened c)
     \<and> (\<forall>ch p. EvData ch p \<in> set (sc_events c) \<longrightarrow> ch < sc_opened c)
     \<and> (\<forall>s s' ch. sc_streams c s = Some ch \<and> sc_streams c s' = Some ch \<longrightarrow> s = s')"

lemma delivered_simps [simp]:
  "delivered ch (evs @ [EvData n p]) = delivered ch evs @ (if n = ch then p else [])"
  "delivered ch (evs @ [EvClose n]) = delivered ch evs" "delivered ch (evs @ [EvOpen n s hs]) = delivered ch evs"
  by (simp_all add: delivered_def)

definition same_streams :: "('d, 'i, 'w) spdy_conn \<Rightarrow> ('d, 'i, 'w) spdy_conn \<Rightarrow> bool" where
  "same_streams c c' \<longleftrightarrow> sc_streams c' = sc_streams c \<and> sc_opened c' = sc_opened c \<and> sc_events c' = sc_events c"

lemma spdy_write_same: "same_streams c (snd (spdy_write env f c))"
  by (auto simp: same_streams_def spdy_write_def split: prod.splits sum.splits)

lemma same_streams_ok: "same_streams c c' \<Longrightarrow> table_ok c \<Longrightarrow> table_ok c'"
  by (simp add: same_streams_def table_ok_def)

lemma close_stream_ok:
  assumes "table_ok c"
  shows "table_ok (close_stream sid c)" "sc_opened (close_stream sid c) = sc_opened c"
    "sc_streams (close_stream sid c) = (sc_streams c)(sid := None)"
    "delivered ch (sc_events (close_stream sid c)) = delivered ch (sc_events c)"
  using assms by (auto simp: close_stream_def table_ok_def split: option.splits)

lemma deliver_ok:
  assumes "table_ok c"
  shows "table_ok (deliver sid p c)" "sc_opened (deliver sid p c) = sc_opened c"
    "sc_streams (deliver sid p c) = sc_streams c"
  using assms by (auto simp: deliver_def table_ok_def split: option.splits)

lemma deliver_delivered:
  assumes "table_ok c" "sc_streams c sid = Some ch"
  shows "delivered ch (sc_events (deliver s p c)) = delivered ch (sc_events c) @ (if s = sid then p else [])"
proof (cases "sc_streams c s")
  case (Some n)
  with assms have "n = ch \<longleftrightarrow> s = sid" unfolding table_ok_def by (metis option.inject)
  with Some show ?thesis by (auto simp: deliver_def)
qed (use assms in \<open>auto simp: deliver_def\<close>)

lemma table_okD:
  assumes "table_ok c"
  shows "sc_streams c s = Some ch \<Longrightarrow> ch < sc_opened c"
    "EvData ch p \<in> set (sc_events c) \<Longrightarrow> ch < sc_opened c"
    "sc_streams c s = Some ch \<Longrightarrow> sc_streams c s' = Some ch \<Longrightarrow> s = s'"
  using assms unfolding table_ok_def by blast+

lemma table_okI:
  assumes "\<And>s ch. sc_streams c s = Some ch \<Longrightarrow> ch < sc_opened c"
    "\<And>ch p. EvData ch p \<in> set (sc_events c) \<Longrightarrow> ch < sc_opened c"
    "\<And>s s' ch. sc_streams c s = Some ch \<Longrightarrow> sc_streams c s' = Some ch \<Longrightarrow> s = s'"
  shows "table_ok c"
  using assms unfolding table_ok_def by blast

lemma table_ok_add:
  assumes "table_ok c" "sc_streams c s = None" "sc_streams c' = (sc_streams c)(s \<mapsto> sc_opened c)"
    "sc_opened c' = Suc (sc_opened c)" "\<And>ch p. EvData ch p \<in> set (sc_events c') \<Longrightarrow> EvData ch p \<in> set (sc_events c)"
  shows "table_ok c'"
proof (rule table_okI)
  fix s1 ch assume "sc_streams c' s1 = Some ch"
  then show "ch < sc_opened c'"
    using assms(3,4) table_okD(1) [OF assms(1), of s1 ch] by (auto split: if_splits)
next
  fix ch p assume "EvData ch p \<in> set (sc_events c')"
  then show "ch < sc_opened c'" using assms(4,5) table_okD(2) [OF assms(1), of ch p] by fastforce
next
  fix s1 s2 ch assume h: "sc_streams c' s1 = Some ch" "sc_streams c' s2 = Some ch"
  show "s1 = s2"
    using h assms(3) table_okD(3) [OF assms(1), of s1 ch s2] table_okD(1) [OF assms(1), of s1] table_okD(1) [OF assms(1), of s2]
    by (auto split: if_splits)
qed

lemma open_stream_ok:
  assumes "table_ok c" "open_stream env s hs c = (go, c')"
  shows "table_ok c'" "sc_opened c' = sc_opened c + 1" "sc_streams c' = (sc_streams c)(s \<mapsto> sc_opened c)"
    "delivered ch (sc_events c') = delivered ch (sc_events c)"
    "go \<Longrightarrow> EvOpen (sc_opened c) s hs \<in> set (sc_events c')"
proof -
  note k = close_stream_ok [OF assms(1), where sid = s]
  show "table_ok c'"
    by (rule table_ok_add [OF k(1), of s]) (use assms(2) k(2,3) in \<open>auto simp: open_stream_def Let_def split: if_splits\<close>)
  show "sc_opened c' = sc_opened c + 1" "sc_streams c' = (sc_streams c)(s \<mapsto> sc_opened c)"
    "delivered ch (sc_events c') = delivered ch (sc_events c)"
    "go \<Longrightarrow> EvOpen (sc_opened c) s hs \<in> set (sc_events c')"
    using assms(2) k by (auto simp: open_stream_def Let_def split: if_splits)
qed

lemma handle_frame_ok:
  assumes "table_ok c" "handle_frame env f c = (go, c')"
  shows "table_ok c'"
proof (cases f)
  case (SynStream s flags hs)
  obtain r c1 where w: "syn_reply env s c = (r, c1)" by (cases "syn_reply env s c")
  then have "table_ok c1"
    using spdy_write_same [of c env] same_streams_ok assms(1) unfolding syn_reply_def by (metis snd_conv)
  with SynStream w assms(2) show ?thesis
    by (auto simp: handle_frame_def intro: open_stream_ok split: sum.splits)
next
  case (Data s flags p)
  with assms(2) deliver_ok [OF assms(1), of s p] close_stream_ok(1) [of "deliver s p c" s] show ?thesis
    by (auto simp: handle_frame_def Let_def split: if_splits)
next
  case (Ping i)
  with assms spdy_write_same [of c env "Ping i"] show ?thesis
    by (auto simp: handle_frame_def intro: same_streams_ok)
qed (use assms close_stream_ok in \<open>auto simp: handle_frame_def\<close>)

lemma handle_frame_delivers:
  assumes ok: "table_ok c" and ch: "sc_streams c sid = Some ch" and f: "\<not> ends_stream sid f"
    and h: "handle_frame env f c = (go, c')"
  shows "sc_streams c' sid = Some ch \<and> delivered ch (sc_events c') = delivered ch (sc_events c) @ sent_on sid [f]"
proof (cases f)
  case (SynStream s flags hs)
  obtain r c1 where w: "syn_reply env s c = (r, c1)" by (cases "syn_reply env s c")
  then have "same_streams c c1" using spdy_write_same [of c env] unfolding syn_reply_def by (metis snd_conv)
  then have "table_ok c1" "sc_streams c1 sid = Some ch" "sc_events c1 = sc_events c"
    using ok ch by (auto simp: same_streams_def table_ok_def)
  with SynStream w h f open_stream_ok [of c1 env s hs go c'] show ?thesis
    by (auto simp: handle_frame_def ends_stream_def sent_on_def split: sum.splits)
next
  case (Data s flags p)
  with h f ch deliver_ok [OF ok, of s p] close_stream_ok [of "deliver s p c", where sid = s] deliver_delivered [OF ok ch, of s p]
  show ?thesis
    by (auto simp: handle_frame_def Let_def ends_stream_def sent_on_def split: if_splits)
next
  case (Ping i)
  with h ch spdy_write_same [of c env "Ping i"] show ?thesis
    by (auto simp: handle_frame_def same_streams_def sent_on_def)
qed (use h ch f close_stream_ok [OF ok] in \<open>auto simp: handle_frame_def sent_on_def ends_stream_def\<close>)

lemma sent_on_Cons: "sent_on sid (f # fs) = sent_on sid [f] @ sent_on sid fs"
  by (simp add: sent_on_def)

lemma handle_frames_append:
  "handle_frames env (fs @ gs) c = (case handle_frames env fs c of (True, c) \<Rightarrow> handle_frames env gs c | (False, c) \<Rightarrow> (False, c))"
  by (induction fs arbitrary: c) (auto split: prod.splits bool.splits)

lemma handle_frames_ok: "handle_frames env fs c = (go, c') \<Longrightarrow> table_ok c \<Longrightarrow> table_ok c'"
  by (induction fs arbitrary: c) (auto split: prod.splits bool.splits intro: handle_frame_ok)

lemma handle_frames_deliver:
  "table_ok c \<Longrightarrow> sc_streams c sid = Some ch \<Longrightarrow> list_all (\<lambda>f. \<not> ends_stream sid f) fs \<Longrightarrow>
   handle_frames env fs c = (True, c') \<Longrightarrow>
   sc_streams c' sid = Some ch \<and> delivered ch (sc_events c') = delivered ch (sc_events c) @ sent_on sid fs"
proof (induction fs arbitrary: c)
  case Nil
  then show ?case by (simp add: sent_on_def)
next
  case (Cons f fs)
  obtain c1 where h: "handle_frame env f c = (True, c1)" and r: "handle_frames env fs c1 = (True, c')"
    using Cons.prems(4) by (auto split: prod.splits bool.splits)
  have "sc_streams c1 sid = Some ch \<and> delivered ch (sc_events c1) = delivered ch (sc_events c) @ sent_on sid [f]"
    using handle_frame_delivers [OF Cons.prems(1,2) _ h] Cons.prems(3) by simp
  then show ?case
    using Cons.IH [OF handle_frame_ok [OF Cons.prems(1) h] _ _ r] Cons.prems(3) by (simp add: sent_on_Cons [of sid f fs])
qed

lemma new_conn_ok: "table_ok (new_conn env w)"
  by (simp add: table_ok_def new_conn_def)

lemma fresh_undelivered: "table_ok c \<Longrightarrow> delivered (sc_opened c) (sc_events c) = []"
  by (auto simp: delivered_def table_ok_def split: spdy_event.splits)

lemma syn_stream_opens:
  assumes ok: "table_ok c" and h: "handle_frame env (SynStream sid flags hs) c = (True, c')"
  shows "\<exists>ch. sc_streams c' sid = Some ch \<and> delivered ch (sc_events c') = [] \<and> EvOpen ch sid hs \<in> set (sc_events c')"
proof -
  obtain r c1 where w: "syn_reply env sid c = (r, c1)" by (cases "syn_reply env sid c")
  then have same: "same_streams c c1" using spdy_write_same [of c env] unfolding syn_reply_def by (metis snd_conv)
  then have ok1: "table_ok c1" using ok by (rule same_streams_ok)
  from w h have "open_stream env sid hs c1 = (True, c')" by (auto simp: handle_frame_def split: sum.splits)
  from open_stream_ok [OF ok1 this] fresh_undelivered [OF ok1] show ?thesis by auto
qed

text \<open>Events are only ever added, and nobody takes back an opened stream.\<close>

lemma handle_frame_events: "handle_frame env f c = (go, c') \<Longrightarrow> set (sc_events c) \<subseteq> set (sc_events c')"
  using spdy_write_same [of c env]
  by (auto simp: handle_frame_def Let_def syn_reply_def open_stream_def close_stream_def deliver_def same_streams_def
      split: spdy_frame.splits option.splits prod.splits sum.splits if_splits) (metis snd_conv)+

lemma handle_frames_events: "handle_frames env fs c = (go, c') \<Longrightarrow> set (sc_events c) \<subseteq> set (sc_events c')"
  by (induction fs arbitrary: c) (auto split: prod.splits bool.splits dest: handle_frame_events)

text \<open>C17. The peer's stream arrives whole, in order and unmixed: when a connection opens a stream, sends
  data on it, interleaved with any frames of other streams, and finishes it, then the consumer is
  handed that stream with its headers, its channel carries exactly the bytes sent on the stream,
  in the order they were sent, and the channel is closed.\<close>

theorem stream_arrives_in_order:
  assumes run: "handle_frames env (pre @ SynStream sid flags hs # fs @ [Data sid last_flags payload]) (new_conn env w) = (True, c)"
    and open_stays: "list_all (\<lambda>f. \<not> ends_stream sid f) fs" and fin: "and last_flags FLAG_FIN \<noteq> 0"
  shows "\<exists>ch. EvOpen ch sid hs \<in> set (sc_events c)
     \<and> delivered ch (sc_events c) = sent_on sid (fs @ [Data sid last_flags payload])
     \<and> last (sc_events c) = EvClose ch \<and> sc_streams c sid = None"
proof -
  obtain c0 c1 c2 where h0: "handle_frames env pre (new_conn env w) = (True, c0)"
    and h1: "handle_frame env (SynStream sid flags hs) c0 = (True, c1)"
    and h2: "handle_frames env fs c1 = (True, c2)" and h3: "handle_frame env (Data sid last_flags payload) c2 = (True, c)"
    using run by (auto simp: handle_frames_append split: prod.splits bool.splits)
  have ok0: "table_ok c0" using handle_frames_ok [OF h0 new_conn_ok] .
  have ok1: "table_ok c1" using handle_frame_ok [OF ok0 h1] .
  have ok2: "table_ok c2" using handle_frames_ok [OF h2 ok1] .
  obtain ch where ch: "sc_streams c1 sid = Some ch" "delivered ch (sc_events c1) = []" "EvOpen ch sid hs \<in> set (sc_events c1)"
    using syn_stream_opens [OF ok0 h1] by blast
  have d2: "sc_streams c2 sid = Some ch" "delivered ch (sc_events c2) = sent_on sid fs"
    using handle_frames_deliver [OF ok1 ch(1) open_stays h2] ch(2) by auto
  have c: "c = close_stream sid (deliver sid payload c2)" using h3 fin by (simp add: handle_frame_def Let_def)
  have "delivered ch (sc_events c) = sent_on sid (fs @ [Data sid last_flags payload])"
    using deliver_delivered [OF ok2 d2(1), of sid payload] d2(2)
      close_stream_ok(4) [OF deliver_ok(1) [OF ok2], of ch sid sid payload]
    by (simp add: c sent_on_def)
  moreover have "EvOpen ch sid hs \<in> set (sc_events c)"
    using ch(3) handle_frames_events [OF h2] handle_frame_events [OF h3] by blast
  moreover have "last (sc_events c) = EvClose ch" "sc_streams c sid = None"
    using d2(1) deliver_ok(3) [OF ok2, of sid payload] by (auto simp: c close_stream_def)
  ultimately show ?thesis by blast
qed

theorem stream_arrives_in_order_witness:
  "\<exists>c ch. EvOpen ch 1 [] \<in> set (sc_events c) \<and> delivered ch (sc_events c) = [7, 8, 9]
     \<and> last (sc_events c) = EvClose ch \<and> sc_streams c (1 :: u32) = None
     \<and> handle_frames sample_env ([] @ SynStream 1 0 [] # [Data 1 0 [7, 8], Data 3 0 [5]] @ [Data 1 1 [9]]) (new_conn sample_env [])
         = (True, c)"
proof -
  have agree: "streams_agree stored_flate (\<lambda>z inp. inp) (\<lambda>dict i inp. dict = i) (\<lambda>i inp. inp)
      (nv_new stored_flate) (nv_new stored_flate) []"
    by (simp add: streams_agree_def nv_new_def stored_flate_def write_nv_block_def)
  obtain nv' where w: "compress_nv stored_flate [] (nv_new stored_flate) = (Inr (write_nv_block []), nv')"
    using compress_nv_agree [OF stored_deflate agree] by blast
  obtain c where run: "handle_frames sample_env ([] @ SynStream 1 0 [] # [Data 1 0 [7, 8], Data 3 0 [5]] @ [Data 1 1 [9]])
      (new_conn sample_env []) = (True, c)"
    by (simp add: handle_frame_def syn_reply_def spdy_write_def write_headed_def w prog_simps sample_env_def
        open_stream_def deliver_def close_stream_def new_conn_def FLAG_FIN_def Let_def)
  from stream_arrives_in_order [OF run] show ?thesis
    using run by (simp add: ends_stream_def sent_on_def FLAG_FIN_def)
qed

end
