(* ===== verification/Rust_Files.thy ===== *)
theory Rust_Files
  imports File_System Rust_Utf8
begin

section \<open>Paths and whole files\<close>

text \<open>
  \<open>Path::join\<close> with a text on paths of the file system, and the functions of \<open>std::fs\<close> that read
  and write a whole file.
\<close>

subsection \<open>Paths\<close>

text \<open>\<open>Path::join\<close> with a text: an absolute text replaces the path, \<open>..\<close> goes up.\<close>

fun walk :: "fpath \<Rightarrow> component list \<Rightarrow> fpath" where
  "walk p [] = p"
| "walk p (Normal n # cs) = walk (p @ [n]) cs"
| "walk p (ParentDir # cs) = walk (butlast p) cs"
| "walk p (_ # cs) = walk p cs"

definition fjoin :: "fpath \<Rightarrow> string \<Rightarrow> fpath" where
  "fjoin p s = (if is_absolute s then walk [] (components s) else walk p (components s))"

definition path_display :: "fpath \<Rightarrow> string" where
  "path_display p = concat (map (\<lambda>c. ''/'' @ c) p)"

subsection \<open>Whole files\<close>

text \<open>\<open>std::fs::write\<close>: create, then write until everything is accepted; and \<open>read_to_string\<close>.\<close>

function write_from :: "fpath \<Rightarrow> nat \<Rightarrow> bytes \<Rightarrow> 'z os_scheme \<Rightarrow> (io_error + unit) \<times> 'z os_scheme" where
  "write_from p pos buf w =
     (if buf = [] then (Inr (), w)
      else case write_at p pos buf w of
             (Inl e, w') \<Rightarrow> (Inl e, w')
           | (Inr n, w') \<Rightarrow> if n = 0 then (Inl WriteZero, w') else write_from p (pos + n) (drop n buf) w')"
  by pat_completeness auto
termination
  by (relation "measure (\<lambda>(p, pos, buf, w). length buf)") auto

declare write_from.simps [simp del]

definition fs_write :: "fpath \<Rightarrow> bytes \<Rightarrow> ('z os_scheme, io_error, unit) prog" where
  "fs_write p bs = pseq (create_file p) (write_from p 0 bs)"

definition read_to_string :: "fpath \<Rightarrow> ('z os_scheme, io_error, string) prog" where
  "read_to_string p = pbind (read_file p) (\<lambda>bs. plift (ok_or Fault (from_utf8 bs)))"

end
