(* ===== verification/Registry_Auth.thy ===== *)
theory Registry_Auth
  imports Rust_Files
begin

section \<open>Registry credentials\<close>

text \<open>
  \<open>crates/images/src/dockercfg.rs\<close> and \<open>resolve_auth\<close> of \<open>pull.rs\<close>: the credentials of a pull
  from the request, or else from the node's docker configuration, its credential helpers and its
  store. The JSON and base64 decoders and the helper programs are arguments; a hash map is the
  list of its entries in the order its iterator gives them.
\<close>

datatype auth = Anonymous | Basic string string | Bearer string

record auth_entry =
  ae_auth :: string
  ae_username :: string
  ae_password :: string
  ae_identity_token :: string

record docker_config =
  dc_auths :: "(string \<times> auth_entry) list"
  dc_cred_helpers :: "(string \<times> string) list"
  dc_creds_store :: "string option"

record helper_output =
  ho_username :: string
  ho_secret :: string

text \<open>What the node provides: \<open>DOCKER_CONFIG\<close>, the decoders, and the run of a helper program on
  its standard input, which gives nothing when it cannot be run and else whether it succeeded and
  what it printed.\<close>

record docker_env =
  de_config_dir :: "fpath option"
  de_config_json :: "bytes \<Rightarrow> docker_config option"
  de_helper_json :: "bytes \<Rightarrow> helper_output option"
  de_base64 :: "string \<Rightarrow> bytes option"
  de_run :: "string \<Rightarrow> bytes \<Rightarrow> (bool \<times> bytes) option"

definition norm_host :: "string \<Rightarrow> string" where
  "norm_host s =
     (let s1 = (case strip_prefix s ''https://'' of
                  Some r \<Rightarrow> r
                | None \<Rightarrow> unwrap_or s (strip_prefix s ''http://''));
          host = hd (split_char (CHR ''/'') s1) in
      if host = ''index.docker.io'' \<or> host = ''registry-1.docker.io'' \<or> host = ''docker.io'' then ''docker.io'' else host)"

definition decoded_pair :: "(string \<Rightarrow> bytes option) \<Rightarrow> string \<Rightarrow> auth option" where
  "decoded_pair base64 s =
     map_option (\<lambda>(u, p). Basic u p)
       (Option.bind (Option.bind (base64 (trim s)) from_utf8) (split_once (CHR '':'')))"

definition to_auth :: "(string \<Rightarrow> bytes option) \<Rightarrow> auth_entry \<Rightarrow> auth option" where
  "to_auth base64 e =
     (if ae_identity_token e \<noteq> [] then Some (Bearer (ae_identity_token e))
      else if ae_username e \<noteq> [] then Some (Basic (ae_username e) (ae_password e))
      else if ae_auth e \<noteq> [] then decoded_pair base64 (ae_auth e)
      else None)"

definition parse_helper_output :: "(bytes \<Rightarrow> helper_output option) \<Rightarrow> bytes \<Rightarrow> auth option" where
  "parse_helper_output json bs =
     (case json bs of
        None \<Rightarrow> None
      | Some out \<Rightarrow>
          if ho_secret out = [] then None
          else if ho_username out = ''<token>'' then Some (Bearer (ho_secret out))
          else Some (Basic (ho_username out) (ho_secret out)))"

definition credential_helper :: "docker_env \<Rightarrow> string \<Rightarrow> string \<Rightarrow> auth option" where
  "credential_helper de helper registry =
     (case de_run de (''docker-credential-'' @ helper) (str_bytes (norm_host registry)) of
        None \<Rightarrow> None
      | Some (success, out) \<Rightarrow> if success then parse_helper_output (de_helper_json de) out else None)"

definition entry_for :: "string \<Rightarrow> (string \<times> 'v) list \<Rightarrow> 'v option" where
  "entry_for host entries = map_option snd (List.find (\<lambda>(k, v). norm_host k = host) entries)"

definition or_else :: "'a option \<Rightarrow> 'a option \<Rightarrow> 'a option" where
  "or_else x y = (case x of Some v \<Rightarrow> Some v | None \<Rightarrow> y)"

definition docker_resolve :: "docker_env \<Rightarrow> docker_config \<Rightarrow> string \<Rightarrow> auth option" where
  "docker_resolve de cfg registry =
     (let host = norm_host registry in
      or_else (Option.bind (entry_for host (dc_cred_helpers cfg)) (\<lambda>h. credential_helper de h registry))
        (or_else (Option.bind (dc_creds_store cfg) (\<lambda>s. credential_helper de s registry))
           (Option.bind (entry_for host (dc_auths cfg)) (to_auth (de_base64 de)))))"

definition config_paths :: "docker_env \<Rightarrow> fpath list" where
  "config_paths de =
     (case de_config_dir de of None \<Rightarrow> [] | Some d \<Rightarrow> [d @ [''config.json'']])
     @ [[''var'', ''lib'', ''kubelet'', ''config.json''], [''root'', ''.docker'', ''config.json'']]"

text \<open>The first candidate that can be read and parsed.\<close>

fun first_config :: "docker_env \<Rightarrow> fpath list \<Rightarrow> ('z os_scheme, 'e, docker_config option) prog" where
  "first_config de [] = pret None"
| "first_config de (p # ps) =
     pbind (attempt (read_file p)) (\<lambda>r.
       case r of
         Inl _ \<Rightarrow> first_config de ps
       | Inr bs \<Rightarrow> (case de_config_json de bs of Some cfg \<Rightarrow> pret (Some cfg) | None \<Rightarrow> first_config de ps))"

definition load_default :: "docker_env \<Rightarrow> ('z os_scheme, 'e, docker_config option) prog" where
  "load_default de = first_config de (config_paths de)"

definition resolve_auth :: "docker_env \<Rightarrow> string \<Rightarrow> auth \<Rightarrow> ('z os_scheme, 'e, auth) prog" where
  "resolve_auth de reference provided =
     (if provided \<noteq> Anonymous then pret provided
      else pbind (load_default de) (\<lambda>cfg.
             pret (unwrap_or Anonymous (Option.bind cfg (\<lambda>c. docker_resolve de c reference)))))"

subsection \<open>Whose credentials are used\<close>

lemma or_else_Some: "or_else x y = Some v \<longleftrightarrow> x = Some v \<or> (x = None \<and> y = Some v)"
  by (auto simp: or_else_def split: option.splits)

lemma entry_for_Some: "entry_for host entries = Some v \<Longrightarrow> \<exists>k. (k, v) \<in> set entries \<and> norm_host k = host"
  by (auto simp: entry_for_def find_Some_iff) (metis nth_mem)

lemma entry_for_None: "\<forall>(k, v) \<in> set entries. norm_host k \<noteq> host \<Longrightarrow> entry_for host entries = None"
  by (auto simp: entry_for_def find_None_iff)


text \<open>A reference with no registry, such as \<open>nginx:1.25\<close>, names an image of Docker Hub, but is
  never matched with the node's Docker Hub credentials: its first segment is compared with the hosts of
  the configuration as it stands, so a configuration with entries for Docker Hub only and no store
  gives nothing.\<close>

theorem short_reference_misses_hub:
  assumes "norm_host reference \<noteq> ''docker.io''" "dc_creds_store cfg = None"
    and "\<forall>(k, v) \<in> set (dc_cred_helpers cfg). norm_host k = ''docker.io''" "\<forall>(k, v) \<in> set (dc_auths cfg). norm_host k = ''docker.io''"
  shows "docker_resolve de cfg reference = None"
proof -
  have "entry_for (norm_host reference) (dc_cred_helpers cfg) = None" "entry_for (norm_host reference) (dc_auths cfg) = None"
    by (rule entry_for_None, use assms in auto)+
  with assms(2) show ?thesis by (simp add: docker_resolve_def or_else_def)
qed

definition sample_docker :: docker_config where
  "sample_docker =
     \<lparr>dc_auths = [(''https://index.docker.io/v1/'', \<lparr>ae_auth = [], ae_username = ''me'', ae_password = ''pw'', ae_identity_token = []\<rparr>)],
      dc_cred_helpers = [], dc_creds_store = None\<rparr>"

definition sample_docker_env :: docker_env where
  "sample_docker_env =
     \<lparr>de_config_dir = Some [''docker''], de_config_json = (\<lambda>bs. if bs = [1] then Some sample_docker else None), de_helper_json = (\<lambda>bs. None),
      de_base64 = (\<lambda>s. None), de_run = (\<lambda>p i. None)\<rparr>"

lemma sample_hosts: "norm_host ''https://index.docker.io/v1/'' = ''docker.io''" "norm_host ''nginx:1.25'' = ''nginx:1.25''"
  "norm_host ''docker.io/library/nginx'' = ''docker.io''"
  by code_simp+

theorem short_reference_misses_hub_witness:
  "docker_resolve sample_docker_env sample_docker ''nginx:1.25'' = None"
  by (rule short_reference_misses_hub) (simp_all add: sample_docker_def sample_hosts)


end
