(* ===== verification/Image_Pull.thy ===== *)
theory Image_Pull
  imports Registry_Auth Image_Identity Image_GC
begin

section \<open>Pulling an image\<close>

text \<open>
  \<open>crates/images/src/pull.rs\<close>: the manifest and configuration of a reference, the layers streamed
  into the content store and checked against the digests of the manifest and the diffIDs of the
  configuration, and the unpacking of each layer under its chainID. The registry client, the
  decoders of JSON and TOML, the decompressors and the \<open>tar\<close> reader are arguments
  (\<open>pull_lib\<close>); the requests of one pull are answered by functions of what is asked. The chunks of
  a layer arrive as a list, each a piece or an error.
\<close>

datatype oci_error = AuthenticationFailure string | UnauthorizedError string | OtherRegistryError string

datatype pull_error =
    PReference string string
  | PRegistry oci_error
  | PContent content_error
  | PIo io_error
  | PConfig string
  | PUnpack io_error
  | PDigest core_error
  | DiffIdMismatch nat digest digest
  | LayerCountMismatch nat nat

definition is_auth_error :: "pull_error \<Rightarrow> bool" where
  "is_auth_error e =
     (case e of PRegistry (AuthenticationFailure _) \<Rightarrow> True | PRegistry (UnauthorizedError _) \<Rightarrow> True | _ \<Rightarrow> False)"

record descriptor =
  ds_digest :: string
  ds_size :: i64
  ds_media_type :: string

record image_config_json =
  icj_diff_ids :: "string list"
  icj_user :: string

record hosts_toml =
  ht_server :: "string option"
  ht_host :: "(string \<times> string list) list"

record pulled_image =
  pi_reference :: string
  pi_image_id :: digest
  pi_manifest_digest :: "digest option"
  pi_size :: u64
  pi_diff_ids :: "digest list"
  pi_chain_ids :: "digest list"
  pi_layer_digests :: "digest list"
  pi_user :: string

text \<open>\<open>oci_client::Reference\<close>.\<close>

record oci_reference =
  or_registry :: string
  or_repository :: string
  or_tag :: "string option"
  or_digest :: "string option"

text \<open>The credentials as the registry client takes them.\<close>

datatype registry_auth = RegistryAnonymous | RegistryBasic string string | RegistryBearer string

fun to_registry_auth :: "auth \<Rightarrow> registry_auth" where
  "to_registry_auth Anonymous = RegistryAnonymous"
| "to_registry_auth (Basic username password) = RegistryBasic username password"
| "to_registry_auth (Bearer token) = RegistryBearer token"

record ('b, 'w) pull_lib =
  pl_sha :: "bytes \<Rightarrow> string"
  pl_parse_ref :: "string \<Rightarrow> string + oci_reference"
  pl_manifest :: "string list \<Rightarrow> oci_reference \<Rightarrow> registry_auth \<Rightarrow> oci_error + descriptor list \<times> string \<times> string"
  pl_blob_stream :: "string list \<Rightarrow> oci_reference \<Rightarrow> descriptor \<Rightarrow> oci_error + (io_error + bytes) list"
  pl_config_json :: "bytes \<Rightarrow> string + image_config_json"
  pl_hosts_toml :: "string \<Rightarrow> hosts_toml option"
  pl_inflate :: "compression \<Rightarrow> bytes \<Rightarrow> io_error + bytes"
  pl_entries :: "compression \<Rightarrow> bytes \<Rightarrow> io_error + (io_error + 'b tar_entry) list"
  pl_unpack :: "fpath \<Rightarrow> 'b tar_entry \<Rightarrow> ('w, io_error, bool) prog"
  pl_extra_insecure :: "string option"

subsection \<open>Registries reached over plain HTTP\<close>

definition registry_from_reference :: "string \<Rightarrow> string option" where
  "registry_from_reference reference =
     (let first = trim (hd (split_char (CHR ''/'') reference)) in
      if first = [] then None
      else if first = ''localhost'' \<or> CHR ''.'' \<in> set first \<or> CHR '':'' \<in> set first then Some first
      else None)"

definition registry_namespaces :: "string \<Rightarrow> string list" where
  "registry_namespaces registry =
     (case rsplit_once (CHR '':'') registry of
        Some (host, port) \<Rightarrow> if host \<noteq> [] \<and> port \<noteq> [] then [host @ ''_'' @ port @ ''_''] else []
      | None \<Rightarrow> [])
     @ [registry, ''_default'']"

definition toml_uses_http :: "hosts_toml \<Rightarrow> bool" where
  "toml_uses_http hosts \<longleftrightarrow>
     (case ht_server hosts of Some s \<Rightarrow> starts_with s ''http://'' | None \<Rightarrow> False)
     \<or> list_ex (\<lambda>(url, caps). starts_with url ''http://'' \<and> (caps = [] \<or> list_ex (\<lambda>c. c = ''pull'' \<or> c = ''resolve'') caps)) (ht_host hosts)"

fun any_uses_http :: "(string \<Rightarrow> hosts_toml option) \<Rightarrow> fpath \<Rightarrow> string list \<Rightarrow> ('z os_scheme, 'e, bool) prog" where
  "any_uses_http toml root [] = pret False"
| "any_uses_http toml root (n # ns) =
     pbind (attempt (read_to_string (fjoin root n @ [''hosts.toml'']))) (\<lambda>r.
       case r of
         Inl _ \<Rightarrow> any_uses_http toml root ns
       | Inr t \<Rightarrow>
           (case toml t of
              None \<Rightarrow> any_uses_http toml root ns
            | Some hosts \<Rightarrow> if toml_uses_http hosts then pret True else any_uses_http toml root ns))"

definition hosts_toml_uses_http :: "(string \<Rightarrow> hosts_toml option) \<Rightarrow> string \<Rightarrow> fpath option \<Rightarrow> ('z os_scheme, 'e, bool) prog" where
  "hosts_toml_uses_http toml registry config_path =
     (case config_path of None \<Rightarrow> pret False | Some root \<Rightarrow> any_uses_http toml root (registry_namespaces registry))"

definition insecure_registries_for :: "(string \<Rightarrow> hosts_toml option) \<Rightarrow> string \<Rightarrow> fpath option \<Rightarrow> ('z os_scheme, 'e, string list) prog" where
  "insecure_registries_for toml reference config_path =
     (case registry_from_reference reference of
        None \<Rightarrow> pret []
      | Some registry \<Rightarrow> pbind (hosts_toml_uses_http toml registry config_path) (\<lambda>h. pret (if h then [registry] else [])))"

definition push_unique :: "string \<Rightarrow> string list \<Rightarrow> string list" where
  "push_unique r xs = (if r \<in> set xs then xs else xs @ [r])"

definition with_extra_insecure :: "string option \<Rightarrow> string list \<Rightarrow> string list" where
  "with_extra_insecure extra insecure =
     (case extra of
        None \<Rightarrow> insecure
      | Some s \<Rightarrow> fold push_unique (filter (\<lambda>r. r \<noteq> []) (map trim (split_char (CHR '','') s))) insecure)"

subsection \<open>Layers\<close>

definition decompress :: "(compression \<Rightarrow> bytes \<Rightarrow> io_error + bytes) \<Rightarrow> compression \<Rightarrow> bytes \<Rightarrow> io_error + bytes" where
  "decompress inflate c bs = (if c = NoCompression then Inr bs else inflate c bs)"

definition compute_diff_id :: "('b, 'w) pull_lib \<Rightarrow> bytes \<Rightarrow> compression \<Rightarrow> pull_error + digest" where
  "compute_diff_id lib compressed c =
     rbind (map_err PIo (decompress (pl_inflate lib) c compressed)) (\<lambda>tar.
       map_err PDigest (digest_from_str (''sha256:'' @ pl_sha lib tar)))"

definition write_error :: "content_error \<Rightarrow> pull_error" where
  "write_error e = (case e of CIo i \<Rightarrow> PIo i | _ \<Rightarrow> PContent e)"

text \<open>Early returns drop the writer, which removes its staging file.\<close>

definition abandon :: "writer \<Rightarrow> pull_error \<Rightarrow> ('z os_scheme, pull_error, 'a) prog" where
  "abandon wr e = pseq (attempt (drop_writer wr)) (pfail e)"

fun store_stream :: "writer \<Rightarrow> (io_error + bytes) list \<Rightarrow> 'z os_scheme \<Rightarrow> (pull_error + writer) \<times> 'z os_scheme" where
  "store_stream wr [] w = (Inr wr, w)"
| "store_stream wr (Inl e # items) w = abandon wr (PIo e) w"
| "store_stream wr (Inr chunk # items) w =
     (case write_all wr chunk w of
        (Inl e, wr', w') \<Rightarrow> abandon wr' (write_error e) w'
      | (Inr _, wr', w') \<Rightarrow> store_stream wr' items w')"

definition fetch_layer ::
  "('b, 'z os_scheme) pull_lib \<Rightarrow> store \<Rightarrow> string \<Rightarrow> string list \<Rightarrow> oci_reference \<Rightarrow> nat \<Rightarrow> descriptor \<Rightarrow> digest \<Rightarrow> u64
    \<Rightarrow> ('z os_scheme, pull_error, digest) prog" where
  "fetch_layer lib st reference insecure parsed i desc expected expected_size =
     pbind (with_err PContent (open_writer (pl_sha lib) st (reference @ '':layer:'' @ dec i))) (\<lambda>wr.
       case pl_blob_stream lib insecure parsed desc of
         Inl e \<Rightarrow> abandon wr (PRegistry e)
       | Inr items \<Rightarrow>
           pbind (store_stream wr items) (\<lambda>wr'. with_err PContent (commit (pl_sha lib) wr' expected_size expected)))"

definition snapshot_fs :: "fpath \<Rightarrow> digest \<Rightarrow> fpath" where
  "snapshot_fs sroot c = snapshot_base sroot (hex c) @ [''fs'']"

definition unpack_snapshot ::
  "('b, 'z os_scheme) pull_lib \<Rightarrow> store \<Rightarrow> fpath \<Rightarrow> digest \<Rightarrow> digest \<Rightarrow> compression \<Rightarrow> ('z os_scheme, pull_error, unit) prog" where
  "unpack_snapshot lib st sroot chain layer c =
     (let fs_dir = snapshot_fs sroot chain in
      pbind (attempt (read_dir fs_dir)) (\<lambda>r.
        if (case r of Inr (_ # _) \<Rightarrow> True | _ \<Rightarrow> False) then pret ()
        else
          pseq (with_err PIo (create_dir_all fs_dir))
            (pbind (with_err PContent (read_blob st layer)) (\<lambda>blob.
               with_err PUnpack (apply_layer (pl_entries lib) (pl_unpack lib) fs_dir blob c)))))"

definition pull_layer ::
  "('b, 'z os_scheme) pull_lib \<Rightarrow> store \<Rightarrow> fpath \<Rightarrow> string \<Rightarrow> string list \<Rightarrow> oci_reference \<Rightarrow> digest list \<Rightarrow> u64 \<times> digest list \<Rightarrow> nat \<times> descriptor
    \<Rightarrow> ('z os_scheme, pull_error, u64 \<times> digest list) prog" where
  "pull_layer lib st sroot reference insecure parsed diff_ids =
     (\<lambda>(total, layers) (i, desc).
        pbind (plift (map_err PDigest (digest_from_str (ds_digest desc)))) (\<lambda>expected.
        pseq (pguard (0 \<le> sint (ds_size desc)) (PReference reference (''layer '' @ dec i @ '' has negative size '' @ dec_int (sint (ds_size desc)))))
        (let expected_size = (ds_size desc :: u64); c = from_media_type (ds_media_type desc) in
         pbind (fetch_layer lib st reference insecure parsed i desc expected expected_size) (\<lambda>layer.
         pbind (with_err PContent (read_blob st expected)) (\<lambda>blob.
         pbind (plift (compute_diff_id lib blob c)) (\<lambda>computed.
         pseq (pguard (computed = diff_ids ! i) (DiffIdMismatch i (diff_ids ! i) computed))
           (pseq (unpack_snapshot lib st sroot (chain_ids (pl_sha lib) diff_ids ! i) expected c)
              (pret (total + expected_size, layers @ [layer])))))))))"

definition parse_digests :: "string list \<Rightarrow> pull_error + digest list" where
  "parse_digests ss = collect_results (map (\<lambda>s. map_err PDigest (digest_from_str s)) ss)"

definition pull_with_options ::
  "('b, 'z os_scheme) pull_lib \<Rightarrow> fpath option \<Rightarrow> store \<Rightarrow> fpath \<Rightarrow> string \<Rightarrow> auth \<Rightarrow> ('z os_scheme, pull_error, pulled_image) prog" where
  "pull_with_options lib config_path st sroot reference auth =
     pbind (plift (map_err (PReference reference) (pl_parse_ref lib reference))) (\<lambda>parsed.
     pbind (insecure_registries_for (pl_hosts_toml lib) reference config_path) (\<lambda>ins.
     let insecure = with_extra_insecure (pl_extra_insecure lib) ins in
     pbind (plift (map_err PRegistry (pl_manifest lib insecure parsed (to_registry_auth auth)))) (\<lambda>(layers, manifest_digest_str, config_string).
     let config_bytes = str_bytes config_string; image_id = sha256 (pl_sha lib) config_bytes in
     pseq (with_err PContent (write_blob (pl_sha lib) st (''config:'' @ reference) config_bytes image_id))
     (pbind (plift (map_err PConfig (pl_config_json lib config_bytes))) (\<lambda>cfg.
      pbind (plift (parse_digests (icj_diff_ids cfg))) (\<lambda>diff_ids.
      pseq (pguard (length diff_ids = length layers) (LayerCountMismatch (length diff_ids) (length layers)))
      (pbind (pfold (pull_layer lib st sroot reference insecure parsed diff_ids) (of_nat (length config_bytes), []) (enumerate 0 layers)) (\<lambda>(total, layer_digests).
       pbind (plift (if manifest_digest_str = [] then Inr None
                     else map_err PDigest (rbind (digest_from_str manifest_digest_str) (\<lambda>d. Inr (Some d))))) (\<lambda>manifest_digest.
       pret \<lparr>pi_reference = reference, pi_image_id = image_id, pi_manifest_digest = manifest_digest, pi_size = total,
             pi_diff_ids = diff_ids, pi_chain_ids = chain_ids (pl_sha lib) diff_ids, pi_layer_digests = layer_digests,
             pi_user = icj_user cfg\<rparr>)))))))))"

text \<open>\<open>pull\<close> is the pull with the default options: no directory of registry configurations.\<close>

definition pull_default ::
  "('b, 'z os_scheme) pull_lib \<Rightarrow> store \<Rightarrow> fpath \<Rightarrow> string \<Rightarrow> auth \<Rightarrow> ('z os_scheme, pull_error, pulled_image) prog" where
  "pull_default lib st sroot reference auth = pull_with_options lib None st sroot reference auth"

end
