(* ===== verification/Cri_Messages.thy ===== *)
theory Cri_Messages
  imports Oci_Types Image_Identity Rust_Utf8 Registry_Auth
begin

section \<open>The messages of the CRI and their conversions\<close>

text \<open>
  The messages of \<open>proto/runtime/v1/api.proto\<close> with the fields the server reads or writes, and
  the pure functions of \<open>crates/cri/src/server.rs\<close> that convert between them, the stored records
  and the runtime's request. An enumeration field is its number, as \<open>prost\<close> has it; a field of
  message type is optional; \<open>map<string, string>\<close> is an association list. A gRPC status is its
  code and what its text is made from.
\<close>

datatype status_code = InvalidArgument | NotFoundCode | Internal | Unavailable | FailedPrecondition
  | DeadlineExceeded | Unauthenticated | Unimplemented

subsection \<open>Sandboxes\<close>

record pod_sandbox_metadata =
  pm_name :: string
  pm_uid :: string
  pm_namespace :: string
  pm_attempt :: u32

record cri_id_mapping =
  cim_host_id :: u32
  cim_container_id :: u32
  cim_length :: u32

record user_namespace =
  un_mode :: int
  un_uids :: "cri_id_mapping list"
  un_gids :: "cri_id_mapping list"

record namespace_option =
  no_network :: int
  no_pid :: int
  no_ipc :: int
  no_target_id :: string
  no_userns_options :: "user_namespace option"

record cri_port_mapping =
  cpm_protocol :: int
  cpm_container_port :: int
  cpm_host_port :: int
  cpm_host_ip :: string

record dns_config =
  dns_servers :: "string list"
  dns_searches :: "string list"
  dns_options :: "string list"

record linux_sandbox_config =
  ls_cgroup_parent :: string
  ls_namespace_options :: "namespace_option option"
  ls_sysctls :: str_map

record pod_sandbox_config =
  psc_metadata :: "pod_sandbox_metadata option"
  psc_hostname :: string
  psc_log_directory :: string
  psc_dns_config :: "dns_config option"
  psc_port_mappings :: "cri_port_mapping list"
  psc_labels :: str_map
  psc_annotations :: str_map
  psc_linux :: "linux_sandbox_config option"

record sandbox_filter =
  sf_id :: string
  sf_state :: "int option"
  sf_label_selector :: str_map

datatype sandbox_status_msg = PodSandboxStatus
  (pss_id: string) (pss_metadata: pod_sandbox_metadata) (pss_state: int) (pss_created_at: i64)
  (pss_network: "string option") (pss_options: namespace_option) (pss_labels: str_map)
  (pss_annotations: str_map) (pss_runtime_handler: string)

datatype pod_sandbox_msg = PodSandbox
  (ps_id: string) (ps_metadata: pod_sandbox_metadata) (ps_state: int) (ps_created_at: i64)
  (ps_labels: str_map) (ps_annotations: str_map) (ps_runtime_handler: string)

definition NODE :: int where "NODE = 2"
definition POD :: int where "POD = 0"
definition CONTAINER :: int where "CONTAINER = 1"
definition TARGET :: int where "TARGET = 3"

lemmas ns_modes = NODE_def POD_def CONTAINER_def TARGET_def

definition sandbox_metadata :: "sandbox_record \<Rightarrow> pod_sandbox_metadata" where
  "sandbox_metadata r = \<lparr>pm_name = sb_name r, pm_uid = sb_uid r, pm_namespace = sb_k8s_namespace r, pm_attempt = sb_attempt r\<rparr>"

fun sandbox_state_i32 :: "sandbox_state \<Rightarrow> int" where
  "sandbox_state_i32 Ready = 0"
| "sandbox_state_i32 NotReady = 1"

fun container_state_i32 :: "container_state \<Rightarrow> int" where
  "container_state_i32 Created = 0"
| "container_state_i32 Running = 1"
| "container_state_i32 Exited = 2"
| "container_state_i32 Unknown = 3"

text \<open>The selector of a filter: every entry must be among the labels.\<close>

definition labels_match :: "str_map \<Rightarrow> str_map \<Rightarrow> bool" where
  "labels_match selector labels \<longleftrightarrow> list_all (\<lambda>(k, v). map_of labels k = Some v) selector"

definition id_mappings :: "(u32 \<times> u32 \<times> u32) list \<Rightarrow> id_mapping list" where
  "id_mappings ms = map (\<lambda>(c, h, n). \<lparr>idm_container_id = c, idm_host_id = h, idm_size = n\<rparr>) ms"

subsection \<open>Containers\<close>

record hugepage_limit =
  hl_page_size :: string
  hl_limit :: u64

record linux_resources =
  lr_cpu_period :: i64
  lr_cpu_quota :: i64
  lr_cpu_shares :: i64
  lr_memory_limit :: i64
  lr_cpuset_cpus :: string
  lr_cpuset_mems :: string
  lr_hugepage_limits :: "hugepage_limit list"
  lr_unified :: str_map

record security_profile =
  spf_profile_type :: int
  spf_localhost_ref :: string

record selinux_option =
  so_user :: string
  so_role :: string
  so_type :: string
  so_level :: string

record cri_capability =
  cc_add :: "string list"
  cc_drop :: "string list"

record security_context =
  sc_capabilities :: "cri_capability option"
  sc_privileged :: bool
  sc_selinux_options :: "selinux_option option"
  sc_run_as_user :: "i64 option"
  sc_run_as_group :: "i64 option"
  sc_run_as_username :: string
  sc_readonly_rootfs :: bool
  sc_supplemental_groups :: "i64 list"
  sc_no_new_privs :: bool
  sc_masked_paths :: "string list"
  sc_readonly_paths :: "string list"
  sc_seccomp :: "security_profile option"
  sc_apparmor :: "security_profile option"

record cri_device =
  cdv_container_path :: string
  cdv_host_path :: string
  cdv_permissions :: string

record container_config =
  cf_name :: string
  cf_attempt :: u32
  cf_image :: "string option"
  cf_command :: "string list"
  cf_args :: "string list"
  cf_working_dir :: string
  cf_envs :: "(string \<times> bytes) list"
  cf_mounts :: "mount_record list"
  cf_devices :: "cri_device list"
  cf_labels :: str_map
  cf_annotations :: str_map
  cf_log_path :: string
  cf_stdin :: bool
  cf_stdin_once :: bool
  cf_tty :: bool
  cf_resources :: "linux_resources option"
  cf_security_context :: "security_context option"

record container_filter =
  ctf_id :: string
  ctf_pod_sandbox_id :: string
  ctf_state :: "int option"
  ctf_label_selector :: str_map

datatype container_status_msg = ContainerStatus
  (cs_id: string) (cs_name: string) (cs_attempt: u32) (cs_state: int) (cs_created_at: i64)
  (cs_started_at: i64) (cs_finished_at: i64) (cs_exit_code: int) (cs_image: string) (cs_image_ref: string)
  (cs_reason: string) (cs_labels: str_map) (cs_annotations: str_map) (cs_mounts: "mount_record list")
  (cs_log_path: string) (cs_resources: "linux_resources option") (cs_image_id: string)

datatype container_msg = CriContainer
  (cc_id: string) (cc_pod_sandbox_id: string) (cc_name: string) (cc_attempt: u32) (cc_image: string)
  (cc_image_ref: string) (cc_state: int) (cc_created_at: i64) (cc_labels: str_map) (cc_annotations: str_map)
  (cc_image_id: string)

definition record_of_resources :: "linux_resources \<Rightarrow> resources_record" where
  "record_of_resources r =
     \<lparr>rr_cpu_period = lr_cpu_period r, rr_cpu_quota = lr_cpu_quota r, rr_cpu_shares = lr_cpu_shares r,
      rr_memory_limit_in_bytes = lr_memory_limit r, rr_cpuset_cpus = lr_cpuset_cpus r, rr_cpuset_mems = lr_cpuset_mems r\<rparr>"

definition record_to_cri_resources :: "resources_record \<Rightarrow> linux_resources" where
  "record_to_cri_resources r =
     \<lparr>lr_cpu_period = rr_cpu_period r, lr_cpu_quota = rr_cpu_quota r, lr_cpu_shares = rr_cpu_shares r,
      lr_memory_limit = rr_memory_limit_in_bytes r, lr_cpuset_cpus = rr_cpuset_cpus r, lr_cpuset_mems = rr_cpuset_mems r,
      lr_hugepage_limits = [], lr_unified = []\<rparr>"

definition cri_resources :: "linux_resources \<Rightarrow> resources" where
  "cri_resources r =
     \<lparr>rs_cpu_shares = then_some (0 < sint (lr_cpu_shares r)) (lr_cpu_shares r),
      rs_cpu_quota = then_some (lr_cpu_quota r \<noteq> 0) (lr_cpu_quota r),
      rs_cpu_period = then_some (0 < sint (lr_cpu_period r)) (lr_cpu_period r),
      rs_memory_limit = then_some (0 < sint (lr_memory_limit r)) (lr_memory_limit r),
      rs_cpuset_cpus = then_some (lr_cpuset_cpus r \<noteq> []) (lr_cpuset_cpus r),
      rs_cpuset_mems = then_some (lr_cpuset_mems r \<noteq> []) (lr_cpuset_mems r),
      rs_hugepage_limits = map (\<lambda>h. (hl_page_size h, hl_limit h))
        (filter (\<lambda>h. 0 < hl_limit h \<and> hl_page_size h \<noteq> []) (lr_hugepage_limits r)),
      rs_unified = lr_unified r\<rparr>"

definition no_resources :: resources where
  "no_resources = \<lparr>rs_cpu_shares = None, rs_cpu_quota = None, rs_cpu_period = None, rs_memory_limit = None,
     rs_cpuset_cpus = None, rs_cpuset_mems = None, rs_hugepage_limits = [], rs_unified = []\<rparr>"

definition map_seccomp :: "security_profile option \<Rightarrow> seccomp_profile" where
  "map_seccomp sp =
     (case sp of
        None \<Rightarrow> Unconfined
      | Some p \<Rightarrow>
          if spf_profile_type p = 0 then RuntimeDefault
          else if spf_profile_type p = 2 then Localhost (spf_localhost_ref p)
          else Unconfined)"

definition map_apparmor :: "security_profile option \<Rightarrow> string option" where
  "map_apparmor sp =
     Option.bind sp (\<lambda>p.
       if spf_profile_type p = 2 \<and> spf_localhost_ref p \<noteq> [] then Some (spf_localhost_ref p)
       else if spf_profile_type p = 1 then Some ''unconfined''
       else None)"

definition map_selinux :: "selinux_option option \<Rightarrow> string option" where
  "map_selinux opt =
     Option.bind opt (\<lambda>o'.
       if so_user o' = [] \<and> so_role o' = [] \<and> so_type o' = [] \<and> so_level o' = [] then None
       else Some (so_user o' @ '':'' @ so_role o' @ '':'' @ so_type o' @ '':'' @ so_level o'))"

definition map_propagation :: "int \<Rightarrow> propagation" where
  "map_propagation p = (if p = 1 then HostToContainer else if p = 2 then Bidirectional else Private)"

definition cgroups_path :: "string \<Rightarrow> string \<Rightarrow> string" where
  "cgroups_path cgroup_parent i =
     (let base = unwrap_or [] (file_name (components cgroup_parent)) in
      if ends_with base ''.slice'' then base @ '':cri-containerd:'' @ i
      else trim_end_matches (CHR ''/'') cgroup_parent @ ''/'' @ i)"

subsection \<open>Images\<close>

record auth_config =
  ac_username :: string
  ac_password :: string
  ac_auth :: string
  ac_identity_token :: string
  ac_registry_token :: string

datatype cri_image = CriImage
  (ci_id: string) (ci_repo_tags: "string list") (ci_repo_digests: "string list") (ci_size: u64)
  (ci_uid: "int option") (ci_username: string)

definition repo_name :: "string \<Rightarrow> string" where
  "repo_name reference =
     (let seg = (case rsplit_once (CHR ''/'') reference of None \<Rightarrow> reference | Some (_, s) \<Rightarrow> s);
          front = take (length reference - length seg) reference in
      case rsplit_once (CHR '':'') seg of
        Some (a, _) \<Rightarrow> front @ a
      | None \<Rightarrow> reference)"

definition is_digest_ref :: "string \<Rightarrow> bool" where
  "is_digest_ref reference \<longleftrightarrow> CHR ''@'' \<in> set reference"

definition normalize_image_ref :: "string \<Rightarrow> string" where
  "normalize_image_ref reference =
     (if is_digest_ref reference \<or> repo_name reference \<noteq> reference then reference else reference @ '':latest'')"

definition auth_from_config :: "(string \<Rightarrow> bytes option) \<Rightarrow> auth_config \<Rightarrow> auth" where
  "auth_from_config base64 a =
     (if ac_identity_token a \<noteq> [] then Bearer (ac_identity_token a)
      else if ac_registry_token a \<noteq> [] then Bearer (ac_registry_token a)
      else if ac_username a \<noteq> [] then Basic (ac_username a) (ac_password a)
      else if ac_auth a \<noteq> [] then
        unwrap_or Anonymous (decoded_pair base64 (ac_auth a))
      else Anonymous)"

definition record_to_image :: "image_record \<Rightarrow> cri_image" where
  "record_to_image r =
     (let u = hd (split_char (CHR '':'') (im_user r));
          (uid, username) =
            (if u = [] then (None, [])
             else case parse_signed 64 u of Some n \<Rightarrow> (Some n, []) | None \<Rightarrow> (None, u))
      in CriImage (im_image_id r) (im_repo_tags r) (im_repo_digests r) (im_size r) uid username)"

end
