(* ===== verification/Cri_World.thy ===== *)
theory Cri_World
  imports Rust_Files Image_Pull Cri_Messages Oci_Bundle Cni Metadata_Store Content_Store Snapshots Image_GC Seccomp
begin

section \<open>What the CRI server runs on\<close>

text \<open>
  The world of the handlers: the file system and the plugins of \<open>Cni\<close>, the metadata database,
  the clock, the runs of \<open>crun\<close> and of the namespace holder, the signals sent and the events
  published. \<open>crates/runtime/src/crun.rs\<close>, \<open>crates/runtime/src/shim.rs\<close>,
  \<open>crates/runtime/src/cgroup.rs\<close> and \<open>crates/sandbox/src/pid_holder.rs\<close> are modelled here.

  A run of \<open>crun\<close> consumes the next outcome of \<open>cr_crun\<close> and appends its arguments to
  \<open>cr_crun_calls\<close>. While a handler waits (\<open>await\<close>) other tasks may change the database: the
  environment's next action of \<open>cr_env\<close> is applied to it. With an empty list nothing interferes.
\<close>

datatype proc_outcome = ProcError io_error | ProcExit "int option" bytes bytes

datatype container_event_type = ContainerCreatedEvent | ContainerStartedEvent | ContainerStoppedEvent | ContainerDeletedEvent

record container_event =
  ev_container_id :: string
  ev_type :: container_event_type
  ev_created_at :: i64

record 'd cri_os = cni_os +
  cr_db :: 'd
  cr_env :: "('d \<Rightarrow> 'd) list"
  cr_clock :: "nat \<Rightarrow> i64"
  cr_reads :: nat
  cr_late :: "bool list"
  cr_crun :: "proc_outcome list"
  cr_crun_calls :: "string list list"
  cr_helpers :: "(io_error + int \<times> bytes option) list"
  cr_kills :: "int list"
  cr_events :: "container_event list"

datatype status_text =
    Msg string
  | FromMeta meta_error
  | FromContent content_error
  | FromBundle bundle_error
  | FromCore core_error
  | FromIo io_error
  | FromCni cni_error
  | FromPull pull_error

datatype rpc_status = Status status_code status_text

text \<open>What the server reads of an image's configuration object.\<close>

record oci_config_inner =
  oi_env :: "string list"
  oi_entrypoint :: "string list"
  oi_cmd :: "string list"
  oi_working_dir :: string
  oi_user :: string

text \<open>The daemon's context, with the code that is not part of the repository.\<close>

record ('d, 't, 'sec, 'b) cri_ctx =
  cx_content :: store
  cx_snapshots_root :: fpath
  cx_state_dir :: fpath
  cx_namespace :: string
  cx_stream_base_url :: string
  cx_cni :: cni
  cx_no_pivot_root :: bool
  cx_redb :: "('d, 't) redb"
  cx_ser_sandbox :: "sandbox_record \<Rightarrow> string + bytes"
  cx_des_sandbox :: "bytes \<Rightarrow> string + sandbox_record"
  cx_ser_container :: "container_record \<Rightarrow> string + bytes"
  cx_des_container :: "bytes \<Rightarrow> string + container_record"
  cx_ser_image :: "image_record \<Rightarrow> string + bytes"
  cx_des_image :: "bytes \<Rightarrow> string + image_record"
  cx_sha :: "bytes \<Rightarrow> string"
  cx_cni_codec :: cni_codec
  cx_json :: "bytes \<Rightarrow> json option"
  cx_image_config :: "bytes \<Rightarrow> oci_config_inner option"
  cx_bundle_lib :: "'sec bundle_lib"
  cx_rt_default :: "string set \<Rightarrow> string + 'sec"
  cx_tar :: "compression \<Rightarrow> bytes \<Rightarrow> io_error + (io_error + 'b tar_entry) list"
  cx_unpack :: "fpath \<Rightarrow> 'b tar_entry \<Rightarrow> ('d cri_os, io_error, bool) prog"
  cx_save_spec :: "fpath \<Rightarrow> 'sec oci_spec \<Rightarrow> ('d cri_os, bundle_error, unit) prog"
  cx_lchown :: "fpath \<Rightarrow> u32 \<Rightarrow> u32 \<Rightarrow> ('d cri_os, io_error, unit) prog"
  cx_uid :: u32
  cx_gid :: u32
  cx_host_ip :: string

type_synonym ('d, 'a) rpc = "('d cri_os, rpc_status, 'a) prog"

subsection \<open>Waiting, time and events\<close>

definition await :: "('d cri_os, 'e, unit) prog" where
  "await = pmod (\<lambda>w. case cr_env w of [] \<Rightarrow> w | f # fs \<Rightarrow> w\<lparr>cr_db := f (cr_db w), cr_env := fs\<rparr>)"

definition unix_nanos :: "('d cri_os, 'e, i64) prog" where
  "unix_nanos w = (Inr (cr_clock w (cr_reads w)), w\<lparr>cr_reads := Suc (cr_reads w)\<rparr>)"

definition emit_container_event :: "string \<Rightarrow> container_event_type \<Rightarrow> ('d cri_os, 'e, unit) prog" where
  "emit_container_event cid ev =
     pbind unix_nanos (\<lambda>ts. pmod (\<lambda>w. w\<lparr>cr_events := cr_events w @ [\<lparr>ev_container_id = cid, ev_type = ev, ev_created_at = ts\<rparr>]\<rparr>))"

definition gen_id :: "('d, 't, 'sec, 'b) cri_ctx \<Rightarrow> string \<Rightarrow> ('d cri_os, 'e, string) prog" where
  "gen_id cx seed = pbind unix_nanos (\<lambda>t. pret (hex (sha256 (cx_sha cx) (str_bytes (seed @ ''/'' @ dec_int (sint t))))))"

subsection \<open>Bundles\<close>

record shim_bundle =
  bd_dir :: fpath

definition bundle_new :: "fpath \<Rightarrow> string \<Rightarrow> string \<Rightarrow> shim_bundle" where
  "bundle_new state_dir namespace i = \<lparr>bd_dir = fjoin (fjoin state_dir namespace) i\<rparr>"

definition bundle_rootfs :: "shim_bundle \<Rightarrow> fpath" where
  "bundle_rootfs b = bd_dir b @ [''rootfs'']"

definition bundle_config_json :: "shim_bundle \<Rightarrow> fpath" where
  "bundle_config_json b = bd_dir b @ [''config.json'']"

definition address_file :: "shim_bundle \<Rightarrow> fpath" where
  "address_file b = bd_dir b @ [''address'']"

definition bootstrap_json :: "shim_bundle \<Rightarrow> fpath" where
  "bootstrap_json b = bd_dir b @ [''bootstrap.json'']"

definition options_json :: "shim_bundle \<Rightarrow> fpath" where
  "options_json b = bd_dir b @ [''options.json'']"

definition bundle_create :: "shim_bundle \<Rightarrow> ('z os_scheme, io_error, unit) prog" where
  "bundle_create b = create_dir_all (bundle_rootfs b)"

definition bundle_remove :: "shim_bundle \<Rightarrow> ('z os_scheme, io_error, unit) prog" where
  "bundle_remove b = pbind (path_exists (bd_dir b)) (\<lambda>there. pwhen there (remove_dir_all (bd_dir b)))"

definition shim_binary_name :: "string \<Rightarrow> string" where
  "shim_binary_name runtime_id =
     (let parts = split_char (CHR ''.'') runtime_id; n = length parts in
      if 2 \<le> n then ''containerd-shim-'' @ parts ! (n - 2) @ ''-'' @ parts ! (n - 1)
      else ''containerd-shim-'' @ runtime_id)"

definition socket_address :: "(bytes \<Rightarrow> string) \<Rightarrow> fpath \<Rightarrow> string \<Rightarrow> string \<Rightarrow> string" where
  "socket_address sha state_dir namespace group_id =
     ''unix://'' @ path_display state_dir @ ''/s/'' @ hex (sha256 sha (str_bytes (namespace @ ''/'' @ group_id)))"

subsection \<open>crun\<close>

record runtime_state =
  rst_status :: string
  rst_pid :: "int option"

definition is_running :: "runtime_state \<Rightarrow> bool" where
  "is_running st \<longleftrightarrow> rst_status st = ''running''"

definition run_crun :: "string list \<Rightarrow> ('d cri_os, 'e, proc_outcome) prog" where
  "run_crun args w =
     (Inr (case cr_crun w of [] \<Rightarrow> ProcError NotFound | r # _ \<Rightarrow> r),
      w\<lparr>cr_crun_calls := cr_crun_calls w @ [args], cr_crun := tl (cr_crun w)\<rparr>)"

definition exit_success :: "int option \<Rightarrow> bool" where
  "exit_success code \<longleftrightarrow> code = Some 0"

definition state_args :: "fpath \<Rightarrow> string \<Rightarrow> string list" where
  "state_args root i = [''--root'', path_display root, ''state'', i]"

definition kill_args :: "fpath \<Rightarrow> string \<Rightarrow> string \<Rightarrow> string list" where
  "kill_args root i signal = [''--root'', path_display root, ''kill'', i, signal]"

definition delete_force_args :: "fpath \<Rightarrow> string \<Rightarrow> string list" where
  "delete_force_args root i = [''--root'', path_display root, ''delete'', ''--force'', i]"

definition update_args :: "resources \<Rightarrow> string list" where
  "update_args res =
     (case rs_memory_limit res of Some m \<Rightarrow> [''--memory'', dec_int (sint m)] | None \<Rightarrow> [])
     @ (case rs_cpu_quota res of Some q \<Rightarrow> [''--cpu-quota'', dec_int (sint q)] | None \<Rightarrow> [])
     @ (case rs_cpu_period res of Some p \<Rightarrow> [''--cpu-period'', dec (unat p)] | None \<Rightarrow> [])
     @ (case rs_cpu_shares res of Some s \<Rightarrow> [''--cpu-share'', dec (unat s)] | None \<Rightarrow> [])
     @ (case rs_cpuset_cpus res of Some c \<Rightarrow> if c \<noteq> [] then [''--cpuset-cpus'', c] else [] | None \<Rightarrow> [])
     @ (case rs_cpuset_mems res of Some c \<Rightarrow> if c \<noteq> [] then [''--cpuset-mems'', c] else [] | None \<Rightarrow> [])"

definition crun_state :: "fpath \<Rightarrow> string \<Rightarrow> ('d cri_os, 'e, proc_outcome) prog" where
  "crun_state root i = run_crun (state_args root i)"

definition crun_kill :: "fpath \<Rightarrow> string \<Rightarrow> string \<Rightarrow> ('d cri_os, 'e, proc_outcome) prog" where
  "crun_kill root i signal = run_crun (kill_args root i signal)"

definition crun_delete :: "fpath \<Rightarrow> string \<Rightarrow> ('d cri_os, 'e, proc_outcome) prog" where
  "crun_delete root i = run_crun (delete_force_args root i)"

definition crun_update :: "fpath \<Rightarrow> string \<Rightarrow> resources \<Rightarrow> ('d cri_os, 'e, proc_outcome) prog" where
  "crun_update root i res = run_crun ([''--root'', path_display root, ''update''] @ update_args res @ [i])"

definition parse_state :: "(bytes \<Rightarrow> json option) \<Rightarrow> bytes \<Rightarrow> runtime_state option" where
  "parse_state from_slice bs =
     Option.bind (from_slice bs) (\<lambda>v.
     Option.bind (get_str ''status'' v) (\<lambda>st.
       Some \<lparr>rst_status = st,
             rst_pid = (case j_get ''pid'' v of
                          Some (JNum n) \<Rightarrow>
                            if 0 < n \<and> n < 2 ^ 63 then Some (sint (of_int n :: 32 word)) else None
                        | _ \<Rightarrow> None)\<rparr>))"

definition crun_probe :: "(bytes \<Rightarrow> json option) \<Rightarrow> fpath \<Rightarrow> string \<Rightarrow> ('d cri_os, io_error, runtime_state option) prog" where
  "crun_probe from_slice root i =
     pbind (crun_state root i) (\<lambda>out.
       case out of
         ProcError e \<Rightarrow> pfail e
       | ProcExit code sout _ \<Rightarrow> if exit_success code then pret (parse_state from_slice sout) else pret None)"

subsection \<open>The metadata of the daemon\<close>

definition db_step :: "('d \<Rightarrow> 'e + 'a \<times> 'd) \<Rightarrow> ('d cri_os, 'e, 'a) prog" where
  "db_step f w = (case f (cr_db w) of Inl e \<Rightarrow> (Inl e, w) | Inr (x, d) \<Rightarrow> (Inr x, w\<lparr>cr_db := d\<rparr>))"

definition internal :: "('d cri_os, meta_error, 'a) prog \<Rightarrow> ('d, 'a) rpc" where
  "internal m = with_err (\<lambda>e. Status Internal (FromMeta e)) m"

definition get_sandbox :: "('d, 't, 'sec, 'b) cri_ctx \<Rightarrow> string \<Rightarrow> ('d cri_os, meta_error, sandbox_record option) prog" where
  "get_sandbox cx i w = (store_get (cx_redb cx) (cx_des_sandbox cx) Sandbox (cx_namespace cx) i (cr_db w), w)"

definition put_sandbox :: "('d, 't, 'sec, 'b) cri_ctx \<Rightarrow> string \<Rightarrow> sandbox_record \<Rightarrow> ('d cri_os, meta_error, unit) prog" where
  "put_sandbox cx i r =
     db_step (\<lambda>d. rbind (store_put (cx_redb cx) (cx_ser_sandbox cx) Sandbox (cx_namespace cx) i r d) (\<lambda>d. Inr ((), d)))"

definition list_sandboxes :: "('d, 't, 'sec, 'b) cri_ctx \<Rightarrow> ('d cri_os, meta_error, sandbox_record list) prog" where
  "list_sandboxes cx w = (store_list (cx_redb cx) (cx_des_sandbox cx) Sandbox (cx_namespace cx) (cr_db w), w)"

definition get_container :: "('d, 't, 'sec, 'b) cri_ctx \<Rightarrow> string \<Rightarrow> ('d cri_os, meta_error, container_record option) prog" where
  "get_container cx i w = (store_get (cx_redb cx) (cx_des_container cx) Container (cx_namespace cx) i (cr_db w), w)"

definition put_container :: "('d, 't, 'sec, 'b) cri_ctx \<Rightarrow> string \<Rightarrow> container_record \<Rightarrow> ('d cri_os, meta_error, unit) prog" where
  "put_container cx i r =
     db_step (\<lambda>d. rbind (store_put (cx_redb cx) (cx_ser_container cx) Container (cx_namespace cx) i r d) (\<lambda>d. Inr ((), d)))"

definition list_container_records :: "('d, 't, 'sec, 'b) cri_ctx \<Rightarrow> ('d cri_os, meta_error, container_record list) prog" where
  "list_container_records cx w =
     (store_list (cx_redb cx) (cx_des_container cx) Container (cx_namespace cx) (cr_db w), w)"

definition get_image :: "('d, 't, 'sec, 'b) cri_ctx \<Rightarrow> string \<Rightarrow> ('d cri_os, meta_error, image_record option) prog" where
  "get_image cx i w = (store_get (cx_redb cx) (cx_des_image cx) Image (cx_namespace cx) i (cr_db w), w)"

definition put_image :: "('d, 't, 'sec, 'b) cri_ctx \<Rightarrow> string \<Rightarrow> image_record \<Rightarrow> ('d cri_os, meta_error, unit) prog" where
  "put_image cx i r =
     db_step (\<lambda>d. rbind (store_put (cx_redb cx) (cx_ser_image cx) Image (cx_namespace cx) i r d) (\<lambda>d. Inr ((), d)))"

definition list_image_records :: "('d, 't, 'sec, 'b) cri_ctx \<Rightarrow> ('d cri_os, meta_error, image_record list) prog" where
  "list_image_records cx w = (store_list (cx_redb cx) (cx_des_image cx) Image (cx_namespace cx) (cr_db w), w)"

definition delete_record :: "('d, 't, 'sec, 'b) cri_ctx \<Rightarrow> kind \<Rightarrow> string \<Rightarrow> ('d cri_os, meta_error, bool) prog" where
  "delete_record cx k i = db_step (store_delete (cx_redb cx) k (cx_namespace cx) i)"

subsection \<open>The namespace holder\<close>

text \<open>
  \<open>spawn_holder\<close> runs the daemon's own binary as a helper process and reads the process number
  that the helper wrote. The helper is an outcome of the environment: whether it started, its exit
  code and what it left in the file.
\<close>

definition pidfile_path :: "fpath \<Rightarrow> string \<Rightarrow> fpath" where
  "pidfile_path run_dir i = fjoin run_dir (''pidns-'' @ i @ ''.pid'')"

definition run_helper :: "fpath \<Rightarrow> ('d cri_os, io_error, int) prog" where
  "run_helper pidfile w =
     (case cr_helpers w of
        [] \<Rightarrow> (Inl NotFound, w)
      | Inl e # hs \<Rightarrow> (Inl e, w\<lparr>cr_helpers := hs\<rparr>)
      | Inr (code, wrote) # hs \<Rightarrow>
          (Inr code, (case wrote of None \<Rightarrow> id | Some bs \<Rightarrow> set_node pidfile (File bs)) (w\<lparr>cr_helpers := hs\<rparr>)))"

definition spawn_holder :: "fpath \<Rightarrow> string \<Rightarrow> ('d cri_os, io_error, int) prog" where
  "spawn_holder run_dir i =
     (let pidfile = pidfile_path run_dir i in
      pseq (attempt (remove_file pidfile))
        (pbind (run_helper pidfile) (\<lambda>code.
           if code \<noteq> 0 then pfail Fault
           else pbind (read_to_string pidfile) (\<lambda>s. plift (ok_or Fault (parse_signed 32 (trim s)))))))"

definition kill_holder :: "int \<Rightarrow> ('d cri_os, 'e, unit) prog" where
  "kill_holder pid = pmod (\<lambda>w. if pid = 0 then w else w\<lparr>cr_kills := cr_kills w @ [pid]\<rparr>)"

subsection \<open>Control groups\<close>

record cgroup_stats =
  cg_cpu_usage_nanos :: u64
  cg_memory_current_bytes :: u64
  cg_memory_anon_bytes :: u64
  cg_io_rbytes :: u64
  cg_io_wbytes :: u64
  cg_oom_kill :: u64

definition CGROUP2_SUPER_MAGIC :: u64 where "CGROUP2_SUPER_MAGIC = 0x63677270"

datatype cgroup_version = V2 | V1OrHybrid

definition version_from_magic :: "u64 \<Rightarrow> cgroup_version" where
  "version_from_magic magic = (if magic = CGROUP2_SUPER_MAGIC then V2 else V1OrHybrid)"

definition parse_u64 :: "string \<Rightarrow> u64 option" where
  "parse_u64 s = map_option of_nat (parse_unsigned 64 s)"

fun find_key :: "string \<Rightarrow> string list \<Rightarrow> u64 option" where
  "find_key key [] = None"
| "find_key key (line # rest) =
     (case split_whitespace line of
        k # v # _ \<Rightarrow> if k = key then (case parse_u64 v of Some n \<Rightarrow> Some n | None \<Rightarrow> find_key key rest) else find_key key rest
      | _ \<Rightarrow> find_key key rest)"

definition parse_flat_keyed :: "string \<Rightarrow> string \<Rightarrow> u64 option" where
  "parse_flat_keyed content key = find_key key (str_lines content)"

definition io_values :: "string \<Rightarrow> string \<Rightarrow> u64 list" where
  "io_values content field =
     List.map_filter (\<lambda>tok. Option.bind (Option.bind (strip_prefix tok field) (\<lambda>r. strip_prefix r ''='')) parse_u64)
       (concat (map split_whitespace (str_lines content)))"

definition sum_io_field :: "string \<Rightarrow> string \<Rightarrow> u64" where
  "sum_io_field content field = sum_list (io_values content field)"

definition or_default :: "'a \<Rightarrow> ('z os_scheme, io_error, 'a) prog \<Rightarrow> ('z os_scheme, 'e, 'a) prog" where
  "or_default x m = pbind (attempt m) (\<lambda>r. pret (case r of Inl _ \<Rightarrow> x | Inr y \<Rightarrow> y))"

definition read_single :: "fpath \<Rightarrow> string \<Rightarrow> ('z os_scheme, 'e, u64) prog" where
  "read_single dir f = pbind (or_default [] (read_to_string (fjoin dir f))) (\<lambda>s. pret (unwrap_or 0 (parse_u64 (trim s))))"

definition read_flat_keyed :: "fpath \<Rightarrow> string \<Rightarrow> string \<Rightarrow> ('z os_scheme, 'e, u64) prog" where
  "read_flat_keyed dir f key =
     pbind (or_default [] (read_to_string (fjoin dir f))) (\<lambda>s. pret (unwrap_or 0 (parse_flat_keyed s key)))"

definition saturating_mul :: "u64 \<Rightarrow> u64 \<Rightarrow> u64" where
  "saturating_mul a b = (if unat a * unat b < 2 ^ 64 then a * b else - 1)"

definition read_stats :: "fpath \<Rightarrow> ('z os_scheme, 'e, cgroup_stats) prog" where
  "read_stats dir =
     pbind (or_default [] (read_to_string (fjoin dir ''io.stat''))) (\<lambda>io_stat.
     pbind (read_flat_keyed dir ''cpu.stat'' ''usage_usec'') (\<lambda>usec.
     pbind (read_single dir ''memory.current'') (\<lambda>cur.
     pbind (read_flat_keyed dir ''memory.stat'' ''anon'') (\<lambda>anon.
     pbind (read_flat_keyed dir ''memory.events'' ''oom_kill'') (\<lambda>oom.
       pret \<lparr>cg_cpu_usage_nanos = saturating_mul usec 1000, cg_memory_current_bytes = cur, cg_memory_anon_bytes = anon,
             cg_io_rbytes = sum_io_field io_stat ''rbytes'', cg_io_wbytes = sum_io_field io_stat ''wbytes'',
             cg_oom_kill = oom\<rparr>)))))"

definition was_oom_killed :: "fpath \<Rightarrow> ('z os_scheme, 'e, bool) prog" where
  "was_oom_killed dir = pbind (read_flat_keyed dir ''memory.events'' ''oom_kill'') (\<lambda>n. pret (0 < n))"

end
