(* ===== verification/Cri_Sandbox.thy ===== *)
theory Cri_Sandbox
  imports Cri_World
begin

section \<open>Pod sandboxes\<close>

text \<open>
  The sandbox handlers of \<open>crates/cri/src/server.rs\<close>: \<open>RunPodSandbox\<close> with the pod's control
  group, its networking, its \<open>resolv.conf\<close> and its namespace holder, and status, list, stop and
  remove.
\<close>

subsection \<open>Preparations\<close>

definition CGROUP_ROOT :: fpath where
  "CGROUP_ROOT = [''sys'', ''fs'', ''cgroup'']"

definition ensure_pod_cgroup_at :: "fpath \<Rightarrow> string \<Rightarrow> ('z os_scheme, io_error, unit) prog" where
  "ensure_pod_cgroup_at root cgroup_parent =
     (let pod_dir = fjoin root (trim_start_matches (CHR ''/'') cgroup_parent); par = butlast pod_dir in
      pbind (or_default [] (read_to_string (par @ [''cgroup.controllers'']))) (\<lambda>available.
      let to_enable = filter (\<lambda>c. c \<in> set (split_whitespace available)) [''cpu'', ''memory''];
          line = concat (map (\<lambda>c. ''+'' @ c @ '' '') to_enable) in
      pseq (pwhen (to_enable \<noteq> [])
              (pseq (attempt (fs_write (par @ [''cgroup.subtree_control'']) (str_bytes (trim_end line)))) (pret ())))
        (pbind (attempt (create_dir pod_dir)) (\<lambda>r.
           case r of
             Inr _ \<Rightarrow> pret ()
           | Inl e \<Rightarrow> if e = AlreadyExists then pret () else pfail e))))"

definition ensure_pod_cgroup :: "string \<Rightarrow> ('z os_scheme, io_error, unit) prog" where
  "ensure_pod_cgroup cgroup_parent = ensure_pod_cgroup_at CGROUP_ROOT cgroup_parent"

definition has_dns :: "dns_config option \<Rightarrow> bool" where
  "has_dns dns =
     (case dns of None \<Rightarrow> False | Some d \<Rightarrow> dns_servers d \<noteq> [] \<or> dns_searches d \<noteq> [] \<or> dns_options d \<noteq> [])"

definition resolv_conf_text :: "dns_config \<Rightarrow> string" where
  "resolv_conf_text d =
     (if dns_searches d \<noteq> [] then ''search '' @ join_with '' '' (dns_searches d) @ [CHR 0x0A] else [])
     @ concat (map (\<lambda>ns. ''nameserver '' @ ns @ [CHR 0x0A]) (dns_servers d))
     @ (if dns_options d \<noteq> [] then ''options '' @ join_with '' '' (dns_options d) @ [CHR 0x0A] else [])"

definition write_sandbox_resolv_conf ::
  "('d, 't, 'sec, 'b) cri_ctx \<Rightarrow> string \<Rightarrow> dns_config option \<Rightarrow> ('d cri_os, 'e, string option) prog" where
  "write_sandbox_resolv_conf cx sandbox_id dns =
     (let dir = fjoin (fjoin (cx_state_dir cx) (cx_namespace cx)) sandbox_id; path = dir @ [''resolv.conf''] in
      pbind (attempt (create_dir_all dir)) (\<lambda>r.
        case r of
          Inl _ \<Rightarrow> pret None
        | Inr _ \<Rightarrow>
            pbind (if has_dns dns then pret (resolv_conf_text (the dns))
                   else or_default [] (read_to_string [''etc'', ''resolv.conf''])) (\<lambda>content.
            pbind (attempt (fs_write path (str_bytes content))) (\<lambda>r.
              pret (case r of Inr _ \<Rightarrow> Some (path_display path) | Inl _ \<Rightarrow> None)))))"

definition validate_userns_map :: "cri_id_mapping list \<Rightarrow> rpc_status + (u32 \<times> u32 \<times> u32) list" where
  "validate_userns_map m =
     (if length m \<noteq> 1 then Inl (Status InvalidArgument (Msg ''user namespace requires exactly one uid/gid mapping''))
      else if cim_container_id (m ! 0) \<noteq> 0 then
        Inl (Status InvalidArgument (Msg ''user namespace mapping must start at container ID 0''))
      else Inr (map (\<lambda>x. (cim_container_id x, cim_host_id x, cim_length x)) m))"

definition userns_of ::
  "user_namespace option \<Rightarrow> rpc_status + bool \<times> (u32 \<times> u32 \<times> u32) list \<times> (u32 \<times> u32 \<times> u32) list" where
  "userns_of opts =
     (case opts of
        None \<Rightarrow> Inr (False, [], [])
      | Some u \<Rightarrow>
          if un_mode u = POD then
            rbind (validate_userns_map (un_uids u)) (\<lambda>us. rbind (validate_userns_map (un_gids u)) (\<lambda>gs. Inr (True, us, gs)))
          else if un_mode u = CONTAINER \<or> un_mode u = TARGET then
            Inl (Status InvalidArgument (Msg ''unsupported user namespace mode: only NODE and POD are supported''))
          else Inr (False, [], []))"

definition pod_port :: "cri_port_mapping \<Rightarrow> port_mapping" where
  "pod_port pm =
     \<lparr>pm_host_port = cpm_host_port pm, pm_container_port = cpm_container_port pm,
      pm_protocol = (if cpm_protocol pm = 1 then ''udp'' else if cpm_protocol pm = 2 then ''sctp'' else ''tcp''),
      pm_host_ip = cpm_host_ip pm\<rparr>"

text \<open>The pod's network: the host's, or a namespace that the plugins set up. When they fail the
  namespace is torn down and the request fails.\<close>

definition pod_network ::
  "('d, 't, 'sec, 'b) cri_ctx \<Rightarrow> string \<Rightarrow> bool \<Rightarrow> port_mapping list \<Rightarrow> ('d, string \<times> string) rpc" where
  "pod_network cx i host_network pms =
     (if host_network then pret (''host'', cx_host_ip cx)
      else
        pbind (attempt (pseq (create_netns (cx_cni cx) i) (cni_setup (cx_cni_codec cx) (cx_cni cx) i i pms))) (\<lambda>r.
          case r of
            Inr ip \<Rightarrow> pret (path_display (netns_path (cx_cni cx) i), ip)
          | Inl e \<Rightarrow>
              pseq (attempt (cni_teardown (cx_cni_codec cx) (cx_cni cx) i i)) (pfail (Status Unavailable (FromCni e)))))"

text \<open>Earlier sandboxes of the same pod stop being ready; a failing write is passed over.\<close>

definition same_pod :: "sandbox_record \<Rightarrow> sandbox_record \<Rightarrow> bool" where
  "same_pod a b \<longleftrightarrow> sb_name a = sb_name b \<and> sb_k8s_namespace a = sb_k8s_namespace b \<and> sb_uid a = sb_uid b"

definition demote_one :: "('d, 't, 'sec, 'b) cri_ctx \<Rightarrow> sandbox_record \<Rightarrow> sandbox_record \<Rightarrow> ('d, unit) rpc" where
  "demote_one cx rec other =
     pwhen (sb_id other \<noteq> sb_id rec \<and> sb_state other = Ready \<and> same_pod other rec)
       (pseq (attempt (put_sandbox cx (sb_id other) (other\<lparr>sb_state := NotReady\<rparr>))) (pret ()))"

definition demote_others :: "('d, 't, 'sec, 'b) cri_ctx \<Rightarrow> sandbox_record \<Rightarrow> ('d, unit) rpc" where
  "demote_others cx rec =
     pbind (attempt (list_sandboxes cx)) (\<lambda>r.
       case r of
         Inl _ \<Rightarrow> pret ()
       | Inr existing \<Rightarrow> piter (demote_one cx rec) existing)"

definition holder_for :: "('d, 't, 'sec, 'b) cri_ctx \<Rightarrow> string \<Rightarrow> bool \<Rightarrow> ('d, int option) rpc" where
  "holder_for cx i shared =
     (if shared then pbind (attempt (spawn_holder (cx_state_dir cx) i)) (\<lambda>r. pret (case r of Inr pid \<Rightarrow> Some pid | Inl _ \<Rightarrow> None))
      else pret None)"

subsection \<open>RunPodSandbox\<close>

definition ns_options :: "pod_sandbox_config \<Rightarrow> namespace_option option" where
  "ns_options config = Option.bind (psc_linux config) ls_namespace_options"

definition mode_is :: "namespace_option option \<Rightarrow> (namespace_option \<Rightarrow> int) \<Rightarrow> int \<Rightarrow> bool" where
  "mode_is opts sel m = (case opts of None \<Rightarrow> False | Some ns \<Rightarrow> sel ns = m)"

definition shares_host :: "pod_sandbox_config \<Rightarrow> (namespace_option \<Rightarrow> int) \<Rightarrow> bool" where
  "shares_host config sel = mode_is (ns_options config) sel NODE"

definition shares_pod :: "pod_sandbox_config \<Rightarrow> (namespace_option \<Rightarrow> int) \<Rightarrow> bool" where
  "shares_pod config sel \<longleftrightarrow> \<not> shares_host config sel \<and> mode_is (ns_options config) sel POD"

definition pod_metadata :: "pod_sandbox_config \<Rightarrow> pod_sandbox_metadata" where
  "pod_metadata config = unwrap_or \<lparr>pm_name = [], pm_uid = [], pm_namespace = [], pm_attempt = 0\<rparr> (psc_metadata config)"

definition pod_cgroup :: "pod_sandbox_config \<Rightarrow> string" where
  "pod_cgroup config = (case psc_linux config of None \<Rightarrow> [] | Some l \<Rightarrow> ls_cgroup_parent l)"

definition new_sandbox_record ::
  "pod_sandbox_config \<Rightarrow> string \<Rightarrow> string \<Rightarrow> bool \<times> (u32 \<times> u32 \<times> u32) list \<times> (u32 \<times> u32 \<times> u32) list \<Rightarrow> string \<times> string
    \<Rightarrow> string option \<Rightarrow> int option \<Rightarrow> i64 \<Rightarrow> sandbox_record" where
  "new_sandbox_record config runtime_handler i userns net resolv holder created =
     (let meta = pod_metadata config; (userns_mode_pod, uids, gids) = userns; (netns, ip) = net in
      \<lparr>sb_id = i, sb_name = pm_name meta, sb_k8s_namespace = pm_namespace meta, sb_uid = pm_uid meta,
       sb_attempt = pm_attempt meta, sb_state = Ready, sb_netns_path = Some netns, sb_ip = Some ip,
       sb_runtime_handler = runtime_handler, sb_pause_container_id = None, sb_snapshot_key = None,
       sb_created_at = created, sb_labels = psc_labels config, sb_annotations = psc_annotations config,
       sb_log_directory = psc_log_directory config, sb_host_network = shares_host config no_network,
       sb_host_pid = shares_host config no_pid, sb_host_ipc = shares_host config no_ipc,
       sb_shared_pid = shares_pod config no_pid, sb_shared_ipc = shares_pod config no_ipc, sb_pid_holder_pid = holder,
       sb_userns_mode_pod = userns_mode_pod, sb_userns_uid_mappings = uids, sb_userns_gid_mappings = gids,
       sb_resolv_conf_path = resolv, sb_sysctls = (case psc_linux config of None \<Rightarrow> [] | Some l \<Rightarrow> ls_sysctls l),
       sb_cgroup_parent = pod_cgroup config, sb_hostname = psc_hostname config\<rparr>)"

definition run_pod_sandbox ::
  "('d, 't, 'sec, 'b) cri_ctx \<Rightarrow> pod_sandbox_config option \<Rightarrow> string \<Rightarrow> ('d, string) rpc" where
  "run_pod_sandbox cx config_opt runtime_handler =
     pbind (plift (ok_or (Status InvalidArgument (Msg ''pod sandbox config required'')) config_opt)) (\<lambda>config.
     let meta = pod_metadata config in
     pbind (gen_id cx (pm_namespace meta @ ''/'' @ pm_name meta @ ''/'' @ pm_uid meta)) (\<lambda>i.
     pseq (pwhen (pod_cgroup config \<noteq> []) (pseq (attempt (ensure_pod_cgroup (pod_cgroup config))) (pret ())))
     (pbind (plift (userns_of (Option.bind (ns_options config) no_userns_options))) (\<lambda>userns.
      pbind (pod_network cx i (shares_host config no_network) (map pod_port (psc_port_mappings config))) (\<lambda>net.
      pbind (write_sandbox_resolv_conf cx i (psc_dns_config config)) (\<lambda>resolv.
      pbind (holder_for cx i (shares_pod config no_pid \<or> shares_pod config no_ipc)) (\<lambda>holder.
      pbind unix_nanos (\<lambda>created.
      let rec = new_sandbox_record config runtime_handler i userns net resolv holder created in
      pseq (demote_others cx rec)
        (pseq (internal (put_sandbox cx i rec)) (pret i))))))))))"

subsection \<open>Status and list\<close>

definition sandbox_not_found :: "string \<Rightarrow> rpc_status" where
  "sandbox_not_found i = Status NotFoundCode (Msg (''sandbox '' @ i @ '' not found''))"

definition require_sandbox :: "('d, 't, 'sec, 'b) cri_ctx \<Rightarrow> string \<Rightarrow> ('d, sandbox_record) rpc" where
  "require_sandbox cx i = pbind (internal (get_sandbox cx i)) (\<lambda>r. plift (ok_or (sandbox_not_found i) r))"

definition to_cri_mapping :: "u32 \<times> u32 \<times> u32 \<Rightarrow> cri_id_mapping" where
  "to_cri_mapping = (\<lambda>(c, h, n). \<lparr>cim_host_id = h, cim_container_id = c, cim_length = n\<rparr>)"

definition status_of_sandbox :: "sandbox_record \<Rightarrow> sandbox_status_msg" where
  "status_of_sandbox r =
     PodSandboxStatus (sb_id r) (sandbox_metadata r) (sandbox_state_i32 (sb_state r)) (sb_created_at r) (sb_ip r)
       \<lparr>no_network = (if sb_host_network r then NODE else POD), no_pid = (if sb_host_pid r then NODE else CONTAINER),
        no_ipc = (if sb_host_ipc r then NODE else POD), no_target_id = [],
        no_userns_options =
          (if sb_userns_mode_pod r then
             Some \<lparr>un_mode = POD, un_uids = map to_cri_mapping (sb_userns_uid_mappings r),
                   un_gids = map to_cri_mapping (sb_userns_gid_mappings r)\<rparr>
           else None)\<rparr>
       (sb_labels r) (sb_annotations r) (sb_runtime_handler r)"

definition pod_sandbox_status :: "('d, 't, 'sec, 'b) cri_ctx \<Rightarrow> string \<Rightarrow> ('d, sandbox_status_msg \<times> i64) rpc" where
  "pod_sandbox_status cx i =
     pbind (require_sandbox cx i) (\<lambda>r. pbind unix_nanos (\<lambda>ts. pret (status_of_sandbox r, ts)))"

definition sandbox_matches :: "sandbox_filter option \<Rightarrow> sandbox_record \<Rightarrow> bool" where
  "sandbox_matches filt r =
     (case filt of
        None \<Rightarrow> True
      | Some f \<Rightarrow>
          (sf_id f = [] \<or> sf_id f = sb_id r)
          \<and> (case sf_state f of None \<Rightarrow> True | Some s \<Rightarrow> s = sandbox_state_i32 (sb_state r))
          \<and> labels_match (sf_label_selector f) (sb_labels r))"

definition to_pod_sandbox :: "sandbox_record \<Rightarrow> pod_sandbox_msg" where
  "to_pod_sandbox r =
     PodSandbox (sb_id r) (sandbox_metadata r) (sandbox_state_i32 (sb_state r)) (sb_created_at r) (sb_labels r)
       (sb_annotations r) (sb_runtime_handler r)"

definition list_pod_sandbox :: "('d, 't, 'sec, 'b) cri_ctx \<Rightarrow> sandbox_filter option \<Rightarrow> ('d, pod_sandbox_msg list) rpc" where
  "list_pod_sandbox cx filt =
     pbind (internal (list_sandboxes cx)) (\<lambda>rs. pret (map to_pod_sandbox (filter (sandbox_matches filt) rs)))"

subsection \<open>Stop and remove\<close>

definition stop_pod_sandbox :: "('d, 't, 'sec, 'b) cri_ctx \<Rightarrow> string \<Rightarrow> ('d, unit) rpc" where
  "stop_pod_sandbox cx i =
     pbind (internal (get_sandbox cx i)) (\<lambda>r.
       case r of
         None \<Rightarrow> pret ()
       | Some rec \<Rightarrow>
           pseq (case sb_pid_holder_pid rec of Some holder \<Rightarrow> kill_holder holder | None \<Rightarrow> pret ())
             (internal (put_sandbox cx i (rec\<lparr>sb_state := NotReady, sb_pid_holder_pid := None\<rparr>))))"

definition remove_pod_sandbox :: "('d, 't, 'sec, 'b) cri_ctx \<Rightarrow> string \<Rightarrow> ('d, unit) rpc" where
  "remove_pod_sandbox cx i =
     pbind (attempt (get_sandbox cx i)) (\<lambda>r.
       pseq (case r of
               Inr (Some rec) \<Rightarrow>
                 pseq (pwhen (case sb_netns_path rec of Some p \<Rightarrow> p \<noteq> ''host'' | None \<Rightarrow> False)
                         (pseq (attempt (cni_teardown (cx_cni_codec cx) (cx_cni cx) i i)) (pret ())))
                   (case sb_pid_holder_pid rec of Some holder \<Rightarrow> kill_holder holder | None \<Rightarrow> pret ())
             | _ \<Rightarrow> pret ())
         (pseq (internal (delete_record cx Sandbox i)) (pret ())))"

end
