(* ===== verification/Cri_Container.thy ===== *)
theory Cri_Container
  imports Cri_Sandbox
begin

section \<open>Containers\<close>

text \<open>
  The container handlers of \<open>crates/cri/src/server.rs\<close>: create, start, the end of supervision,
  stop, remove, resize, status, list, and the reconciliation after a restart of the daemon.
  Running the container's process belongs to \<open>crun\<close>; what a handler starts in the background
  (the supervision task) is a program of its own, which the environment runs when the process
  ends.
\<close>

subsection \<open>Images of a container\<close>

definition image_answers :: "string \<Rightarrow> image_record \<Rightarrow> bool" where
  "image_answers image_ref r \<longleftrightarrow>
     (let nref = normalize_image_ref image_ref in
      im_image_id r = image_ref \<or> list_ex (\<lambda>t. t = image_ref \<or> t = nref) (im_repo_tags r)
      \<or> list_ex (\<lambda>d. d = image_ref) (im_repo_digests r) \<or> im_name r = image_ref)"

definition find_image :: "('d, 't, 'sec, 'b) cri_ctx \<Rightarrow> string \<Rightarrow> ('d, image_record option) rpc" where
  "find_image cx image_ref =
     pbind (internal (list_image_records cx)) (\<lambda>rs. pret (List.find (image_answers image_ref) rs))"

definition empty_image_config :: image_config where
  "empty_image_config = \<lparr>ic_env = [], ic_entrypoint = [], ic_cmd = [], ic_working_dir = None, ic_user = None\<rparr>"

definition image_config_of :: "oci_config_inner \<Rightarrow> image_config" where
  "image_config_of c =
     \<lparr>ic_env = oi_env c, ic_entrypoint = oi_entrypoint c, ic_cmd = oi_cmd c,
      ic_working_dir = then_some (oi_working_dir c \<noteq> []) (oi_working_dir c), ic_user = then_some (oi_user c \<noteq> []) (oi_user c)\<rparr>"

definition parse_image_config :: "('d, 't, 'sec, 'b) cri_ctx \<Rightarrow> string \<Rightarrow> ('d cri_os, 'e, image_config) prog" where
  "parse_image_config cx image_id =
     (case digest_from_str image_id of
        Inl _ \<Rightarrow> pret empty_image_config
      | Inr d \<Rightarrow>
          pbind (attempt (read_blob (cx_content cx) d)) (\<lambda>r.
            pret (unwrap_or empty_image_config (map_option image_config_of (Option.bind (ok r) (cx_image_config cx))))))"

definition unpack_layer :: "('d, 't, 'sec, 'b) cri_ctx \<Rightarrow> fpath \<Rightarrow> string \<Rightarrow> ('d, unit) rpc" where
  "unpack_layer cx rootfs ld =
     pbind (plift (map_err (\<lambda>e. Status Internal (FromCore e)) (digest_from_str ld))) (\<lambda>d.
     pbind (with_err (\<lambda>e. Status Internal (FromContent e)) (read_blob (cx_content cx) d)) (\<lambda>bs.
       with_err (\<lambda>e. Status Internal (FromIo e))
         (apply_layer (cx_tar cx) (cx_unpack cx) rootfs bs (detect_compression bs))))"

definition unpack_rootfs :: "('d, 't, 'sec, 'b) cri_ctx \<Rightarrow> string list \<Rightarrow> fpath \<Rightarrow> ('d, unit) rpc" where
  "unpack_rootfs cx layers rootfs = piter (unpack_layer cx rootfs) layers"

subsection \<open>CreateContainer\<close>

definition bad_group :: "security_context option \<Rightarrow> bool" where
  "bad_group sec =
     (case sec of
        None \<Rightarrow> False
      | Some sc \<Rightarrow> sc_run_as_group sc \<noteq> None \<and> sc_run_as_user sc = None \<and> sc_run_as_username sc = [])"

definition check_rro :: "mount_record \<Rightarrow> rpc_status + unit" where
  "check_rro m =
     (if \<not> mr_recursive_read_only m then Inr ()
      else if \<not> mr_readonly m then
        Inl (Status InvalidArgument (Msg (''recursive read-only mount '' @ mr_container_path m @ '' requires readonly=true'')))
      else if mr_propagation m \<noteq> 0 then
        Inl (Status InvalidArgument (Msg (''recursive read-only mount '' @ mr_container_path m @ '' requires private propagation'')))
      else Inr ())"

definition mount_spec_of :: "mount_record \<Rightarrow> mount_spec" where
  "mount_spec_of m =
     \<lparr>ms_source = mr_host_path m, ms_destination = mr_container_path m, ms_readonly = mr_readonly m,
      ms_propagation = map_propagation (mr_propagation m), ms_recursive_read_only = mr_recursive_read_only m\<rparr>"

definition resolv_mount :: "string \<Rightarrow> mount_spec" where
  "resolv_mount rc =
     \<lparr>ms_source = rc, ms_destination = ''/etc/resolv.conf'', ms_readonly = True, ms_propagation = Private,
      ms_recursive_read_only = False\<rparr>"

definition request_mounts :: "sandbox_record \<Rightarrow> container_config \<Rightarrow> ('z os_scheme, 'e, mount_spec list) prog" where
  "request_mounts sandbox config =
     (let mounts = map mount_spec_of (cf_mounts config) in
      case sb_resolv_conf_path sandbox of
        None \<Rightarrow> pret mounts
      | Some rc \<Rightarrow>
          if list_ex (\<lambda>m. ms_destination m = ''/etc/resolv.conf'') mounts then pret mounts
          else pbind (is_file (fs_path rc)) (\<lambda>there. pret (if there then mounts @ [resolv_mount rc] else mounts)))"

definition sec_get :: "'a \<Rightarrow> (security_context \<Rightarrow> 'a) \<Rightarrow> security_context option \<Rightarrow> 'a" where
  "sec_get d f sec = (case sec of None \<Rightarrow> d | Some sc \<Rightarrow> f sc)"

definition holder_ns :: "bool \<Rightarrow> int option \<Rightarrow> string \<Rightarrow> string option" where
  "holder_ns shared holder kind =
     (if shared then map_option (\<lambda>p. ''/proc/'' @ dec_int p @ ''/ns/'' @ kind) holder else None)"

definition config_devices :: "container_config \<Rightarrow> device_request list" where
  "config_devices config =
     (if sec_get False sc_privileged (cf_security_context config) then []
      else map (\<lambda>d. \<lparr>dq_host_path = cdv_host_path d, dq_container_path = cdv_container_path d,
                     dq_permissions = cdv_permissions d\<rparr>) (cf_devices config))"

definition build_request ::
  "('d, 't, 'sec, 'b) cri_ctx \<Rightarrow> sandbox_record \<Rightarrow> container_config \<Rightarrow> string \<Rightarrow> bool \<Rightarrow> mount_spec list \<Rightarrow> container_request" where
  "build_request cx sandbox config i selinux mounts =
     (let sec = cf_security_context config; caps = Option.bind sec sc_capabilities in
      \<lparr>rq_command = cf_command config, rq_args = cf_args config,
       rq_envs = map (\<lambda>(k, v). (k, from_utf8_lossy v)) (cf_envs config),
       rq_working_dir = then_some (cf_working_dir config \<noteq> []) (cf_working_dir config),
       rq_hostname = then_some (\<not> sb_host_network sandbox \<and> sb_hostname sandbox \<noteq> []) (sb_hostname sandbox),
       rq_terminal = cf_tty config, rq_readonly_rootfs = sec_get False sc_readonly_rootfs sec,
       rq_rootless_host_ids = (if cx_uid cx = 0 then None else Some (cx_uid cx, cx_gid cx)),
       rq_netns_path = sb_netns_path sandbox,
       rq_pid_ns_path = holder_ns (sb_shared_pid sandbox) (sb_pid_holder_pid sandbox) ''pid'',
       rq_ipc_ns_path = holder_ns (sb_shared_ipc sandbox) (sb_pid_holder_pid sandbox) ''ipc'',
       rq_mounts = mounts, rq_privileged = sec_get False sc_privileged sec,
       rq_run_as_user = map_option ucast (Option.bind sec sc_run_as_user),
       rq_run_as_group = map_option ucast (Option.bind sec sc_run_as_group),
       rq_supplemental_groups = map ucast (sec_get [] sc_supplemental_groups sec),
       rq_sysctls = sb_sysctls sandbox,
       rq_resources = (case cf_resources config of None \<Rightarrow> no_resources | Some r \<Rightarrow> cri_resources r),
       rq_cgroup_path = then_some (sb_cgroup_parent sandbox \<noteq> []) (cgroups_path (sb_cgroup_parent sandbox) i),
       rq_add_capabilities = (case caps of None \<Rightarrow> [] | Some c \<Rightarrow> cc_add c),
       rq_drop_capabilities = (case caps of None \<Rightarrow> [] | Some c \<Rightarrow> cc_drop c),
       rq_no_new_privileges = sec_get False sc_no_new_privs sec,
       rq_apparmor_profile = map_apparmor (Option.bind sec sc_apparmor),
       rq_selinux_label = (if selinux then map_selinux (Option.bind sec sc_selinux_options) else None),
       rq_masked_paths = sec_get [] sc_masked_paths sec, rq_readonly_paths = sec_get [] sc_readonly_paths sec,
       rq_seccomp = map_seccomp (Option.bind sec sc_seccomp),
       rq_host_pid = sb_host_pid sandbox, rq_host_ipc = sb_host_ipc sandbox,
       rq_userns_uid_mappings = id_mappings (sb_userns_uid_mappings sandbox),
       rq_userns_gid_mappings = id_mappings (sb_userns_gid_mappings sandbox),
       rq_devices = config_devices config\<rparr>)"

text \<open>Ownership of an unpacked root for a pod with a user namespace. \<open>chown_tree\<close> stops at the first call
  that fails; its recursion is bounded by the depth of the deepest path, which is enough
  (\<open>chown_tree_enough\<close>). The \<open>lchown\<close> call is an argument.\<close>

definition fs_depth :: "fsys \<Rightarrow> nat" where
  "fs_depth fs = fold (\<lambda>(p, _) n. max (length p) n) fs 0"

definition symlink_is_dir :: "fpath \<Rightarrow> ('z os_scheme, io_error, bool) prog" where
  "symlink_is_dir p = syscall (\<lambda>w.
     if p = [] then Inr (True, w)
     else case lookup w p of Some node \<Rightarrow> Inr (node = Dir, w) | None \<Rightarrow> Inl NotFound)"

fun chown_tree_from ::
  "(fpath \<Rightarrow> u32 \<Rightarrow> u32 \<Rightarrow> ('z os_scheme, io_error, unit) prog) \<Rightarrow> nat \<Rightarrow> fpath \<Rightarrow> u32 \<Rightarrow> u32
   \<Rightarrow> ('z os_scheme, io_error, unit) prog" where
  "chown_tree_from lchown 0 p uid gid = pfail Fault"
| "chown_tree_from lchown (Suc n) p uid gid =
     pseq (lchown p uid gid)
     (pbind (symlink_is_dir p) (\<lambda>dir.
      if dir then
        pbind (read_dir p) (\<lambda>entries.
          piter (\<lambda>(q, _). pseq sync_handle (chown_tree_from lchown n q uid gid)) entries)
      else pret ()))"

definition chown_tree ::
  "(fpath \<Rightarrow> u32 \<Rightarrow> u32 \<Rightarrow> ('z os_scheme, io_error, unit) prog) \<Rightarrow> fpath \<Rightarrow> u32 \<Rightarrow> u32
   \<Rightarrow> ('z os_scheme, io_error, unit) prog" where
  "chown_tree lchown p uid gid w = chown_tree_from lchown (Suc (fs_depth (os_fs w))) p uid gid w"

definition chown_rootfs :: "('d, 't, 'sec, 'b) cri_ctx \<Rightarrow> container_request \<Rightarrow> fpath \<Rightarrow> ('d, unit) rpc" where
  "chown_rootfs cx req rootfs =
     (case rq_userns_uid_mappings req of
        [] \<Rightarrow> pret ()
      | base # _ \<Rightarrow>
          let gid_base = (case rq_userns_gid_mappings req of [] \<Rightarrow> idm_host_id base | m # _ \<Rightarrow> idm_host_id m) in
          with_err (\<lambda>e. Status Internal (FromIo e)) (chown_tree (cx_lchown cx) rootfs (idm_host_id base) gid_base))"

definition absolute_log_path :: "sandbox_record \<Rightarrow> container_config \<Rightarrow> string" where
  "absolute_log_path sandbox config =
     (if is_absolute (cf_log_path config) \<or> sb_log_directory sandbox = [] then cf_log_path config
      else path_join (sb_log_directory sandbox) (cf_log_path config))"

text \<open>An empty log file for the kubelet to open; failures are passed over.\<close>

definition append_open :: "fpath \<Rightarrow> ('z os_scheme, io_error, unit) prog" where
  "append_open p = pbind (is_file p) (\<lambda>there. if there then sync_handle else create_file p)"

definition touch_log :: "string \<Rightarrow> ('z os_scheme, 'e, unit) prog" where
  "touch_log log_path =
     pwhen (log_path \<noteq> [] \<and> is_absolute log_path)
       (pseq (pwhen (fs_path log_path \<noteq> []) (pseq (attempt (create_dir_all (butlast (fs_path log_path)))) (pret ())))
         (pseq (attempt (append_open (fs_path log_path))) (pret ())))"

definition new_container_record ::
  "sandbox_record \<Rightarrow> container_config \<Rightarrow> string \<Rightarrow> string \<Rightarrow> string \<Rightarrow> i64 \<Rightarrow> container_record" where
  "new_container_record sandbox config i sandbox_id image_id created =
     \<lparr>ct_id = i, ct_sandbox_id = sandbox_id, ct_name = cf_name config, ct_attempt = cf_attempt config,
      ct_image_ref = unwrap_or [] (cf_image config), ct_image_id = image_id, ct_state = Created, ct_snapshot_key = [],
      ct_log_path = absolute_log_path sandbox config, ct_created_at = created, ct_started_at = None,
      ct_finished_at = None, ct_exit_code = None, ct_reason = None, ct_labels = cf_labels config,
      ct_annotations = cf_annotations config, ct_mounts = cf_mounts config,
      ct_resources = map_option record_of_resources (cf_resources config), ct_crun_root = None, ct_bundle_dir = None,
      ct_pid = None, ct_restart_count = 0, ct_stdin = cf_stdin config, ct_stdin_once = cf_stdin_once config,
      ct_devices = map (\<lambda>d. (dq_host_path d, dq_container_path d, dq_permissions d)) (config_devices config)\<rparr>"

definition bundle_error_status :: "bundle_error \<Rightarrow> rpc_status" where
  "bundle_error_status e = Status Internal (FromBundle e)"

definition make_bundle ::
  "('d, 't, 'sec, 'b) cri_ctx \<Rightarrow> image_config \<Rightarrow> string list \<Rightarrow> container_request \<Rightarrow> string \<Rightarrow> ('d, unit) rpc" where
  "make_bundle cx image_cfg layers req i =
     (let bd = bundle_new (cx_state_dir cx) (cx_namespace cx) i in
      pseq (with_err (\<lambda>e. Status Internal (FromIo e)) (bundle_create bd))
        (pseq (unpack_rootfs cx layers (bundle_rootfs bd))
          (pseq (chown_rootfs cx req (bundle_rootfs bd))
            (pbind (with_err bundle_error_status
                (generate_spec (cx_bundle_lib cx) (cx_rt_default cx) image_cfg req (path_display (bundle_rootfs bd)))) (\<lambda>spec.
              pseq (with_err bundle_error_status (write_bundle (cx_save_spec cx) (bd_dir bd) spec)) (pret ()))))))"

definition host_selinux_enabled :: "('z os_scheme, 'e, bool) prog" where
  "host_selinux_enabled = path_exists [''sys'', ''fs'', ''selinux'', ''enforce'']"

text \<open>\<open>create_with_id\<close> is what follows the choice of the identifier.\<close>

definition create_with_id ::
  "('d, 't, 'sec, 'b) cri_ctx \<Rightarrow> sandbox_record \<Rightarrow> string \<Rightarrow> container_config \<Rightarrow> string \<Rightarrow> ('d, string) rpc" where
  "create_with_id cx sandbox sandbox_id config i =
     pbind (find_image cx (unwrap_or [] (cf_image config))) (\<lambda>image_rec.
     let image_id = (case image_rec of None \<Rightarrow> [] | Some r \<Rightarrow> im_image_id r) in
     pbind (parse_image_config cx image_id) (\<lambda>image_cfg.
     let layers = (case image_rec of None \<Rightarrow> [] | Some r \<Rightarrow> im_layer_digests r) in
     pseq (pguard (\<not> bad_group (cf_security_context config))
             (Status InvalidArgument (Msg ''RunAsGroup is specified without RunAsUser'')))
     (pseq (piter (\<lambda>m. plift (check_rro m)) (cf_mounts config))
     (pbind (request_mounts sandbox config) (\<lambda>mounts.
      pbind host_selinux_enabled (\<lambda>selinux.
      let req = build_request cx sandbox config i selinux mounts in
      pseq (make_bundle cx image_cfg layers req i)
      (pbind unix_nanos (\<lambda>created.
       let rec = new_container_record sandbox config i sandbox_id image_id created in
       pseq (touch_log (ct_log_path rec))
        (pseq (internal (put_container cx i rec))
          (pseq (emit_container_event i ContainerCreatedEvent) (pret i)))))))))))"

definition container_seed :: "string \<Rightarrow> container_config \<Rightarrow> string" where
  "container_seed sandbox_id config = sandbox_id @ ''/'' @ cf_name config @ ''/'' @ dec (unat (cf_attempt config))"

definition create_container ::
  "('d, 't, 'sec, 'b) cri_ctx \<Rightarrow> string \<Rightarrow> container_config option \<Rightarrow> ('d, string) rpc" where
  "create_container cx sandbox_id config_opt =
     pbind (require_sandbox cx sandbox_id) (\<lambda>sandbox.
     pbind (plift (ok_or (Status InvalidArgument (Msg ''container config required'')) config_opt)) (\<lambda>config.
     pbind (gen_id cx (container_seed sandbox_id config)) (create_with_id cx sandbox sandbox_id config)))"

subsection \<open>StartContainer and the end of the process\<close>

definition container_not_found :: "string \<Rightarrow> rpc_status" where
  "container_not_found i = Status NotFoundCode (Msg (''container '' @ i @ '' not found''))"

definition require_container :: "('d, 't, 'sec, 'b) cri_ctx \<Rightarrow> string \<Rightarrow> ('d, container_record) rpc" where
  "require_container cx i = pbind (internal (get_container cx i)) (\<lambda>r. plift (ok_or (container_not_found i) r))"

definition crun_root :: "('d, 't, 'sec, 'b) cri_ctx \<Rightarrow> fpath" where
  "crun_root cx = cx_state_dir cx @ [''crun'']"

definition container_log_path :: "shim_bundle \<Rightarrow> string \<Rightarrow> fpath" where
  "container_log_path bd log_path =
     (if log_path = [] then bd_dir bd @ [''container.log''] else fjoin (bd_dir bd) log_path)"

definition is_terminal :: "('d, 't, 'sec, 'b) cri_ctx \<Rightarrow> shim_bundle \<Rightarrow> ('d cri_os, 'e, bool) prog" where
  "is_terminal cx bd =
     pbind (attempt (read_file (bundle_config_json bd))) (\<lambda>r.
       pret (unwrap_or False (Option.bind (Option.bind (Option.bind (Option.bind (ok r) (cx_json cx))
         (j_get ''process'')) (j_get ''terminal'')) as_bool)))"

text \<open>The wait until \<open>crun\<close> knows the container: at most a hundred looks.\<close>

primrec wait_registered :: "nat \<Rightarrow> fpath \<Rightarrow> string \<Rightarrow> ('d cri_os, 'e, unit) prog" where
  "wait_registered 0 root i = pret ()"
| "wait_registered (Suc n) root i =
     pbind (crun_state root i) (\<lambda>out.
       case out of
         ProcExit code _ _ \<Rightarrow> if exit_success code then pret () else pseq await (wait_registered n root i)
       | ProcError _ \<Rightarrow> pseq await (wait_registered n root i))"

text \<open>The result is what the supervision task is started with.\<close>

record supervision =
  sv_id :: string
  sv_bundle_dir :: fpath
  sv_log_path :: fpath
  sv_terminal :: bool
  sv_stdin_open :: bool
  sv_no_pivot :: bool

definition start_container :: "('d, 't, 'sec, 'b) cri_ctx \<Rightarrow> string \<Rightarrow> ('d, supervision) rpc" where
  "start_container cx i =
     pbind (require_container cx i) (\<lambda>rec.
     pseq (pguard (ct_state rec = Created)
             (Status FailedPrecondition (Msg (''container '' @ i @ '' is not in Created state''))))
     (let bd = bundle_new (cx_state_dir cx) (cx_namespace cx) i in
      pbind (is_file (bundle_config_json bd)) (\<lambda>there.
      pseq (pguard there (Status Internal (Msg ''container bundle config.json missing'')))
      (pseq (with_err (\<lambda>e. Status Internal (FromIo e)) (create_dir_all (crun_root cx)))
      (pbind (is_terminal cx bd) (\<lambda>terminal.
       pbind unix_nanos (\<lambda>now.
       pseq (internal (put_container cx i
               (rec\<lparr>ct_state := Running, ct_started_at := Some now,
                    ct_crun_root := Some (path_display (crun_root cx)), ct_bundle_dir := Some (path_display (bd_dir bd))\<rparr>)))
       (pseq await
       (pseq (wait_registered 100 (crun_root cx) i)
       (pseq (emit_container_event i ContainerStartedEvent)
         (pret \<lparr>sv_id = i, sv_bundle_dir = bd_dir bd, sv_log_path = container_log_path bd (ct_log_path rec),
                sv_terminal = terminal, sv_stdin_open = ct_stdin rec, sv_no_pivot = cx_no_pivot_root cx\<rparr>)))))))))))"

text \<open>What the supervision task does when the process has ended with \<open>code\<close>.\<close>

definition supervise_exit :: "('d, 't, 'sec, 'b) cri_ctx \<Rightarrow> string \<Rightarrow> int \<Rightarrow> ('d cri_os, 'e, unit) prog" where
  "supervise_exit cx i code =
     pbind (attempt (get_container cx i)) (\<lambda>r.
       pseq (case r of
               Inr (Some rec) \<Rightarrow>
                 pbind unix_nanos (\<lambda>now.
                   pseq (attempt (put_container cx i
                      (rec\<lparr>ct_state := Exited, ct_exit_code := Some code, ct_finished_at := Some now,
                           ct_reason := Some (if code = 0 then ''Completed'' else ''Error'')\<rparr>))) (pret ()))
             | _ \<Rightarrow> pret ())
         (emit_container_event i ContainerStoppedEvent))"

text \<open>The arguments of the supervised \<open>crun run\<close>.\<close>

definition run_args :: "fpath \<Rightarrow> supervision \<Rightarrow> string list" where
  "run_args root sv =
     [''--root'', path_display root, ''run''] @ (if sv_no_pivot sv then [''--no-pivot''] else [])
     @ [''--bundle'', path_display (sv_bundle_dir sv), sv_id sv]"

subsection \<open>StopContainer and RemoveContainer\<close>

text \<open>
  The wait for a graceful exit. A sleep lasts at least 100 milliseconds, so after ten sleeps per
  second of the timeout the deadline has passed; it may pass earlier (\<open>cr_late\<close>).
\<close>

definition deadline_passed :: "('d cri_os, 'e, bool) prog" where
  "deadline_passed w = (Inr (case cr_late w of [] \<Rightarrow> False | b # _ \<Rightarrow> b), w\<lparr>cr_late := tl (cr_late w)\<rparr>)"

primrec poll_exited :: "('d, 't, 'sec, 'b) cri_ctx \<Rightarrow> nat \<Rightarrow> string \<Rightarrow> ('d cri_os, 'e, bool) prog" where
  "poll_exited cx 0 i = pret False"
| "poll_exited cx (Suc n) i =
     pseq await
      (pbind (attempt (get_container cx i)) (\<lambda>r.
         if (case r of Inr (Some rec) \<Rightarrow> ct_state rec = Exited | _ \<Rightarrow> False) then pret True
         else pbind deadline_passed (\<lambda>late. if late then pret False else poll_exited cx n i)))"

definition force_exit :: "('d, 't, 'sec, 'b) cri_ctx \<Rightarrow> string \<Rightarrow> ('d, unit) rpc" where
  "force_exit cx i =
     pbind (attempt (get_container cx i)) (\<lambda>r.
       case r of
         Inr (Some updated) \<Rightarrow>
           if ct_state updated \<noteq> Exited then
             pbind unix_nanos (\<lambda>now.
               internal (put_container cx i
                 (updated\<lparr>ct_state := Exited, ct_finished_at := Some now, ct_exit_code := Some (- 1),
                          ct_reason := Some ''Error''\<rparr>)))
           else pret ()
       | _ \<Rightarrow> pret ())"

definition escalate :: "('d, 't, 'sec, 'b) cri_ctx \<Rightarrow> string \<Rightarrow> ('d cri_os, 'e, unit) prog" where
  "escalate cx i =
     pseq (crun_kill (crun_root cx) i ''KILL'') (pseq (crun_delete (crun_root cx) i) await)"

definition stop_container :: "('d, 't, 'sec, 'b) cri_ctx \<Rightarrow> string \<Rightarrow> int \<Rightarrow> ('d, unit) rpc" where
  "stop_container cx i timeout_secs =
     pbind (internal (get_container cx i)) (\<lambda>r.
       pseq (case r of
               None \<Rightarrow> pret ()
             | Some rec \<Rightarrow>
                 if ct_state rec = Exited then pret ()
                 else
                   pseq (crun_kill (crun_root cx) i ''SIGTERM'')
                   (pseq await
                   (pbind (if 0 < timeout_secs then poll_exited cx (nat timeout_secs * 10) i else pret False) (\<lambda>graceful.
                     pseq (pwhen (\<not> graceful) (escalate cx i)) (force_exit cx i)))))
         (emit_container_event i ContainerStoppedEvent))"

definition remove_container :: "('d, 't, 'sec, 'b) cri_ctx \<Rightarrow> string \<Rightarrow> ('d, unit) rpc" where
  "remove_container cx i =
     pseq (crun_delete (crun_root cx) i)
      (pseq await
       (pseq (internal (delete_record cx Container i))
         (pseq (attempt (bundle_remove (bundle_new (cx_state_dir cx) (cx_namespace cx) i)))
           (emit_container_event i ContainerDeletedEvent))))"

subsection \<open>UpdateContainerResources\<close>

definition update_container_resources ::
  "('d, 't, 'sec, 'b) cri_ctx \<Rightarrow> string \<Rightarrow> linux_resources option \<Rightarrow> ('d, unit) rpc" where
  "update_container_resources cx i linux =
     pbind (require_container cx i) (\<lambda>rec.
     let res = (case linux of None \<Rightarrow> no_resources | Some l \<Rightarrow> cri_resources l) in
     pbind (crun_update (crun_root cx) i res) (\<lambda>out.
     pseq await
     (case out of
        ProcError e \<Rightarrow> pfail (Status Internal (FromIo e))
      | ProcExit code _ err \<Rightarrow>
          if \<not> exit_success code then pfail (Status Internal (Msg (''crun update failed: '' @ from_utf8_lossy err)))
          else case linux of
                 None \<Rightarrow> pret ()
               | Some l \<Rightarrow> internal (put_container cx i (rec\<lparr>ct_resources := Some (record_of_resources l)\<rparr>)))))"

subsection \<open>Status and list\<close>

definition status_of_container :: "container_record \<Rightarrow> container_status_msg" where
  "status_of_container r =
     ContainerStatus (ct_id r) (ct_name r) (ct_attempt r) (container_state_i32 (ct_state r)) (ct_created_at r)
       (unwrap_or 0 (ct_started_at r)) (unwrap_or 0 (ct_finished_at r)) (unwrap_or 0 (ct_exit_code r)) (ct_image_ref r)
       (ct_image_id r) (unwrap_or [] (ct_reason r)) (ct_labels r) (ct_annotations r) (ct_mounts r) (ct_log_path r)
       (map_option record_to_cri_resources (ct_resources r)) (ct_image_id r)"

definition container_status :: "('d, 't, 'sec, 'b) cri_ctx \<Rightarrow> string \<Rightarrow> ('d, container_status_msg) rpc" where
  "container_status cx i = pbind (require_container cx i) (\<lambda>r. pret (status_of_container r))"

definition container_matches :: "container_filter option \<Rightarrow> container_record \<Rightarrow> bool" where
  "container_matches filt r =
     (case filt of
        None \<Rightarrow> True
      | Some f \<Rightarrow>
          (ctf_id f = [] \<or> ctf_id f = ct_id r)
          \<and> (ctf_pod_sandbox_id f = [] \<or> ctf_pod_sandbox_id f = ct_sandbox_id r)
          \<and> (case ctf_state f of None \<Rightarrow> True | Some s \<Rightarrow> s = container_state_i32 (ct_state r))
          \<and> labels_match (ctf_label_selector f) (ct_labels r))"

definition to_cri_container :: "container_record \<Rightarrow> container_msg" where
  "to_cri_container r =
     CriContainer (ct_id r) (ct_sandbox_id r) (ct_name r) (ct_attempt r) (ct_image_ref r) (ct_image_id r)
       (container_state_i32 (ct_state r)) (ct_created_at r) (ct_labels r) (ct_annotations r) (ct_image_id r)"

definition list_containers :: "('d, 't, 'sec, 'b) cri_ctx \<Rightarrow> container_filter option \<Rightarrow> ('d, container_msg list) rpc" where
  "list_containers cx filt =
     pbind (internal (list_container_records cx)) (\<lambda>rs. pret (map to_cri_container (filter (container_matches filt) rs)))"

subsection \<open>Reconciliation after a restart\<close>

record reconcile_report =
  rc_sandboxes :: nat
  rc_containers :: nat
  rc_readopted :: nat
  rc_reaped :: nat
  rc_marked_unknown :: nat

definition reconcile_one ::
  "('d, 't, 'sec, 'b) cri_ctx \<Rightarrow> reconcile_report \<Rightarrow> container_record \<Rightarrow> ('d cri_os, meta_error, reconcile_report) prog" where
  "reconcile_one cx report c =
     (if ct_state c \<noteq> Running then pret report
      else
        pbind (attempt (crun_probe (cx_json cx) (crun_root cx) (ct_id c))) (\<lambda>r.
          case r of
            Inr (Some st) \<Rightarrow>
              if is_running st then
                pseq (put_container cx (ct_id c)
                   (c\<lparr>ct_crun_root := Some (path_display (crun_root cx)),
                      ct_pid := (if rst_pid st \<noteq> None then rst_pid st else ct_pid c)\<rparr>))
                  (pret (report\<lparr>rc_readopted := rc_readopted report + 1\<rparr>))
              else
                pseq (crun_delete (crun_root cx) (ct_id c))
                 (pbind (if ct_finished_at c = None then pbind unix_nanos (\<lambda>t. pret (Some t)) else pret (ct_finished_at c)) (\<lambda>fin.
                   pseq (put_container cx (ct_id c)
                     ((if ct_exit_code c = None then c\<lparr>ct_exit_code := Some (- 1), ct_reason := Some ''Unknown''\<rparr> else c)
                       \<lparr>ct_state := Exited, ct_finished_at := fin\<rparr>))
                    (pret (report\<lparr>rc_reaped := rc_reaped report + 1\<rparr>))))
          | _ \<Rightarrow>
              pseq (crun_delete (crun_root cx) (ct_id c))
                (pseq (put_container cx (ct_id c) (c\<lparr>ct_state := Unknown\<rparr>))
                  (pret (report\<lparr>rc_marked_unknown := rc_marked_unknown report + 1\<rparr>)))))"

definition reconcile :: "('d, 't, 'sec, 'b) cri_ctx \<Rightarrow> ('d cri_os, meta_error, reconcile_report) prog" where
  "reconcile cx =
     pbind (list_sandboxes cx) (\<lambda>sandboxes.
     pbind (list_container_records cx) (\<lambda>containers.
       pfold (reconcile_one cx)
         \<lparr>rc_sandboxes = length sandboxes, rc_containers = length containers, rc_readopted = 0, rc_reaped = 0,
          rc_marked_unknown = 0\<rparr> containers))"

subsection \<open>The bound of chown_tree\<close>

lemma fs_depth_step: "fold (\<lambda>(p, _) n. max (length p) n) fs k \<ge> k
  \<and> (\<forall>(q, n) \<in> set fs. length q \<le> fold (\<lambda>(p, _) n. max (length p) n) fs k)"
proof (induction fs arbitrary: k)
  case (Cons e fs)
  from Cons [of "max (length (fst e)) k"] show ?case by (auto simp: split_beta)
qed simp

lemma fs_depth_le: "(q, n) \<in> set fs \<Longrightarrow> length q \<le> fs_depth fs"
  using fs_depth_step [of 0 fs] by (auto simp: fs_depth_def)

definition keeps_fs :: "'z os_scheme \<Rightarrow> 'z os_scheme \<Rightarrow> bool" where
  "keeps_fs w w' \<longleftrightarrow> os_fs w' = os_fs w"

interpretation kfs: step_order keeps_fs
  by unfold_locales (simp_all add: keeps_fs_def)

lemma keeps_fs_calls: "steps keeps_fs (symlink_is_dir p)" "steps keeps_fs (read_dir p)" "steps keeps_fs sync_handle"
  by (auto simp: steps_def keeps_fs_def symlink_is_dir_def read_dir_def sync_handle_def syscall_def tick_def
      split: option.splits sum.splits)

lemma keeps_fs_chown_tree_from:
  assumes "\<And>p. steps keeps_fs (lchown p uid gid)"
  shows "steps keeps_fs (chown_tree_from lchown n p uid gid)"
  by (induction n arbitrary: p) (auto intro!: kfs.steps_rules keeps_fs_calls assms)

lemma piter_same:
  assumes "\<And>x t. x \<in> set xs \<Longrightarrow> os_fs t = fs \<Longrightarrow> f x t = g x t" "\<And>x. steps keeps_fs (g x)" "os_fs t = fs"
  shows "piter f xs t = piter g xs t"
  using assms
proof (induction xs arbitrary: t)
  case (Cons x xs)
  obtain r u where u: "g x t = (r, u)" by (cases "g x t")
  then have "os_fs u = fs" using stepsD [OF Cons.prems(2) u] Cons.prems(3) by (simp add: keeps_fs_def)
  then show ?case
    using Cons.IH [of u] Cons.prems u by (cases r) (simp_all add: pseq_def pbind_def)
qed simp

lemma read_dir_entries: "read_dir p w = (Inr es, w') \<Longrightarrow> es = dir_entries p (os_fs w)"
  by (auto simp: read_dir_def syscall_def tick_def split: if_splits)

text \<open>Any bound above the depth of the deepest path gives the same run.\<close>

lemma chown_tree_enough:
  assumes keeps: "\<And>p. steps keeps_fs (lchown p uid gid)"
  shows "0 < n \<Longrightarrow> 0 < m \<Longrightarrow> fs_depth (os_fs w) < n + length p \<Longrightarrow> fs_depth (os_fs w) < m + length p \<Longrightarrow>
         chown_tree_from lchown n p uid gid w = chown_tree_from lchown m p uid gid w"
proof (induction n arbitrary: m p w)
  case (Suc n)
  obtain k where m: "m = Suc k" using Suc.prems(2) by (cases m) auto
  let ?visit = "\<lambda>j (q, _ :: node). pseq sync_handle (chown_tree_from lchown j q uid gid)"
  have visit: "?visit n e t = ?visit k e t" if "e \<in> set (dir_entries p (os_fs w))" "os_fs t = os_fs w" for e t
  proof -
    obtain q nd r u where e: "e = (q, nd)" and u: "sync_handle t = (r, u)" by (cases e; cases "sync_handle t")
    with that have q: "(q, nd) \<in> set (os_fs w)" "length q = Suc (length p)" by (auto simp: dir_entries_def)
    have "os_fs u = os_fs w" using stepsD [OF keeps_fs_calls(3) u] that by (simp add: keeps_fs_def)
    then have "chown_tree_from lchown n q uid gid u = chown_tree_from lchown k q uid gid u"
      using Suc.IH [of k u q] q fs_depth_le [OF q(1)] Suc.prems m by simp
    then show ?thesis using e u by (cases r) (simp_all add: prog_simps)
  qed
  have keep: "steps keeps_fs (?visit k e)" for e
    by (cases e) (auto intro!: kfs.steps_rules keeps_fs_calls keeps_fs_chown_tree_from keeps)
  obtain r1 w1 r2 w2 r3 w3 where run: "lchown p uid gid w = (r1, w1)" "symlink_is_dir p w1 = (r2, w2)" "read_dir p w2 = (r3, w3)"
    by (meson surj_pair)
  have same: "os_fs w2 = os_fs w" "os_fs w3 = os_fs w"
    using stepsD [OF keeps run(1)] stepsD [OF keeps_fs_calls(1) run(2)] stepsD [OF keeps_fs_calls(2) run(3)]
    by (simp_all add: keeps_fs_def)
  have "piter (?visit n) es w3 = piter (?visit k) es w3" if "r3 = Inr es" for es
    using visit read_dir_entries [of p w2 es w3] run(3) same that by (intro piter_same [OF _ keep same(2)]) simp_all
  then show ?case
    using run m by (cases r1; cases r2; cases r3) (simp_all add: pseq_def pbind_def)
qed simp

end
