(* ===== verification/Cri_Images.thy ===== *)
theory Cri_Images
  imports Cri_Container
begin

section \<open>The image service\<close>

text \<open>
  The image handlers of \<open>crates/cri/src/server.rs\<close>, over the pull of \<open>Image_Pull\<close> and the
  credentials of \<open>Registry_Auth\<close>. A pull waits for its turn and for the network: other tasks run
  in between (\<open>await\<close>).
\<close>

definition key_answers :: "string \<Rightarrow> image_record \<Rightarrow> bool" where
  "key_answers key r \<longleftrightarrow>
     (let nkey = normalize_image_ref key in
      im_image_id r = key \<or> list_ex (\<lambda>t. t = key \<or> t = nkey) (im_repo_tags r) \<or> list_ex (\<lambda>d. d = key) (im_repo_digests r))"

definition svc_find_image :: "('d, 't, 'sec, 'b) cri_ctx \<Rightarrow> string \<Rightarrow> ('d, image_record option) rpc" where
  "svc_find_image cx key =
     pbind (internal (get_image cx key)) (\<lambda>r.
       case r of
         Some rec \<Rightarrow> pret (Some rec)
       | None \<Rightarrow> pbind (internal (list_image_records cx)) (\<lambda>rs. pret (List.find (key_answers key) rs)))"

definition pull_error_status :: "pull_error \<Rightarrow> rpc_status" where
  "pull_error_status e = (if is_auth_error e then Status Unauthenticated (FromPull e) else Status Internal (FromPull e))"

definition digest_ref_of :: "string \<Rightarrow> pulled_image \<Rightarrow> string option" where
  "digest_ref_of reference pulled =
     (if is_digest_ref reference then Some reference
      else map_option (\<lambda>d. repo_name reference @ ''@'' @ digest_to_string d) (pi_manifest_digest pulled))"

definition tag_ref_of :: "string \<Rightarrow> string option" where
  "tag_ref_of reference = then_some (\<not> is_digest_ref reference) (normalize_image_ref reference)"

definition fresh_image_record :: "string \<Rightarrow> pulled_image \<Rightarrow> image_record" where
  "fresh_image_record reference pulled =
     \<lparr>im_name = unwrap_or reference (tag_ref_of reference), im_target_digest = unwrap_or [] (map_option digest_to_string (pi_manifest_digest pulled)),
      im_image_id = digest_to_string (pi_image_id pulled), im_repo_tags = [], im_repo_digests = [],
      im_size = pi_size pulled, im_layer_digests = map digest_to_string (pi_layer_digests pulled),
      im_chain_ids = map digest_to_string (pi_chain_ids pulled), im_user = pi_user pulled\<rparr>"

definition push_new :: "string option \<Rightarrow> string list \<Rightarrow> string list" where
  "push_new x xs = (case x of None \<Rightarrow> xs | Some t \<Rightarrow> if t \<in> set xs then xs else xs @ [t])"

definition merged_image_record :: "string \<Rightarrow> pulled_image \<Rightarrow> image_record option \<Rightarrow> image_record" where
  "merged_image_record reference pulled old =
     (let r = unwrap_or (fresh_image_record reference pulled) old in
      r\<lparr>im_repo_tags := push_new (tag_ref_of reference) (im_repo_tags r),
        im_repo_digests := push_new (digest_ref_of reference pulled) (im_repo_digests r)\<rparr>)"

definition pull_image ::
  "('d, 't, 'sec, 'b) cri_ctx \<Rightarrow> ('b, 'd cri_os) pull_lib \<Rightarrow> docker_env \<Rightarrow> fpath option \<Rightarrow> string option \<Rightarrow> auth_config option
    \<Rightarrow> ('d, string) rpc" where
  "pull_image cx lib de registry_config_path img auth_opt =
     (case img of
        None \<Rightarrow> pfail (Status InvalidArgument (Msg ''image reference required''))
      | Some reference \<Rightarrow>
          if reference = [] then pfail (Status InvalidArgument (Msg ''image reference required''))
          else
            pseq await
            (pbind (resolve_auth de reference (case auth_opt of None \<Rightarrow> Anonymous | Some a \<Rightarrow> auth_from_config (de_base64 de) a)) (\<lambda>auth.
             pbind (with_err pull_error_status
                 (pull_with_options lib registry_config_path (cx_content cx) (cx_snapshots_root cx) reference auth)) (\<lambda>pulled.
             let image_id = digest_to_string (pi_image_id pulled) in
             pbind (internal (get_image cx image_id)) (\<lambda>old.
               pseq (internal (put_image cx image_id (merged_image_record reference pulled old))) (pret image_id))))))"

definition list_images :: "('d, 't, 'sec, 'b) cri_ctx \<Rightarrow> ('d, cri_image list) rpc" where
  "list_images cx = pbind (internal (list_image_records cx)) (\<lambda>rs. pret (map record_to_image rs))"

definition image_status :: "('d, 't, 'sec, 'b) cri_ctx \<Rightarrow> string option \<Rightarrow> ('d, cri_image option) rpc" where
  "image_status cx img =
     pbind (svc_find_image cx (unwrap_or [] img)) (\<lambda>r. pret (map_option record_to_image r))"

definition remove_image :: "('d, 't, 'sec, 'b) cri_ctx \<Rightarrow> string option \<Rightarrow> ('d, unit) rpc" where
  "remove_image cx img =
     pbind (svc_find_image cx (unwrap_or [] img)) (\<lambda>r.
       case r of
         None \<Rightarrow> pret ()
       | Some rec \<Rightarrow>
           pseq (internal (delete_record cx Image (im_image_id rec)))
             (pbind (internal (list_image_records cx)) (\<lambda>live.
                pseq (with_err (\<lambda>e. Status Internal (FromContent e))
                        (reclaim (cx_content cx) (cx_snapshots_root cx) rec live)) (pret ()))))"

end
