(* ===== verification/Cri_Store.thy ===== *)
theory Cri_Store
  imports Cri_Images
begin

section \<open>The records behind the CRI server\<close>

text \<open>
  What the handlers rely on when they call the metadata store, as an interface: a table of
  records with put, get, delete and list. The store's calls for sandboxes, containers and images
  are its three instances. The second half says which calls of a handler leave the database and
  the traces of the world alone.
\<close>

subsection \<open>A table of records\<close>

text \<open>
  \<open>good\<close> is what is assumed of the surroundings \<open>'c\<close> of the table: for the daemon, that the
  database and the codecs behave as documented. A listing goes through the keys in use, each
  once.
\<close>

definition listing_of :: "(string \<Rightarrow> meta_error + 'v option) \<Rightarrow> 'v list \<Rightarrow> string list \<Rightarrow> bool" where
  "listing_of get vs ks \<longleftrightarrow>
     distinct ks \<and> map get ks = map (\<lambda>v. Inr (Some v)) vs \<and> (\<forall>k. get k = Inr None \<or> k \<in> set ks)"

definition keyed_by :: "('v \<Rightarrow> string) \<Rightarrow> (string \<Rightarrow> meta_error + 'v option) \<Rightarrow> bool" where
  "keyed_by key get \<longleftrightarrow> (\<forall>i v. get i = Inr (Some v) \<longrightarrow> key v = i)"

definition stored :: "(string \<Rightarrow> meta_error + 'v option) \<Rightarrow> string \<Rightarrow> 'v option" where
  "stored get i = (case get i of Inr x \<Rightarrow> x | Inl _ \<Rightarrow> None)"

lemma stored_Some: "stored get i = Some v \<longleftrightarrow> get i = Inr (Some v)"
  by (auto simp: stored_def split: sum.splits)

locale record_table =
  fixes good :: "'c \<Rightarrow> bool"
    and get :: "'c \<Rightarrow> string \<Rightarrow> 'd \<Rightarrow> meta_error + 'v option"
    and put :: "'c \<Rightarrow> string \<Rightarrow> 'v \<Rightarrow> 'd \<Rightarrow> meta_error + 'd"
    and lst :: "'c \<Rightarrow> 'd \<Rightarrow> meta_error + 'v list"
    and del :: "'c \<Rightarrow> string \<Rightarrow> 'd \<Rightarrow> meta_error + (bool \<times> 'd)"
    and key :: "'v \<Rightarrow> string"
  assumes put_get: "good c \<Longrightarrow> put c i v d = Inr d' \<Longrightarrow> get c j d' = (if j = i then Inr (Some v) else get c j d)"
    and del_get: "good c \<Longrightarrow> del c i d = Inr (b, d') \<Longrightarrow> get c j d' = (if j = i then Inr None else get c j d)"
    and lst_get: "good c \<Longrightarrow> lst c d = Inr vs \<Longrightarrow> \<exists>ks. listing_of (\<lambda>i. get c i d) vs ks"
begin

lemma put_keyed:
  "good c \<Longrightarrow> put c i v d = Inr d' \<Longrightarrow> key v = i \<Longrightarrow> keyed_by key (\<lambda>i. get c i d) \<Longrightarrow> keyed_by key (\<lambda>i. get c i d')"
  by (auto simp: keyed_by_def put_get)

lemma del_keyed:
  "good c \<Longrightarrow> del c i d = Inr (b, d') \<Longrightarrow> keyed_by key (\<lambda>i. get c i d) \<Longrightarrow> keyed_by key (\<lambda>i. get c i d')"
  by (auto simp: keyed_by_def del_get)

lemma lst_mem:
  assumes "good c" "lst c d = Inr vs"
  shows "v \<in> set vs \<longleftrightarrow> (\<exists>i. get c i d = Inr (Some v))"
proof -
  obtain ks where ks: "listing_of (\<lambda>i. get c i d) vs ks" using lst_get [OF assms] by blast
  then have m: "map (\<lambda>i. get c i d) ks = map (\<lambda>v. Inr (Some v)) vs"
    and all: "\<And>k. get c k d = Inr None \<or> k \<in> set ks" by (auto simp: listing_of_def)
  from m have s: "(\<lambda>i. get c i d) ` set ks = (\<lambda>v. Inr (Some v)) ` set vs" by (metis set_map)
  show ?thesis
  proof
    assume "v \<in> set vs"
    then have "Inr (Some v) \<in> (\<lambda>i. get c i d) ` set ks" unfolding s by (rule imageI)
    then show "\<exists>i. get c i d = Inr (Some v)" by auto
  next
    assume "\<exists>i. get c i d = Inr (Some v)"
    then obtain i where i: "get c i d = Inr (Some v)" by blast
    with all [of i] have "i \<in> set ks" by auto
    then have "get c i d \<in> (\<lambda>i. get c i d) ` set ks" by (rule imageI)
    with i show "v \<in> set vs" unfolding s by auto
  qed
qed

lemma lst_keyed:
  assumes "good c" "lst c d = Inr vs" "keyed_by key (\<lambda>i. get c i d)"
  shows "distinct (map key vs) \<and> (\<forall>v \<in> set vs. get c (key v) d = Inr (Some v))"
proof -
  obtain ks where ks: "listing_of (\<lambda>i. get c i d) vs ks" using lst_get [OF assms(1,2)] by blast
  then have m: "map (\<lambda>i. get c i d) ks = map (\<lambda>v. Inr (Some v)) vs" by (simp add: listing_of_def)
  have "map key vs = ks"
  proof (rule nth_equalityI)
    show "length (map key vs) = length ks" using m by (metis length_map)
    fix n assume n: "n < length (map key vs)"
    with m have "get c (ks ! n) d = Inr (Some (vs ! n))" by (metis length_map nth_map)
    with assms(3) n show "map key vs ! n = ks ! n" by (auto simp: keyed_by_def)
  qed
  with ks show ?thesis using assms(3) lst_mem [OF assms(1,2)] by (auto simp: listing_of_def keyed_by_def)
qed

end

subsection \<open>The store of the daemon\<close>

definition ctx_ok :: "('d, 't, 'sec, 'b) cri_ctx \<Rightarrow> bool" where
  "ctx_ok cx \<longleftrightarrow>
     (\<exists>view tview. redb_ok (cx_redb cx) view tview) \<and> (\<forall>d. read_ok (cx_redb cx) d)
     \<and> serde_ok (cx_ser_sandbox cx) (cx_des_sandbox cx) \<and> serde_ok (cx_ser_container cx) (cx_des_container cx)
     \<and> serde_ok (cx_ser_image cx) (cx_des_image cx) \<and> CHR ''/'' \<notin> set (cx_namespace cx)"

definition sandbox_in :: "('d, 't, 'sec, 'b) cri_ctx \<Rightarrow> string \<Rightarrow> 'd \<Rightarrow> meta_error + sandbox_record option" where
  "sandbox_in cx i = store_get (cx_redb cx) (cx_des_sandbox cx) Sandbox (cx_namespace cx) i"

definition container_in :: "('d, 't, 'sec, 'b) cri_ctx \<Rightarrow> string \<Rightarrow> 'd \<Rightarrow> meta_error + container_record option" where
  "container_in cx i = store_get (cx_redb cx) (cx_des_container cx) Container (cx_namespace cx) i"

definition image_in :: "('d, 't, 'sec, 'b) cri_ctx \<Rightarrow> string \<Rightarrow> 'd \<Rightarrow> meta_error + image_record option" where
  "image_in cx i = store_get (cx_redb cx) (cx_des_image cx) Image (cx_namespace cx) i"

text \<open>A listing and the keys it went through.\<close>

lemma store_list_keys:
  assumes db: "redb_ok rd view tview" and reads: "read_ok rd d" and ns: "CHR ''/'' \<notin> set ns"
    and run: "store_list rd des kd ns d = Inr vs"
  shows "\<exists>ks. listing_of (\<lambda>i. store_get rd des kd ns i d) vs ks"
proof -
  from run obtain items where it: "rd_iter rd (kind_table kd) d = Inr items"
    and ls: "collect_results (map (\<lambda>(k, v). map_err Serde (des v))
      (filter (\<lambda>(k, v). starts_with k (ns @ ''/'')) items)) = Inr vs"
    by (auto simp: store_list_def Let_def)
  from it db have m: "map_of items = view d (kind_table kd)" and dist: "distinct (map fst items)"
    unfolding redb_ok_def by blast+
  let ?mine = "filter (\<lambda>(k, v). starts_with k (ns @ ''/'')) items"
  let ?strip = "\<lambda>k. drop (Suc (length ns)) k"
  define ks where "ks = map (\<lambda>(k, b). ?strip k) ?mine"
  from ls have vs: "map (\<lambda>(k, v). map_err Serde (des v)) ?mine = map Inr vs"
    by (simp add: collect_results_Inr)
  have full: "meta_key ns (?strip k) = k" if "(k, b) \<in> set ?mine" for k b
    using that by (auto simp: starts_with_iff meta_key_def)
  have got: "store_get rd des kd ns (?strip k) d = rbind (map_err Serde (des b)) (\<lambda>v. Inr (Some v))"
    if "(k, b) \<in> set ?mine" for k b
  proof -
    have "map_of items k = Some b" using that dist by simp
    with m full [OF that] show ?thesis
      by (simp add: store_get_view [OF db reads] view_get_def)
  qed
  have "map (\<lambda>i. store_get rd des kd ns i d) ks
      = map (\<lambda>(k, b). rbind (map_err Serde (des b)) (\<lambda>v. Inr (Some v))) ?mine"
    unfolding ks_def using got by auto
  also have "\<dots> = map (\<lambda>r. rbind r (\<lambda>v. Inr (Some v))) (map (\<lambda>(k, v). map_err Serde (des v)) ?mine)" by auto
  also have "\<dots> = map (\<lambda>v. Inr (Some v)) vs" unfolding vs by simp
  finally have maps: "map (\<lambda>i. store_get rd des kd ns i d) ks = map (\<lambda>v. Inr (Some v)) vs" .
  have "map (meta_key ns) ks = map fst ?mine" unfolding ks_def using full by auto
  moreover have "distinct (map fst ?mine)" using dist by (simp add: distinct_map_filter)
  ultimately have "distinct ks" by (metis distinct_map)
  moreover have "store_get rd des kd ns i d = Inr None \<or> i \<in> set ks" for i
  proof (cases "view d (kind_table kd) (meta_key ns i)")
    case (Some b)
    with m have "(meta_key ns i, b) \<in> set items" by (metis map_of_SomeD)
    then have "(meta_key ns i, b) \<in> set ?mine" by (auto simp: starts_with_iff meta_key_def)
    then show ?thesis unfolding ks_def by (force simp: meta_key_def)
  qed (simp add: store_get_view [OF db reads] view_get_def)
  ultimately show ?thesis using maps unfolding listing_of_def by blast
qed

definition store_ok :: "('d, 't) redb \<Rightarrow> ('v \<Rightarrow> string + bytes) \<Rightarrow> (bytes \<Rightarrow> string + 'v) \<Rightarrow> string \<Rightarrow> bool" where
  "store_ok rd ser des ns \<longleftrightarrow>
     (\<exists>view tview. redb_ok rd view tview) \<and> (\<forall>d. read_ok rd d) \<and> serde_ok ser des \<and> CHR ''/'' \<notin> set ns"

lemma ctx_ok_stores:
  assumes "ctx_ok cx"
  shows "store_ok (cx_redb cx) (cx_ser_sandbox cx) (cx_des_sandbox cx) (cx_namespace cx)"
    and "store_ok (cx_redb cx) (cx_ser_container cx) (cx_des_container cx) (cx_namespace cx)"
    and "store_ok (cx_redb cx) (cx_ser_image cx) (cx_des_image cx) (cx_namespace cx)"
  using assms by (auto simp: ctx_ok_def store_ok_def)

lemma store_laws:
  assumes "store_ok rd ser des ns"
  shows "store_put rd ser kd ns i v d = Inr d' \<Longrightarrow>
      store_get rd des kd ns j d' = (if j = i then Inr (Some v) else store_get rd des kd ns j d)"
    and "store_delete rd kd ns i d = Inr (b, d') \<Longrightarrow>
      store_get rd des kd ns j d' = (if j = i then Inr None else store_get rd des kd ns j d)"
    and "store_list rd des kd ns d = Inr vs \<Longrightarrow> \<exists>ks. listing_of (\<lambda>i. store_get rd des kd ns i d) vs ks"
    and "store_put rd ser kd ns i v d = Inr d' \<Longrightarrow> kd' \<noteq> kd \<Longrightarrow>
      store_get rd des' kd' ns j d' = store_get rd des' kd' ns j d"
    and "store_delete rd kd ns i d = Inr (b, d') \<Longrightarrow> kd' \<noteq> kd \<Longrightarrow>
      store_get rd des' kd' ns j d' = store_get rd des' kd' ns j d"
proof -
  from assms obtain view tview where ok: "redb_ok rd view tview" "\<And>d. read_ok rd d" "serde_ok ser des" "CHR ''/'' \<notin> set ns"
    by (auto simp: store_ok_def)
  note put = store_put_get [OF ok(1,2,2,4,4)]
  note del = store_delete_get [OF ok(1,2,2,4,4)]
  show "store_put rd ser kd ns i v d = Inr d' \<Longrightarrow>
      store_get rd des kd ns j d' = (if j = i then Inr (Some v) else store_get rd des kd ns j d)"
    using put(1) [of ser kd i v d d' des] put(2) [of ser kd i v d d' kd j des] ok(3) by auto
  show "store_delete rd kd ns i d = Inr (b, d') \<Longrightarrow>
      store_get rd des kd ns j d' = (if j = i then Inr None else store_get rd des kd ns j d)"
    using del(2) [of kd i d b d' des] del(3) [of kd i d b d' kd j des] by auto
  show "store_list rd des kd ns d = Inr vs \<Longrightarrow> \<exists>ks. listing_of (\<lambda>i. store_get rd des kd ns i d) vs ks"
    by (rule store_list_keys [OF ok(1,2,4)])
  show "store_put rd ser kd ns i v d = Inr d' \<Longrightarrow> kd' \<noteq> kd \<Longrightarrow>
      store_get rd des' kd' ns j d' = store_get rd des' kd' ns j d"
    using put(2) [of ser kd i v d d' kd' j des'] by auto
  show "store_delete rd kd ns i d = Inr (b, d') \<Longrightarrow> kd' \<noteq> kd \<Longrightarrow>
      store_get rd des' kd' ns j d' = store_get rd des' kd' ns j d"
    using del(3) [of kd i d b d' kd' j des'] by auto
qed

interpretation sbx: record_table ctx_ok sandbox_in
  "\<lambda>cx. store_put (cx_redb cx) (cx_ser_sandbox cx) Sandbox (cx_namespace cx)"
  "\<lambda>cx. store_list (cx_redb cx) (cx_des_sandbox cx) Sandbox (cx_namespace cx)"
  "\<lambda>cx. store_delete (cx_redb cx) Sandbox (cx_namespace cx)" sb_id
  unfolding sandbox_in_def
  by unfold_locales (rule store_laws [OF ctx_ok_stores(1)]; assumption)+

interpretation ctr: record_table ctx_ok container_in
  "\<lambda>cx. store_put (cx_redb cx) (cx_ser_container cx) Container (cx_namespace cx)"
  "\<lambda>cx. store_list (cx_redb cx) (cx_des_container cx) Container (cx_namespace cx)"
  "\<lambda>cx. store_delete (cx_redb cx) Container (cx_namespace cx)" ct_id
  unfolding container_in_def
  by unfold_locales (rule store_laws [OF ctx_ok_stores(2)]; assumption)+

interpretation img: record_table ctx_ok image_in
  "\<lambda>cx. store_put (cx_redb cx) (cx_ser_image cx) Image (cx_namespace cx)"
  "\<lambda>cx. store_list (cx_redb cx) (cx_des_image cx) Image (cx_namespace cx)"
  "\<lambda>cx. store_delete (cx_redb cx) Image (cx_namespace cx)" im_image_id
  unfolding image_in_def
  by unfold_locales (rule store_laws [OF ctx_ok_stores(3)]; assumption)+

subsection \<open>The calls on the database\<close>

definition same_sandboxes :: "('d, 't, 'sec, 'b) cri_ctx \<Rightarrow> 'd \<Rightarrow> 'd \<Rightarrow> bool" where
  "same_sandboxes cx d d' \<longleftrightarrow> (\<forall>j. sandbox_in cx j d' = sandbox_in cx j d)"

definition same_containers :: "('d, 't, 'sec, 'b) cri_ctx \<Rightarrow> 'd \<Rightarrow> 'd \<Rightarrow> bool" where
  "same_containers cx d d' \<longleftrightarrow> (\<forall>j. container_in cx j d' = container_in cx j d)"

definition same_images :: "('d, 't, 'sec, 'b) cri_ctx \<Rightarrow> 'd \<Rightarrow> 'd \<Rightarrow> bool" where
  "same_images cx d d' \<longleftrightarrow> (\<forall>j. image_in cx j d' = image_in cx j d)"

lemmas same_defs = same_sandboxes_def same_containers_def same_images_def

lemma get_run [prog_simps]:
  "get_sandbox cx i w = (sandbox_in cx i (cr_db w), w)"
  "get_container cx i w = (container_in cx i (cr_db w), w)"
  "get_image cx i w = (image_in cx i (cr_db w), w)"
  by (simp_all add: get_sandbox_def get_container_def get_image_def sandbox_in_def container_in_def image_in_def)

lemma internal_run [prog_simps]: "internal m w = (map_err (\<lambda>e. Status Internal (FromMeta e)) (fst (m w)), snd (m w))"
  by (simp add: internal_def prog_simps)

lemma internal_Inr [simp]: "internal m w = (Inr x, w') \<longleftrightarrow> m w = (Inr x, w')"
  by (simp add: internal_def)

text \<open>A put succeeds and changes one record of one kind, or fails and changes nothing.\<close>

lemma put_sandbox_cases:
  assumes "ctx_ok cx" "put_sandbox cx i r w = (x, w')"
  obtains (fails) e where "x = Inl e" "w' = w"
  | (puts) d where "x = Inr ()" "w' = w\<lparr>cr_db := d\<rparr>"
      "\<And>j. sandbox_in cx j d = (if j = i then Inr (Some r) else sandbox_in cx j (cr_db w))"
      "same_containers cx (cr_db w) d" "same_images cx (cr_db w) d"
proof (cases "store_put (cx_redb cx) (cx_ser_sandbox cx) Sandbox (cx_namespace cx) i r (cr_db w)")
  case (Inr d)
  note other = store_laws(4) [OF ctx_ok_stores(1) [OF assms(1)] Inr]
  have "same_containers cx (cr_db w) d" "same_images cx (cr_db w) d"
    using other [of Container "cx_des_container cx"] other [of Image "cx_des_image cx"] by (simp_all add: same_defs container_in_def image_in_def)
  with Inr puts [of d] sbx.put_get [OF assms(1) Inr] assms(2) show ?thesis by (simp add: put_sandbox_def db_step_def)
qed (use assms in \<open>auto simp: put_sandbox_def db_step_def intro: fails\<close>)

lemma put_container_cases:
  assumes "ctx_ok cx" "put_container cx i r w = (x, w')"
  obtains (fails) e where "x = Inl e" "w' = w"
  | (puts) d where "x = Inr ()" "w' = w\<lparr>cr_db := d\<rparr>"
      "\<And>j. container_in cx j d = (if j = i then Inr (Some r) else container_in cx j (cr_db w))"
      "same_sandboxes cx (cr_db w) d" "same_images cx (cr_db w) d"
proof (cases "store_put (cx_redb cx) (cx_ser_container cx) Container (cx_namespace cx) i r (cr_db w)")
  case (Inr d)
  note other = store_laws(4) [OF ctx_ok_stores(2) [OF assms(1)] Inr]
  have "same_sandboxes cx (cr_db w) d" "same_images cx (cr_db w) d"
    using other [of Sandbox "cx_des_sandbox cx"] other [of Image "cx_des_image cx"] by (simp_all add: same_defs sandbox_in_def image_in_def)
  with Inr puts [of d] ctr.put_get [OF assms(1) Inr] assms(2) show ?thesis by (simp add: put_container_def db_step_def)
qed (use assms in \<open>auto simp: put_container_def db_step_def intro: fails\<close>)

lemma put_image_cases:
  assumes "ctx_ok cx" "put_image cx i r w = (x, w')"
  obtains (fails) e where "x = Inl e" "w' = w"
  | (puts) d where "x = Inr ()" "w' = w\<lparr>cr_db := d\<rparr>"
      "\<And>j. image_in cx j d = (if j = i then Inr (Some r) else image_in cx j (cr_db w))"
      "same_sandboxes cx (cr_db w) d" "same_containers cx (cr_db w) d"
proof (cases "store_put (cx_redb cx) (cx_ser_image cx) Image (cx_namespace cx) i r (cr_db w)")
  case (Inr d)
  note other = store_laws(4) [OF ctx_ok_stores(3) [OF assms(1)] Inr]
  have "same_sandboxes cx (cr_db w) d" "same_containers cx (cr_db w) d"
    using other [of Sandbox "cx_des_sandbox cx"] other [of Container "cx_des_container cx"] by (simp_all add: same_defs sandbox_in_def container_in_def)
  with Inr puts [of d] img.put_get [OF assms(1) Inr] assms(2) show ?thesis by (simp add: put_image_def db_step_def)
qed (use assms in \<open>auto simp: put_image_def db_step_def intro: fails\<close>)

lemma delete_record_cases:
  assumes "ctx_ok cx" "delete_record cx k i w = (x, w')"
  obtains (fails) e where "x = Inl e" "w' = w"
  | (deletes) b d where "x = Inr b" "w' = w\<lparr>cr_db := d\<rparr>"
      "\<And>j. sandbox_in cx j d = (if k = Sandbox \<and> j = i then Inr None else sandbox_in cx j (cr_db w))"
      "\<And>j. container_in cx j d = (if k = Container \<and> j = i then Inr None else container_in cx j (cr_db w))"
      "\<And>j. image_in cx j d = (if k = Image \<and> j = i then Inr None else image_in cx j (cr_db w))"
proof (cases "store_delete (cx_redb cx) k (cx_namespace cx) i (cr_db w)")
  case (Inr y)
  obtain b d where y: "y = (b, d)" by (cases y)
  note del = Inr [unfolded y]
  note laws = store_laws(2) [OF ctx_ok_stores(1) [OF assms(1)] del] store_laws(2) [OF ctx_ok_stores(2) [OF assms(1)] del]
    store_laws(2) [OF ctx_ok_stores(3) [OF assms(1)] del] and other = store_laws(5) [OF ctx_ok_stores(1) [OF assms(1)] del]
  show ?thesis
  proof (rule deletes [of b d])
    show "sandbox_in cx j d = (if k = Sandbox \<and> j = i then Inr None else sandbox_in cx j (cr_db w))" for j
      using laws(1) [of j] other [of Sandbox] by (cases "k = Sandbox") (simp_all add: sandbox_in_def)
    show "container_in cx j d = (if k = Container \<and> j = i then Inr None else container_in cx j (cr_db w))" for j
      using laws(2) [of j] other [of Container] by (cases "k = Container") (simp_all add: container_in_def)
    show "image_in cx j d = (if k = Image \<and> j = i then Inr None else image_in cx j (cr_db w))" for j
      using laws(3) [of j] other [of Image] by (cases "k = Image") (simp_all add: image_in_def)
  qed (use assms Inr y in \<open>simp_all add: delete_record_def db_step_def\<close>)
qed (use assms in \<open>auto simp: delete_record_def db_step_def intro: fails\<close>)

end
