(* ===== verification/Cri_Frames.thy ===== *)
theory Cri_Frames
  imports Cri_Store
begin

section \<open>What a handler's calls leave alone\<close>

text \<open>
  \<open>aside w w'\<close>: the database, the pending actions of other tasks, the runs of \<open>crun\<close>, the
  signals and the events are as they were. File-system calls, plugins, the clock and the
  generation of a bundle all stay aside; the programs given for unpacking, saving and changing
  ownership are assumed to (\<open>tools_aside\<close>).
\<close>

definition aside :: "'d cri_os \<Rightarrow> 'd cri_os \<Rightarrow> bool" where
  "aside w w' \<longleftrightarrow>
     cr_db w' = cr_db w \<and> cr_env w' = cr_env w \<and> cr_crun w' = cr_crun w \<and> cr_crun_calls w' = cr_crun_calls w
     \<and> cr_kills w' = cr_kills w \<and> cr_events w' = cr_events w"

interpretation asd: step_order aside
  by unfold_locales (auto simp: aside_def)

lemma aside_db: "aside w w' \<Longrightarrow> cr_db w' = cr_db w"
  by (simp add: aside_def)

lemma aside_upd [simp]:
  "aside w (w'\<lparr>os_seq := n'\<rparr>) \<longleftrightarrow> aside w w'" "aside w (w'\<lparr>os_sched := s\<rparr>) \<longleftrightarrow> aside w w'" "aside w (w'\<lparr>os_fs := f\<rparr>) \<longleftrightarrow> aside w w'"
  "aside w (w'\<lparr>cw_calls := c\<rparr>) \<longleftrightarrow> aside w w'" "aside w (w'\<lparr>cw_outcomes := c'\<rparr>) \<longleftrightarrow> aside w w'"
  "aside w (w'\<lparr>cr_reads := n\<rparr>) \<longleftrightarrow> aside w w'" "aside w (w'\<lparr>cr_helpers := h\<rparr>) \<longleftrightarrow> aside w w'"
  "aside w (w'\<lparr>cr_late := l\<rparr>) \<longleftrightarrow> aside w w'" "aside w w"
  by (simp_all add: aside_def)

lemma aside_nodes [simp]:
  "aside w (tick w') \<longleftrightarrow> aside w w'" "aside w (set_node p n w') \<longleftrightarrow> aside w w'" "aside w (del_node p w') \<longleftrightarrow> aside w w'"
  by (simp_all add: tick_def set_node_def del_node_def)

lemma aside_calls:
  "steps aside (read_dir p)" "steps aside (read_file p)" "steps aside (path_exists p)" "steps aside (is_file p)"
  "steps aside (is_dir p)" "steps aside sync_handle" "steps aside (create_file p)" "steps aside (remove_file p)"
  "steps aside (remove_dir_all p)" "steps aside (ensure_dir p)" "steps aside (create_dir p)" "steps aside (write_at p n bs)"
  "steps aside unix_nanos" "steps aside (run_plugin call)" "steps aside (run_helper p)" "steps aside deadline_passed"
  by (simp_all add: steps_def syscall_def read_dir_def read_file_def path_exists_def is_file_def is_dir_def sync_handle_def
      create_file_def remove_file_def remove_dir_all_def ensure_dir_def create_dir_def write_at_def unix_nanos_def run_plugin_def
      run_helper_def deadline_passed_def Let_def split: option.splits node.splits list.splits sum.splits)

lemmas aside_rules = asd.steps_rules aside_calls

lemma aside_create_dirs: "steps aside (create_dirs pre cs)"
  by (induction pre cs rule: create_dirs.induct) (auto intro!: aside_rules)

lemma aside_create_dir_all: "steps aside (create_dir_all p)"
  by (simp add: create_dir_all_def aside_create_dirs)

lemma aside_write_from: "steps aside (write_from p pos buf)"
proof (rule stepsI)
  show "aside w (snd (write_from p pos buf w))" for w
  proof (induction p pos buf w rule: write_from.induct)
    case (1 p pos buf w)
    obtain r w1 where w1: "write_at p pos buf w = (r, w1)" by fastforce
    have "aside w w1" using aside_calls(12) w1 by (rule stepsD)
    with 1 [OF _ w1 [symmetric]] w1 show ?case
      by (subst write_from.simps) (auto split: sum.splits intro: asd.order_trans)
  qed
qed

lemma aside_files:
  "steps aside (fs_write p bs)" "steps aside (read_to_string p)"
  "steps aside m \<Longrightarrow> steps aside (or_default x m)"
  unfolding fs_write_def read_to_string_def or_default_def
  by (auto intro!: aside_rules aside_write_from)

lemma aside_cni:
  "steps aside (load_conflist cdc c)" "steps aside (exec_plugin cdc c cmd i np ifn p nc)" "steps aside (create_netns c n)"
  "steps aside (delete_netns c n)"
  unfolding load_conflist_def exec_plugin_def create_netns_def create_netns_linux_def delete_netns_def Let_def
  by (auto intro!: aside_rules aside_create_dir_all split: list.splits plugin_outcome.splits)

lemma aside_cni_chains: "steps aside (cni_setup cdc c i n pms)" "steps aside (cni_teardown cdc c i n)"
  unfolding cni_setup_def cni_teardown_def add_plugin_def del_plugin_def Let_def
  by (auto intro!: aside_rules aside_cni split: sum.splits)

lemma aside_misc:
  "steps aside (gen_id cx s)" "steps aside (spawn_holder d i)" "steps aside (ensure_pod_cgroup_at root cg)"
  "steps aside (write_sandbox_resolv_conf cx i dns)" "steps aside (pod_network cx i h pms)" "steps aside (holder_for cx i sh)"
  unfolding gen_id_def spawn_holder_def ensure_pod_cgroup_at_def write_sandbox_resolv_conf_def pod_network_def holder_for_def Let_def
  by (auto intro!: aside_rules aside_files aside_create_dir_all aside_cni aside_cni_chains split: sum.splits)

definition tools_aside :: "('d, 't, 'sec, 'b) cri_ctx \<Rightarrow> bool" where
  "tools_aside cx \<longleftrightarrow>
     (\<forall>p e. steps aside (cx_unpack cx p e)) \<and> (\<forall>p sp. steps aside (cx_save_spec cx p sp))
     \<and> (\<forall>p u g. steps aside (cx_lchown cx p u g))"

lemma aside_blobs: "steps aside (read_blob st d)" "steps aside (remove_blob st d)" "steps aside (reclaim st root im live)"
  unfolding read_blob_def remove_blob_def reclaim_def reclaim_blob_def reclaim_chain_def Let_def
  by (auto intro!: aside_rules split: sum.splits)

lemma aside_apply_layer:
  assumes "\<And>p e. steps aside (unpack p e)"
  shows "steps aside (apply_layer tar unpack target bs c)"
  unfolding apply_layer_def apply_entry_def remove_path_def
  by (auto intro!: aside_rules assms split: whiteout.splits option.splits)

lemma aside_generate_spec: "steps aside (generate_spec lib rt img req rootfs)"
  unfolding generate_spec_def add_bind_mounts_def ensure_source_def secured_def apply_security_def load_seccomp_def Let_def
  by (auto intro!: aside_rules aside_create_dir_all split: option.splits seccomp_profile.splits)

lemma aside_chown_tree:
  assumes "\<And>p u g. steps aside (lchown p u g)"
  shows "steps aside (chown_tree lchown p u g)"
proof -
  have "steps aside (symlink_is_dir q)" for q
    by (simp add: steps_def symlink_is_dir_def syscall_def split: option.splits)
  then have "steps aside (chown_tree_from lchown n q u g)" for n q
    by (induction n arbitrary: q) (auto intro!: aside_rules assms)
  then show ?thesis by (simp add: steps_def chown_tree_def del: chown_tree_from.simps)
qed

lemma aside_make_bundle:
  assumes "tools_aside cx"
  shows "steps aside (make_bundle cx image_cfg layers req i)"
proof -
  note tools = assms [unfolded tools_aside_def]
  have "steps aside (unpack_rootfs cx layers p)" for p
    unfolding unpack_rootfs_def unpack_layer_def
    using tools by (auto intro!: aside_rules aside_blobs aside_apply_layer)
  moreover have "steps aside (chown_rootfs cx req p)" for p
    unfolding chown_rootfs_def Let_def using tools by (auto intro!: aside_rules aside_chown_tree split: list.splits)
  moreover have "steps aside (write_bundle (cx_save_spec cx) p sp)" for p sp
    unfolding write_bundle_def Let_def using tools by (auto intro!: aside_rules aside_create_dir_all)
  ultimately show ?thesis
    unfolding make_bundle_def bundle_create_def Let_def
    by (auto intro!: aside_rules aside_create_dir_all aside_generate_spec)
qed

lemma aside_container:
  "steps aside (parse_image_config cx i)" "steps aside (request_mounts sb cf)" "steps aside (touch_log p)"
  "steps aside (is_terminal cx bd)" "steps aside (bundle_remove bd)"
  unfolding parse_image_config_def request_mounts_def touch_log_def append_open_def is_terminal_def bundle_remove_def Let_def
  by (auto intro!: aside_rules aside_blobs aside_create_dir_all split: sum.splits option.splits)

text \<open>A pull writes files only, when the unpacking of an entry does.\<close>

definition unpack_aside :: "('b, 'd cri_os) pull_lib \<Rightarrow> bool" where
  "unpack_aside lib \<longleftrightarrow> (\<forall>p e. steps aside (pl_unpack lib p e))"

lemma aside_open_writer: "steps aside (open_writer sha st r)"
proof -
  have "steps aside (pmod (os_seq_update f))" for f by (simp add: steps_def prog_simps aside_def)
  then show ?thesis
    unfolding open_writer_def Let_def by (auto intro!: aside_rules aside_create_dir_all)
qed

lemma aside_commit: "steps aside (commit sha wr sz d)"
proof -
  have "steps aside (rename p q)" for p q
    by (simp add: steps_def rename_def syscall_def split: option.splits node.splits sum.splits)
  then show ?thesis
    unfolding commit_def commit_verify_def commit_publish_def Let_def by (auto intro!: aside_rules aside_create_dir_all)
qed

lemma aside_drop_writer: "steps aside (drop_writer wr)"
  unfolding drop_writer_def by (auto intro!: aside_rules)

lemma aside_write_all: "write_all wr buf w = (r, wr', w') \<Longrightarrow> aside w w'"
proof (induction wr buf w rule: write_all.induct)
  case (1 wr buf w)
  show ?case
  proof (cases "buf = []")
    case True
    with "1.prems" show ?thesis by (simp add: write_all.simps)
  next
    case False
    obtain x wr1 w1 where x: "writer_write wr buf w = (x, wr1, w1)" by (cases "writer_write wr buf w")
    have "aside w w1"
      using x stepsD [OF aside_calls(12)] by (auto simp: writer_write_def split: option.splits prod.splits sum.splits)
    with "1.prems" "1.IH" [OF False x [symmetric]] x False show ?thesis
      by (auto simp: write_all.simps [of wr buf] split: sum.splits if_splits intro: asd.order_trans)
  qed
qed

lemma aside_write_blob: "steps aside (write_blob sha st r bs d :: ('d cri_os, _, _) prog)"
proof -
  have "steps aside (\<lambda>w :: 'd cri_os. case write_all wr bs w of (Inl e, wr', w') \<Rightarrow> pseq (drop_writer wr') (pfail e) w'
      | (Inr x, wr', w') \<Rightarrow> commit sha wr' (of_nat (length bs)) d w')" for wr
  proof (rule stepsI)
    fix w :: "'d cri_os"
    obtain x wr1 w1 where x: "write_all wr bs w = (x, wr1, w1)" by (cases "write_all wr bs w")
    have "steps aside (pseq (drop_writer wr1) (pfail e) :: ('d cri_os, _, digest) prog)" for e by (auto intro!: aside_rules aside_drop_writer)
    then have "aside w1 (snd ((pseq (drop_writer wr1) (pfail e) :: ('d cri_os, _, digest) prog) w1))" for e by (simp add: steps_def)
    then show "aside w (snd (case write_all wr bs w of (Inl e, wr', w') \<Rightarrow> pseq (drop_writer wr') (pfail e) w'
        | (Inr x, wr', w') \<Rightarrow> commit sha wr' (of_nat (length bs)) d w'))"
      using aside_write_all [OF x] x
      by (auto split: sum.splits intro: asd.order_trans aside_commit [unfolded steps_def, rule_format])
  qed
  then show ?thesis unfolding write_blob_def by (auto intro!: aside_rules aside_open_writer)
qed

lemma aside_store_stream: "store_stream wr items (w :: 'a cri_os) = (r, w') \<Longrightarrow> aside w w'"
proof (induction wr items w rule: store_stream.induct)
  have ab: "abandon wr e u = (r, u') \<Longrightarrow> aside u u'" for wr e and r :: "pull_error + writer" and u u' :: "'a cri_os"
    by (erule stepsD [rotated]) (auto simp: abandon_def intro!: aside_rules aside_drop_writer)
  {
    case (2 wr e items w)
    then show ?case using ab by simp
  next
    case (3 wr chunk items w)
    obtain x wr1 w1 where x: "write_all wr chunk w = (x, wr1, w1)" by (cases "write_all wr chunk w")
    with 3 aside_write_all [OF x] show ?case by (auto split: sum.splits dest!: ab intro: asd.order_trans)
  }
qed simp

lemma aside_pull:
  fixes lib :: "('c, 'd cri_os) pull_lib"
  assumes "unpack_aside lib"
  shows "steps aside (pull_with_options lib cp st sr reference au)"
proof -
  have toml: "steps aside (any_uses_http toml root ns)" for toml root ns
    by (induction ns) (auto intro!: aside_rules aside_files split: sum.splits option.splits)
  have stream: "steps aside (store_stream wr items)" for wr items
    by (rule stepsI) (metis aside_store_stream prod.collapse)
  have unpack: "steps aside (pl_unpack lib p e)" for p e using assms by (simp add: unpack_aside_def)
  have layer: "steps aside (pull_layer lib st sr reference ins parsed ds acc x)" for ins parsed ds acc x
    unfolding pull_layer_def fetch_layer_def unpack_snapshot_def abandon_def Let_def
    by (auto intro!: aside_rules aside_open_writer aside_commit aside_drop_writer stream aside_blobs aside_create_dir_all aside_apply_layer unpack
        split: prod.splits sum.splits)
  show ?thesis
    unfolding pull_with_options_def insecure_registries_for_def hosts_toml_uses_http_def Let_def
    by (auto intro!: aside_rules toml aside_write_blob layer split: option.splits prod.splits)
qed

lemma aside_resolve_auth: "steps aside (resolve_auth de reference a)"
proof -
  have "steps aside (first_config de ps)" for ps
    by (induction ps) (auto intro!: aside_rules split: sum.splits option.splits)
  then show ?thesis unfolding resolve_auth_def load_default_def by (auto intro!: aside_rules)
qed

text \<open>Runs of \<open>crun\<close>, signals and events leave the records and other tasks alone.\<close>

definition records_kept :: "'d cri_os \<Rightarrow> 'd cri_os \<Rightarrow> bool" where
  "records_kept w w' \<longleftrightarrow> cr_db w' = cr_db w \<and> cr_env w' = cr_env w"

interpretation rck: step_order records_kept
  by unfold_locales (auto simp: records_kept_def)

lemma aside_records: "steps aside m \<Longrightarrow> steps records_kept m"
  by (erule steps_weaken) (auto simp: aside_def records_kept_def)

lemma records_kept_calls:
  "steps records_kept (run_crun args)" "steps records_kept (kill_holder pid)" "steps records_kept (emit_container_event i ev)"
  "steps records_kept (get_sandbox cx i)" "steps records_kept (get_container cx i)" "steps records_kept (get_image cx i)"
  "steps records_kept (list_sandboxes cx)" "steps records_kept (list_container_records cx)" "steps records_kept (list_image_records cx)"
  by (simp_all add: steps_def records_kept_def run_crun_def kill_holder_def emit_container_event_def unix_nanos_def prog_simps
      list_sandboxes_def list_container_records_def list_image_records_def)

lemma records_kept_internal: "steps records_kept m \<Longrightarrow> steps records_kept (internal m)"
  by (simp add: internal_def rck.steps_with_err)

lemma records_kept_crun:
  "steps records_kept (crun_state r i)" "steps records_kept (crun_kill r i s)" "steps records_kept (crun_delete r i)"
  "steps records_kept (crun_update r i res)" "steps records_kept (crun_probe js r i)"
  unfolding crun_state_def crun_kill_def crun_delete_def crun_update_def crun_probe_def
  by (auto intro!: rck.steps_rules records_kept_calls split: proc_outcome.splits)

lemmas records_kept_rules = rck.steps_rules records_kept_calls records_kept_crun records_kept_internal

end
