(* ===== verification/Cri_Sample.thy ===== *)
theory Cri_Sample
  imports Cri_Frames Bundle_Properties
begin

section \<open>A concrete daemon for closed examples\<close>

text \<open>
  The in-memory database of \<open>Metadata_Store\<close>, codecs that write a record as its position in a
  given list, and library programs that do nothing. It satisfies what the properties of the
  CRI server assume of the code outside the repository.
\<close>

definition sample_ser :: "'v list \<Rightarrow> 'v \<Rightarrow> string + bytes" where
  "sample_ser vs v = (if v \<in> set vs then Inr [of_nat (length (takeWhile (\<lambda>x. x \<noteq> v) vs))] else Inl ''unknown record'')"

definition sample_des :: "'v list \<Rightarrow> bytes \<Rightarrow> string + 'v" where
  "sample_des vs bs =
     (case bs of [b] \<Rightarrow> if unat b < length vs then Inr (vs ! unat b) else Inl ''bad record'' | _ \<Rightarrow> Inl ''bad record'')"

lemma sample_serde_ok: "length vs < 256 \<Longrightarrow> serde_ok (sample_ser vs) (sample_des vs)"
proof (unfold serde_ok_def, intro allI impI)
  fix v bs assume len: "length vs < 256" and run: "sample_ser vs v = Inr bs"
  let ?n = "length (takeWhile (\<lambda>x. x \<noteq> v) vs)"
  from run have v: "v \<in> set vs" and bs: "bs = [of_nat ?n]" by (auto simp: sample_ser_def split: if_splits)
  have n: "?n < length vs" using v by (metis (full_types) length_takeWhile_le nat_less_le nth_length_takeWhile takeWhile_eq_all_conv
        takeWhile_eq_take take_all)
  moreover have "vs ! ?n = v" using n nth_length_takeWhile by blast
  moreover have "unat (of_nat ?n :: u8) = ?n" using n len by (simp add: unat_of_nat)
  ultimately show "sample_des vs bs = Inr v" by (simp add: sample_des_def bs)
qed

definition sample_ctx :: "sandbox_record list \<Rightarrow> container_record list \<Rightarrow> image_record list
    \<Rightarrow> (mem_db, mem_db, string, unit) cri_ctx" where
  "sample_ctx sbs cts ims =
     \<lparr>cx_content = \<lparr>st_root = [''content'']\<rparr>, cx_snapshots_root = [''snap''], cx_state_dir = [''run''], cx_namespace = ''k8s.io'',
      cx_stream_base_url = ''http://127.0.0.1:10010'', cx_cni = sample_cni, cx_no_pivot_root = False, cx_redb = mem_redb,
      cx_ser_sandbox = sample_ser sbs, cx_des_sandbox = sample_des sbs, cx_ser_container = sample_ser cts,
      cx_des_container = sample_des cts, cx_ser_image = sample_ser ims, cx_des_image = sample_des ims, cx_sha = sample_sha,
      cx_cni_codec = sample_codec, cx_json = (\<lambda>bs. None), cx_image_config = (\<lambda>bs. None), cx_bundle_lib = sample_lib,
      cx_rt_default = sample_rt, cx_tar = (\<lambda>c bs. Inr []), cx_unpack = (\<lambda>p e. pret True), cx_save_spec = (\<lambda>p sp. pret ()),
      cx_lchown = (\<lambda>p u g. pret ()), cx_uid = 0, cx_gid = 0, cx_host_ip = ''192.0.2.1''\<rparr>"

lemma sample_ctx_ok:
  "length sbs < 256 \<Longrightarrow> length cts < 256 \<Longrightarrow> length ims < 256 \<Longrightarrow> ctx_ok (sample_ctx sbs cts ims)"
  using mem_redb_ok by (auto simp: ctx_ok_def sample_ctx_def sample_serde_ok)

lemma sample_tools: "tools_aside (sample_ctx sbs cts ims)"
  by (simp add: tools_aside_def sample_ctx_def asd.steps_pret)

text \<open>A world with given tables and nothing else going on.\<close>

definition sample_world :: "mem_db \<Rightarrow> (mem_db \<Rightarrow> mem_db) list \<Rightarrow> proc_outcome list \<Rightarrow> mem_db cri_os" where
  "sample_world db env runs =
     \<lparr>os_fs = [], os_sched = [], os_pid = 1, os_seq = 0, cw_calls = [], cw_outcomes = [], cr_db = db, cr_env = env,
      cr_clock = (\<lambda>n. of_nat n), cr_reads = 0, cr_late = [], cr_crun = runs, cr_crun_calls = [], cr_helpers = [], cr_kills = [],
      cr_events = []\<rparr>"

definition sample_db :: "(string \<times> bytes) list \<Rightarrow> (string \<times> bytes) list \<Rightarrow> (string \<times> bytes) list \<Rightarrow> mem_db" where
  "sample_db sbs cts ims = (\<lambda>n. if n = ''sandboxes'' then sbs else if n = ''containers'' then cts else if n = ''images'' then ims else [])"

definition sample_container :: "container_state \<Rightarrow> container_record" where
  "sample_container st =
     \<lparr>ct_id = ''c1'', ct_sandbox_id = ''s1'', ct_name = ''web'', ct_attempt = 0, ct_image_ref = ''busybox'', ct_image_id = '''',
      ct_state = st, ct_snapshot_key = '''', ct_log_path = '''', ct_created_at = 0, ct_started_at = None, ct_finished_at = None,
      ct_exit_code = None, ct_reason = None, ct_labels = [], ct_annotations = [], ct_mounts = [], ct_resources = None,
      ct_crun_root = None, ct_bundle_dir = None, ct_pid = None, ct_restart_count = 0, ct_stdin = False, ct_stdin_once = False,
      ct_devices = []\<rparr>"

lemma sample_reads:
  "sandbox_in (sample_ctx sbs cts ims) i d = store_get mem_redb (sample_des sbs) Sandbox ''k8s.io'' i d"
  "container_in (sample_ctx sbs cts ims) i d = store_get mem_redb (sample_des cts) Container ''k8s.io'' i d"
  "image_in (sample_ctx sbs cts ims) i d = store_get mem_redb (sample_des ims) Image ''k8s.io'' i d"
  by (simp_all add: sandbox_in_def container_in_def image_in_def sample_ctx_def)

lemma mem_get: "store_get mem_redb des kd ns i d =
    (case map_of (d (kind_table kd)) (ns @ ''/'' @ i) of
       None \<Rightarrow> Inr None | Some bs \<Rightarrow> rbind (map_err Serde (des bs)) (\<lambda>v. Inr (Some v)))"
  by (simp add: store_get_def mem_redb_def meta_key_def split: option.splits)

lemma mem_put: "store_put mem_redb ser kd ns i v d =
    rbind (map_err Serde (ser v)) (\<lambda>bs. Inr (d(kind_table kd := AList.update (ns @ ''/'' @ i) bs (d (kind_table kd)))))"
  by (cases "ser v") (simp_all add: store_put_def mem_redb_def meta_key_def)

end
