(* ===== verification/Cri_Image_Service.thy ===== *)
theory Cri_Image_Service
  imports Cri_Sample Cri_Images
begin

section \<open>What the image service promises\<close>

text \<open>
  A pulled image is found again under the reference it was pulled by, and removing an image keeps
  the files of every image that remains: the composition of the records, the lookup and the
  garbage collection.
\<close>

subsection \<open>PullImage\<close>

lemma push_new_mem: "x = Some t \<Longrightarrow> t \<in> set (push_new x xs)" "set xs \<subseteq> set (push_new x xs)"
  by (auto simp: push_new_def split: option.splits)

lemma merged_answers: "key_answers reference (merged_image_record reference pulled old)"
proof (cases "is_digest_ref reference")
  case True
  then have "reference \<in> set (im_repo_digests (merged_image_record reference pulled old))"
    by (simp add: merged_image_record_def digest_ref_of_def push_new_mem Let_def)
  then show ?thesis by (auto simp: key_answers_def list_ex_iff)
next
  case False
  then have "normalize_image_ref reference \<in> set (im_repo_tags (merged_image_record reference pulled old))"
    by (simp add: merged_image_record_def tag_ref_of_def then_some_def push_new_mem Let_def)
  then show ?thesis by (auto simp: key_answers_def list_ex_iff)
qed

lemma merged_id:
  "(\<And>r. old = Some r \<Longrightarrow> im_image_id r = digest_to_string (pi_image_id pulled)) \<Longrightarrow>
     im_image_id (merged_image_record reference pulled old) = digest_to_string (pi_image_id pulled)"
  by (cases old) (simp_all add: merged_image_record_def fresh_image_record_def Let_def)

definition awaited :: "'d cri_os \<Rightarrow> 'd cri_os" where
  "awaited w = (case cr_env w of [] \<Rightarrow> w | f # fs \<Rightarrow> w\<lparr>cr_db := f (cr_db w), cr_env := fs\<rparr>)"

lemma await_run: "await w = (Inr (), awaited w)"
  by (simp add: await_def awaited_def prog_simps)

lemma pull_image_Inr:
  assumes ok: "ctx_ok cx" and pa: "unpack_aside lib"
    and run: "pull_image cx lib de cp (Some reference) auth w = (Inr i, w')"
  obtains pulled old where "i = digest_to_string (pi_image_id pulled)" "image_in cx i (cr_db (awaited w)) = Inr old"
    "\<And>j. image_in cx j (cr_db w') = (if j = i then Inr (Some (merged_image_record reference pulled old))
        else image_in cx j (cr_db (awaited w)))"
proof -
  from run obtain a w0 pulled w1 old where au: "resolve_auth de reference (case auth of None \<Rightarrow> Anonymous
        | Some x \<Rightarrow> auth_from_config (de_base64 de) x) (awaited w) = (Inr a :: rpc_status + _, w0)"
    and p: "pull_with_options lib cp (cx_content cx) (cx_snapshots_root cx) reference a w0 = (Inr pulled, w1)"
    and i: "i = digest_to_string (pi_image_id pulled)" and old: "image_in cx i (cr_db w1) = Inr old"
    and put: "put_image cx i (merged_image_record reference pulled old) w1 = (Inr (), w')"
    unfolding pull_image_def Let_def by (auto simp: prog_Inr await_run get_run split: if_splits)
  have "aside (awaited w) w1"
    using stepsD [OF aside_resolve_auth au] stepsD [OF aside_pull [OF pa] p] by (rule asd.order_trans)
  then have db: "cr_db w1 = cr_db (awaited w)" by (rule aside_db)
  from ok put have "image_in cx j (cr_db w') = (if j = i then Inr (Some (merged_image_record reference pulled old))
      else image_in cx j (cr_db (awaited w)))" for j
    by (cases rule: put_image_cases) (auto simp: db)
  with i old db that show thesis by simp
qed

lemma svc_find_image_list:
  assumes "image_in cx key (cr_db w) = Inr None" "list_image_records cx w = (Inr rs, w)"
  shows "svc_find_image cx key w = (Inr (List.find (key_answers key) rs), w)"
  using assms by (simp add: svc_find_image_def prog_simps)


subsection \<open>RemoveImage\<close>

text \<open>The files an image record stands for: its blobs and its unpacked snapshots.\<close>

definition image_file :: "('d, 't, 'sec, 'b) cri_ctx \<Rightarrow> image_record \<Rightarrow> fpath \<Rightarrow> bool" where
  "image_file cx r q \<longleftrightarrow>
     (\<exists>d. digest_to_string d \<in> set (referenced_blobs r) \<and> q = blob_path (st_root (cx_content cx)) d)
     \<or> (\<exists>c. c \<in> set (im_chain_ids r) \<and> below (snapshot_base (cx_snapshots_root cx) c) q)"

definition roots_apart :: "('d, 't, 'sec, 'b) cri_ctx \<Rightarrow> bool" where
  "roots_apart cx \<longleftrightarrow>
     \<not> below (cx_snapshots_root cx @ [''snapshots'']) (st_root (cx_content cx) @ [''blobs''])
     \<and> \<not> below (st_root (cx_content cx) @ [''blobs'']) (cx_snapshots_root cx @ [''snapshots''])"

lemma svc_find_image_records:
  assumes ok: "ctx_ok cx" and run: "svc_find_image cx key w = (Inr (Some rec), w')"
  shows "w' = w \<and> (\<exists>j. image_in cx j (cr_db w) = Inr (Some rec))"
proof (cases "image_in cx key (cr_db w)")
  case (Inr r)
  show ?thesis
  proof (cases r)
    case None
    from run Inr None obtain rs where ls: "list_image_records cx w = (Inr rs, w')" and f: "List.find (key_answers key) rs = Some rec"
      by (auto simp: svc_find_image_def prog_Inr get_run)
    from f have "rec \<in> set rs" by (auto simp: find_Some_iff)
    with ls show ?thesis using img.lst_mem [OF ok, of "cr_db w" rs] by (auto simp: list_image_records_def split: sum.splits)
  qed (use run Inr in \<open>auto simp: svc_find_image_def prog_simps\<close>)
qed (use run in \<open>auto simp: svc_find_image_def prog_simps\<close>)

lemma remove_image_Inr:
  assumes ok: "ctx_ok cx" and found: "svc_find_image cx key w = (Inr (Some rec), w)"
    and run: "remove_image cx (Some key) w = (Inr (), w')"
  obtains b w1 live x where "delete_record cx Image (im_image_id rec) w = (Inr b, w1)"
    "list_image_records cx w1 = (Inr live, w1)" "reclaim (cx_content cx) (cx_snapshots_root cx) rec live w1 = (Inr x, w')"
proof -
  have same: "w2 = w1" if "list_image_records cx w1 = (Inr live, w2)" for w1 w2 live
    using that by (auto simp: list_image_records_def split: sum.splits)
  from run found obtain b w1 live w2 x where "delete_record cx Image (im_image_id rec) w = (Inr b, w1)"
    "list_image_records cx w1 = (Inr live, w2)" "reclaim (cx_content cx) (cx_snapshots_root cx) rec live w2 = (Inr x, w')"
    by (auto simp: remove_image_def prog_Inr)
  with same that show thesis by blast
qed

lemma reclaim_fine: "\<exists>x u'. reclaim st sr rec live u = (Inr x, u')"
proof -
  have chains: "\<exists>x u'. pfold (reclaim_chain sr l) b xs v = (Inr x, u')" for l b xs and v :: "'a os_scheme"
    using infallible_pfold [of "reclaim_chain sr l" b xs] infallible_reclaim(2) unfolding infallible_def by blast
  obtain b t where "pfold (reclaim_blob st (concat (map referenced_blobs live))) \<lparr>rp_blobs_removed = 0, rp_snapshots_removed = 0\<rparr>
      (referenced_blobs rec) u = (Inr b, t)"
    using infallible_pfold [of "reclaim_blob st (concat (map referenced_blobs live))"] infallible_reclaim(1) unfolding infallible_def by blast
  then show ?thesis using chains by (simp add: reclaim_def pbind_run)
qed

lemma remove_image_frame:
  assumes ok: "ctx_ok cx" and canon: "\<forall>j r. image_in cx j (cr_db w) = Inr (Some r) \<longrightarrow> canonical_image r"
    and apart: "roots_apart cx" and found: "svc_find_image cx key w = (Inr (Some rec), w)"
    and run: "remove_image cx (Some key) w = (Inr (), w')"
  shows "(\<forall>j. image_in cx j (cr_db w') = (if j = im_image_id rec then Inr None else image_in cx j (cr_db w)))
    \<and> (\<forall>j r q bs. image_in cx j (cr_db w') = Inr (Some r) \<and> image_file cx r q \<longrightarrow>
        (lookup w' q = Some (File bs)) = (lookup w q = Some (File bs)))"
proof -
  from ok found run obtain b w1 live x where del: "delete_record cx Image (im_image_id rec) w = (Inr b, w1)"
    and ls: "list_image_records cx w1 = (Inr live, w1)" and rc: "reclaim (cx_content cx) (cx_snapshots_root cx) rec live w1 = (Inr x, w')"
    by (rule remove_image_Inr)
  from ok del have w1: "os_fs w1 = os_fs w"
    "\<And>j. image_in cx j (cr_db w1) = (if j = im_image_id rec then Inr None else image_in cx j (cr_db w))"
    by (cases rule: delete_record_cases; auto)+
  have db: "cr_db w' = cr_db w1" by (rule aside_db, rule stepsD [OF aside_blobs(3) rc])
  have live: "r \<in> set live \<longleftrightarrow> (\<exists>j. image_in cx j (cr_db w1) = Inr (Some r))" for r
    by (rule img.lst_mem [OF ok]) (use ls in \<open>simp add: list_image_records_def split: sum.splits\<close>)
  have all: "list_all canonical_image (rec # live)"
    using canon svc_find_image_records [OF ok found] by (auto simp: list_all_iff live w1 split: if_splits)
  obtain root where root: "cx_content cx = \<lparr>st_root = root\<rparr>" by (cases "cx_content cx") simp
  have "frame (\<lambda>p. p \<noteq> q) w1 w'" if "r \<in> set live" "image_file cx r q" for r q
  proof -
    have "steps (frame (\<lambda>p. p \<noteq> q)) (reclaim (cx_content cx) (cx_snapshots_root cx) rec live)"
      using apart that(2) unfolding root by (intro reclaim_live_frame [OF all _ _ that(1)]) (simp_all add: roots_apart_def image_file_def root)
    then show ?thesis using rc by (rule stepsD)
  qed
  then have "(lookup w' q = Some (File bs)) = (lookup w1 q = Some (File bs))" if "r \<in> set live" "image_file cx r q" for r q bs
    using that frame_file by blast
  then have "\<forall>j r q bs. image_in cx j (cr_db w') = Inr (Some r) \<and> image_file cx r q \<longrightarrow>
      (lookup w' q = Some (File bs)) = (lookup w q = Some (File bs))"
    using w1(1) by (auto simp: lookup_def db live)
  moreover have "\<forall>j. image_in cx j (cr_db w') = (if j = im_image_id rec then Inr None else image_in cx j (cr_db w))"
    using w1(2) db by simp
  ultimately show ?thesis by (rule conjI [rotated])
qed


subsection \<open>A tag that moves\<close>

definition sample_tag :: string where
  "sample_tag = ''registry.k8s.io/pause:3.9''"

text \<open>A registry with one image of no layers.\<close>

definition sample_pull_lib :: "(unit, mem_db cri_os) pull_lib" where
  "sample_pull_lib =
     \<lparr>pl_sha = sample_sha, pl_parse_ref = (\<lambda>r. Inr \<lparr>or_registry = [], or_repository = [], or_tag = None, or_digest = None\<rparr>),
      pl_manifest = (\<lambda>ins r a. Inr ([], [], [CHR 0x02])), pl_blob_stream = (\<lambda>ins r d. Inr []),
      pl_config_json = (\<lambda>bs. Inr \<lparr>icj_diff_ids = [], icj_user = []\<rparr>), pl_hosts_toml = (\<lambda>t. None), pl_inflate = (\<lambda>c bs. Inr bs),
      pl_entries = (\<lambda>c bs. Inr []), pl_unpack = (\<lambda>p e. pret True), pl_extra_insecure = None\<rparr>"

definition sample_pulled :: pulled_image where
  "sample_pulled =
     \<lparr>pi_reference = sample_tag, pi_image_id = sha256 sample_sha [2], pi_manifest_digest = None, pi_size = 1, pi_diff_ids = [],
      pi_chain_ids = [], pi_layer_digests = [], pi_user = []\<rparr>"

definition sample_images :: "image_record list" where
  "sample_images = [(sample_image 1 [2])\<lparr>im_repo_tags := [sample_tag]\<rparr>, merged_image_record sample_tag sample_pulled None]"

definition sample_pulls :: "(mem_db, mem_db, string, unit) cri_ctx" where
  "sample_pulls = sample_ctx [] [] sample_images"

definition image_key :: "u8 \<Rightarrow> string" where
  "image_key b = digest_to_string (sha256 sample_sha [b])"

lemma sample_keys: "image_key 1 \<noteq> image_key 2" "sample_tag \<noteq> image_key 1" "sample_tag \<noteq> image_key 2"
  "normalize_image_ref sample_tag = sample_tag" "\<not> is_digest_ref sample_tag"
  by code_simp+

lemma sample_image_ids:
  "im_image_id (merged_image_record sample_tag sample_pulled None) = image_key 2" "im_image_id (sample_image b ls) = image_key b"
  "im_repo_tags (merged_image_record sample_tag sample_pulled None) = [sample_tag]"
  by (simp_all add: merged_image_record_def fresh_image_record_def sample_pulled_def image_key_def sample_image_def Let_def
      tag_ref_of_def sample_keys then_some_def push_new_def)

lemma sample_image_neq: "(sample_image 1 [2])\<lparr>im_repo_tags := [sample_tag]\<rparr> \<noteq> merged_image_record sample_tag sample_pulled None"
proof
  assume "(sample_image 1 [2])\<lparr>im_repo_tags := [sample_tag]\<rparr> = merged_image_record sample_tag sample_pulled None"
  then have "im_image_id ((sample_image 1 [2])\<lparr>im_repo_tags := [sample_tag]\<rparr>) = image_key 2" by (simp add: sample_image_ids)
  with sample_keys show False by (simp add: sample_image_ids)
qed

lemma sample_pulls_reads:
  "image_in sample_pulls j (sample_db [] [] ims) =
     (case map_of ims (''k8s.io/'' @ j) of None \<Rightarrow> Inr None | Some bs \<Rightarrow> rbind (map_err Serde (sample_des sample_images bs)) (\<lambda>v. Inr (Some v)))"
  by (simp add: sample_pulls_def sample_reads mem_get sample_db_def)

lemma sample_pulls_put:
  "put_image sample_pulls (image_key 2) (merged_image_record sample_tag sample_pulled None) u
     = (Inr (), u\<lparr>cr_db := (cr_db u)(''images'' := AList.update (''k8s.io/'' @ image_key 2) [1] (cr_db u ''images''))\<rparr>)"
  by (simp add: put_image_def db_step_def sample_pulls_def sample_ctx_def mem_put sample_ser_def sample_images_def sample_image_neq)

definition sample_held :: "mem_db cri_os" where
  "sample_held = sample_world (sample_db [] [] [(''k8s.io/'' @ image_key 1, [0])]) [] []"

lemma sample_held_world: "awaited sample_held = sample_held" "cr_db sample_held = sample_db [] [] [(''k8s.io/'' @ image_key 1, [0])]"
  by (simp_all add: awaited_def sample_held_def sample_world_def)

lemma sample_held_reads:
  "image_in sample_pulls j (cr_db sample_held)
     = Inr (if j = image_key 1 then Some ((sample_image 1 [2])\<lparr>im_repo_tags := [sample_tag]\<rparr>) else None)"
  unfolding sample_held_world by (simp add: sample_pulls_reads sample_des_def sample_images_def)

lemma sample_pull_runs:
  "fst (pull_with_options sample_pull_lib None \<lparr>st_root = [''content'']\<rparr> [''snap''] sample_tag Anonymous sample_held) = Inr sample_pulled"
  by code_simp

lemma sample_auth_runs: "resolve_auth sample_docker_env sample_tag Anonymous sample_held = (Inr Anonymous, sample_held)"
  by (simp add: resolve_auth_def load_default_def config_paths_def sample_docker_env_def prog_simps read_file_def syscall_def
      next_event_def lookup_def tick_def sample_held_def sample_world_def)


text \<open>Removing the first of two images that share a layer.\<close>

definition sample_pair :: "mem_db cri_os" where
  "sample_pair =
     (sample_world (sample_db [] [] [(''k8s.io/'' @ image_key 1, [0]), (''k8s.io/'' @ image_key 2, [1])]) [] [])
       \<lparr>os_fs := [(blob_path [''content''] (sha256 sample_sha [2]), File [2])]\<rparr>"

lemma sample_pair_reads:
  "image_in sample_pulls j (cr_db sample_pair) = Inr (if j = image_key 1 then Some ((sample_image 1 [2])\<lparr>im_repo_tags := [sample_tag]\<rparr>)
     else if j = image_key 2 then Some (merged_image_record sample_tag sample_pulled None) else None)"
proof -
  have "cr_db sample_pair = sample_db [] [] [(''k8s.io/'' @ image_key 1, [0]), (''k8s.io/'' @ image_key 2, [1])]"
    by (simp add: sample_pair_def sample_world_def)
  then show ?thesis using sample_keys(1) by (simp add: sample_pulls_reads sample_des_def sample_images_def)
qed

lemma sample_canonical:
  "canonical_image ((sample_image 1 [2])\<lparr>im_repo_tags := [sample_tag]\<rparr>)" "canonical_image (merged_image_record sample_tag sample_pulled None)"
  using sha256_wf [OF sample_sha_ok]
  by (auto simp: canonical_image_def sample_image_def merged_image_record_def fresh_image_record_def sample_pulled_def referenced_blobs_def
      digest_text_iff list_all_iff Let_def unwrap_or_def)


end
