(* ===== verification/Pull_Properties.thy ===== *)
theory Pull_Properties
  imports Image_Pull
begin

section \<open>What a pull guarantees\<close>

text \<open>
  A pull that succeeds has verified everything it stored, and no pull unpacks a layer whose bytes
  do not have the digest of the manifest and the diffID of the configuration, whatever the
  registry sends and whichever calls fail. The store is used by this pull alone; writers running
  side by side are the subject of \<open>Content_Store\<close>.
\<close>

subsection \<open>Files outside an area\<close>

definition outside :: "(fpath \<Rightarrow> bool) \<Rightarrow> 'z os_scheme \<Rightarrow> 'z os_scheme \<Rightarrow> bool" where
  "outside P w w' \<longleftrightarrow> (\<forall>q bs. \<not> P q \<longrightarrow> lookup w' q = Some (File bs) \<longleftrightarrow> lookup w q = Some (File bs))"

interpretation out: step_order "outside P" for P
  by unfold_locales (auto simp: outside_def)

lemma outside_frame: "frame Q w w' \<Longrightarrow> (\<And>q. Q q \<Longrightarrow> P q) \<Longrightarrow> outside P w w'"
  unfolding outside_def frame_def by blast

lemma outside_mono: "outside Q w w' \<Longrightarrow> (\<And>q. Q q \<Longrightarrow> P q) \<Longrightarrow> outside P w w'"
  unfolding outside_def by blast

definition store_area :: "fpath \<Rightarrow> fpath \<Rightarrow> bool" where
  "store_area root q \<longleftrightarrow> below (root @ [''ingest'']) q \<or> below (root @ [''blobs'']) q"

lemma store_area_paths [simp]:
  "store_area root (stage_file sha root r pid k)" "store_area root (blob_file root h)" "store_area root (blob_path root d)"
  by (simp_all add: store_area_def stage_file_def blob_file_def blob_path_def below_iff)

text \<open>A run that leaves the store's promise intact: blobs stay blobs, their digests stay right, and at
  most \<open>n\<close> writers were opened.\<close>

definition store_grows :: "(bytes \<Rightarrow> string) \<Rightarrow> fpath \<Rightarrow> nat \<Rightarrow> 'z os_scheme \<Rightarrow> 'z os_scheme \<Rightarrow> bool" where
  "store_grows sha root n w w' \<longleftrightarrow>
     blobs_ok sha root w'
     \<and> (\<forall>h c. lookup w (blob_file root h) = Some (File c) \<longrightarrow> (\<exists>c'. lookup w' (blob_file root h) = Some (File c')))
     \<and> unat (os_seq w') \<le> unat (os_seq w) + n"

lemma store_grows_trans:
  "store_grows sha root n u v \<Longrightarrow> store_grows sha root m v w \<Longrightarrow> store_grows sha root (n + m) u w"
  unfolding store_grows_def by (fastforce intro: order_trans)

lemma store_grows_frame:
  assumes "blobs_ok sha root w" "frame P w w'" "\<And>h. \<not> P (blob_file root h)"
  shows "store_grows sha root 0 w w'"
  using assms unfolding store_grows_def blobs_ok_def by (auto simp: frame_def)

subsection \<open>One layer into the store\<close>

lemma outside_open_writer:
  "open_writer sha \<lparr>st_root = root\<rparr> r w = (res, w') \<Longrightarrow> outside (store_area root) w w'"
proof (erule stepsD [rotated])
  have calls: "steps (outside (store_area root)) (create_dir_all p)" for p
    by (rule steps_weaken [OF frame_create_dir_all [of "\<lambda>_. False"]]) (auto elim: outside_frame)
  have mk: "steps (outside (store_area root)) (create_file (root @ [''ingest'', x]))" for x
    by (rule steps_weaken [OF frame_create_file [of "store_area root"]]) (auto elim: outside_frame simp: store_area_def below_iff)
  have "steps (outside (store_area root)) (pmod (os_seq_update f))" for f
    by (simp add: steps_def prog_simps outside_def fs_simps)
  with calls mk show "steps (outside (store_area root)) (open_writer sha \<lparr>st_root = root\<rparr> r)"
    unfolding open_writer_def Let_def by (auto intro!: out.steps_rules)
qed

lemma store_stream_ok:
  assumes "writer_ok sha root w wr" "store_stream wr items w = (r, w')"
  shows "frame (\<lambda>q. q = wr_staging wr) w w' \<and> (\<forall>wr'. r = Inr wr' \<longrightarrow> writer_ok sha root w' wr' \<and> wr_staging wr' = wr_staging wr)"
  using assms
proof (induction wr items w rule: store_stream.induct)
  case (1 wr w)
  then show ?case by (auto simp: frm.order_refl)
next
  case (2 wr e items w)
  then show ?case by (auto simp: abandon_def prog_eq dest: stepsD [OF drop_writer_frame])
next
  case (3 wr chunk items w)
  obtain x wr1 w1 where x: "write_all wr chunk w = (x, wr1, w1)" by (cases "write_all wr chunk w")
  note one = write_all_ok [OF 3(2) x]
  show ?case
  proof (cases x)
    case (Inl e)
    with 3(3) x have "abandon wr1 (write_error e) w1 = (r, w')" by simp
    then have "frame (\<lambda>q. q = wr_staging wr) w1 w' \<and> r \<notin> range Inr"
      using one by (auto simp: abandon_def prog_eq dest: stepsD [OF drop_writer_frame])
    with one show ?thesis by (auto intro: frm.order_trans)
  next
    case (Inr y)
    with 3(3) x have run: "store_stream wr1 items w1 = (r, w')" by simp
    have rest: "frame (\<lambda>q. q = wr_staging wr1) w1 w' \<and> (\<forall>wr'. r = Inr wr' \<longrightarrow> writer_ok sha root w' wr' \<and> wr_staging wr' = wr_staging wr1)"
      by (rule 3(1) [OF x [symmetric] _ _ _ run]) (use Inr one in auto)
    then have "frame (\<lambda>q. q = wr_staging wr) w w'" using one frm.order_trans by metis
    with rest one show ?thesis by metis
  qed
qed

text \<open>A commit: the expected digest is that of the bytes written, the blob is there afterwards.\<close>

lemma commit_ok:
  assumes sha: "sha_hex_ok sha" and ok: "writer_ok sha root w wr" and blobs: "blobs_ok sha root w"
    and run: "commit sha wr sz d w = (r, w')"
  shows "outside (store_area root) w w' \<and> store_grows sha root 0 w w'
    \<and> (\<forall>x. r = Inr x \<longrightarrow> x = d \<and> d = sha256 sha (wr_hasher wr) \<and> (\<exists>c. lookup w' (blob_file root (hex d)) = Some (File c)))"
proof -
  from ok have root: "wr_root wr = root" and st: "is_stage sha root (unat (os_seq w)) (wr_staging wr)"
    and staged: "lookup w (wr_staging wr) = Some (File (wr_hasher wr))" by (auto simp: writer_ok_def)
  have area: "store_area root (wr_staging wr)" using st by (auto simp: is_stage_def)
  have nb: "wr_staging wr \<noteq> blob_file root h" for h using st is_stage_neq_blob by blast
  obtain x w1 where v: "commit_verify sha wr sz d w = (x, w1)" by fastforce
  have fv: "frame (\<lambda>q. q = wr_staging wr) w w1" by (rule stepsD [OF commit_verify_frame v])
  show ?thesis
  proof (cases x)
    case (Inl e)
    with run v have "w' = w1" "r \<notin> range Inr" by (auto simp: commit_def prog_eq)
    moreover have "store_grows sha root 0 w w1" by (rule store_grows_frame [OF blobs fv]) (use nb in metis)
    moreover have "outside (store_area root) w w1" by (rule outside_frame [OF fv]) (use area in simp)
    ultimately show ?thesis by auto
  next
    case (Inr y)
    from commit_verify_Inr [OF sha v [unfolded Inr]] have y: "y = d" "d = sha256 sha (wr_hasher wr)" "frame (\<lambda>q. False) w w1" by auto
    from run v Inr y have p: "commit_publish wr d w1 = (r, w')" by (simp add: commit_def prog_simps)
    have wf: "wf_digest d" using y(2) sha256_wf [OF sha] by simp
    have path: "blob_path (wr_root wr) d = blob_file root (hex d)" using wf root by (simp add: blob_path_wf)
    have staged1: "lookup w1 (wr_staging wr) = Some (File (wr_hasher wr))" using y(3) staged by (auto simp: frame_def)
    have fp: "frame (\<lambda>q. q = wr_staging wr \<or> q = blob_file root (hex d)) w1 w'"
      using stepsD [OF commit_publish_frame p] by (simp add: path)
    have blobs1: "blobs_ok sha root w1" using blobs_ok_frame [OF blobs y(3)] by auto
    have "blobs_ok sha root w'"
    proof (rule blobs_ok_frame [OF blobs1 fp])
      fix h bs assume h: "blob_file root h = wr_staging wr \<or> blob_file root h = blob_file root (hex d)"
        and l: "lookup w' (blob_file root h) = Some (File bs)"
      from h nb [of h] have "h = hex d" by auto
      then have "bs = wr_hasher wr \<or> lookup w1 (blob_file root h) = Some (File bs)"
        using commit_publish_blob [OF p _ staged1, unfolded path] l nb by blast
      with blobs1 y(2) \<open>h = hex d\<close> show "sha bs = h" by (auto simp: blobs_ok_def sha256_def)
    qed
    moreover have here: "\<exists>c. lookup w' (blob_file root (hex d)) = Some (File c)" if "r = Inr z" for z
      using commit_publish_Inr [OF p [unfolded that] _ staged1] nb by (auto simp: path)
    moreover have "\<exists>c'. lookup w' (blob_file root h) = Some (File c')" if l: "lookup w (blob_file root h) = Some (File c)" for h c
    proof (cases r)
      case (Inl e)
      with p have "frame (\<lambda>q. False) w1 w'" using commit_publish_Inl by blast
      with y(3) l show ?thesis by (auto simp: frame_def)
    next
      case (Inr z)
      have "lookup w1 (blob_file root h) = Some (File c)" using y(3) l by (auto simp: frame_def)
      then show ?thesis using here [OF Inr] frame_file [OF fp, of "blob_file root h" c] nb [of h] by (cases "h = hex d") auto
    qed
    moreover have "outside (store_area root) w w'"
    proof (rule out.order_trans)
      show "outside (store_area root) w w1" by (rule outside_frame [OF y(3)]) simp
      show "outside (store_area root) w1 w'" by (rule outside_frame [OF fp]) (use area in auto)
    qed
    moreover have "os_seq w' = os_seq w" using y(3) fp by (simp add: frame_def)
    moreover have "z = d" if "r = Inr z" for z using commit_publish_Inr [OF p [unfolded that] _ staged1] nb by (auto simp: path)
    ultimately show ?thesis using y(2) by (auto simp: store_grows_def)
  qed
qed

text \<open>Opening a writer, and whatever touches only its staging file.\<close>

lemma open_writer_grows:
  assumes o: "open_writer sha \<lparr>st_root = root\<rparr> r w = (x, w')" and seq: "os_seq w \<noteq> - 1" and blobs: "blobs_ok sha root w"
  shows "outside (store_area root) w w' \<and> store_grows sha root 1 w w'"
proof -
  have same: "lookup w' (blob_file root h) = Some (File c) \<longleftrightarrow> lookup w (blob_file root h) = Some (File c)" for h c
    by (rule open_writer_files [OF o seq]) simp
  have "unat (os_seq w') \<le> unat (os_seq w) + 1"
    using o by (auto simp: open_writer_def Let_def prog_eq frame_def dest!: create_dir_all_frame create_file_frame)
      (metis (no_types) Suc_eq_plus1 order_refl seq unat_succ)+
  with same blobs outside_open_writer [OF o] show ?thesis by (auto simp: store_grows_def blobs_ok_def)
qed

lemma stage_grows:
  assumes ok: "writer_ok sha root w wr" and blobs: "blobs_ok sha root w" and fr: "frame (\<lambda>q. q = wr_staging wr) w v"
  shows "outside (store_area root) w v \<and> store_grows sha root 0 w v"
proof -
  have st: "is_stage sha root (unat (os_seq w)) (wr_staging wr)" using ok by (simp add: writer_ok_def)
  have "store_grows sha root 0 w v" by (rule store_grows_frame [OF blobs fr]) (use is_stage_neq_blob [OF st] in metis)
  moreover have "outside (store_area root) w v" by (rule outside_frame [OF fr]) (use st in \<open>auto simp: is_stage_def\<close>)
  ultimately show ?thesis by blast
qed

text \<open>An ingest from the open writer on: it gives up, leaving its staging file at most, or commits.\<close>

lemma ingest_ok:
  assumes sha: "sha_hex_ok sha" and seq: "os_seq w \<noteq> - 1" and blobs: "blobs_ok sha root w"
    and o: "open_writer sha \<lparr>st_root = root\<rparr> name w = (Inr wr, w1)"
    and run: "frame (\<lambda>q. q = wr_staging wr) w1 w' \<and> r \<notin> range Inr
      \<or> (\<exists>wr2 w2 z. frame (\<lambda>q. q = wr_staging wr) w1 w2 \<and> writer_ok sha root w2 wr2 \<and> commit sha wr2 sz d w2 = (z, w') \<and> r = map_err f z)"
  shows "outside (store_area root) w w' \<and> store_grows sha root 1 w w'
    \<and> (\<forall>x. r = Inr x \<longrightarrow> x = d \<and> (\<exists>c. lookup w' (blob_file root (hex d)) = Some (File c)))"
proof -
  note one = open_writer_grows [OF o seq blobs]
  have blobs1: "blobs_ok sha root w1" using one by (simp add: store_grows_def)
  have ok: "writer_ok sha root w1 wr" using open_writer_ok [OF o seq] by simp
  from run show ?thesis
  proof (elim disjE exE conjE)
    assume fr: "frame (\<lambda>q. q = wr_staging wr) w1 w'" and "r \<notin> range Inr"
    with stage_grows [OF ok blobs1 fr] one store_grows_trans [of sha root 1 w w1 0 w'] show ?thesis by (auto intro: out.order_trans)
  next
    fix wr2 w2 z
    assume fr: "frame (\<lambda>q. q = wr_staging wr) w1 w2" and ok2: "writer_ok sha root w2 wr2" and c: "commit sha wr2 sz d w2 = (z, w')"
      and r: "r = map_err f z"
    note two = stage_grows [OF ok blobs1 fr]
    have blobs2: "blobs_ok sha root w2" using two by (simp add: store_grows_def)
    note three = commit_ok [OF sha ok2 blobs2 c]
    have "store_grows sha root 1 w w'"
      using store_grows_trans [of sha root 1 w w1 0 w2] store_grows_trans [of sha root 1 w w2 0 w'] one two three by simp
    with one two three r show ?thesis by (cases z) (auto intro: out.order_trans)
  qed
qed

lemma fetch_layer_ok:
  assumes sha: "sha_hex_ok (pl_sha lib)" and seq: "os_seq w \<noteq> - 1" and blobs: "blobs_ok (pl_sha lib) root w"
    and run: "fetch_layer lib \<lparr>st_root = root\<rparr> reference ins parsed i desc d sz w = (r, w')"
  shows "outside (store_area root) w w' \<and> store_grows (pl_sha lib) root 1 w w'
    \<and> (\<forall>x. r = Inr x \<longrightarrow> x = d \<and> (\<exists>c. lookup w' (blob_file root (hex d)) = Some (File c)))"
proof -
  obtain x w1 where o: "open_writer (pl_sha lib) \<lparr>st_root = root\<rparr> (reference @ '':layer:'' @ dec i) w = (x, w1)" by fastforce
  show ?thesis
  proof (cases x)
    case (Inl e)
    with run o have "w' = w1" "r \<notin> range Inr" by (auto simp: fetch_layer_def prog_eq)
    with open_writer_grows [OF o seq blobs] show ?thesis by auto
  next
    case wr: (Inr wr)
    note o' = o [unfolded wr]
    have ok: "writer_ok (pl_sha lib) root w1 wr" using open_writer_ok [OF o' seq] by simp
    show ?thesis
    proof (rule ingest_ok [OF sha seq blobs o'])
      show "frame (\<lambda>q. q = wr_staging wr) w1 w' \<and> r \<notin> range Inr
        \<or> (\<exists>wr2 w2 z. frame (\<lambda>q. q = wr_staging wr) w1 w2 \<and> writer_ok (pl_sha lib) root w2 wr2
            \<and> commit (pl_sha lib) wr2 sz d w2 = (z, w') \<and> r = map_err PContent z)"
      proof (cases "pl_blob_stream lib ins parsed desc")
        case (Inl e)
        with run o wr show ?thesis by (auto simp: fetch_layer_def abandon_def prog_eq dest: stepsD [OF drop_writer_frame])
      next
        case (Inr items)
        obtain y w2 where s: "store_stream wr items w1 = (y, w2)" by fastforce
        with run o wr Inr store_stream_ok [OF ok s] show ?thesis by (cases y) (auto simp: fetch_layer_def prog_eq)
      qed
    qed
  qed
qed

lemma write_blob_ok:
  assumes sha: "sha_hex_ok sha" and seq: "os_seq w \<noteq> - 1" and blobs: "blobs_ok sha root w"
    and run: "write_blob sha \<lparr>st_root = root\<rparr> name bs d w = (r, w')"
  shows "outside (store_area root) w w' \<and> store_grows sha root 1 w w'
    \<and> (\<forall>x. r = Inr x \<longrightarrow> x = d \<and> (\<exists>c. lookup w' (blob_file root (hex d)) = Some (File c)))"
proof -
  obtain x w1 where o: "open_writer sha \<lparr>st_root = root\<rparr> name w = (x, w1)" by fastforce
  show ?thesis
  proof (cases x)
    case (Inl e)
    with run o have "w' = w1" "r \<notin> range Inr" by (auto simp: write_blob_def prog_eq)
    with open_writer_grows [OF o seq blobs] show ?thesis by auto
  next
    case wr: (Inr wr)
    note o' = o [unfolded wr]
    have ok: "writer_ok sha root w1 wr" using open_writer_ok [OF o' seq] by simp
    obtain y wr2 w2 where wa: "write_all wr bs w1 = (y, wr2, w2)" by (cases "write_all wr bs w1") auto
    note two = write_all_ok [OF ok wa]
    show ?thesis
    proof (rule ingest_ok [OF sha seq blobs o', where f = "\<lambda>e. e" and sz = "of_nat (length bs)"])
      show "frame (\<lambda>q. q = wr_staging wr) w1 w' \<and> r \<notin> range Inr
        \<or> (\<exists>wr2 w2 z. frame (\<lambda>q. q = wr_staging wr) w1 w2 \<and> writer_ok sha root w2 wr2
            \<and> commit sha wr2 (of_nat (length bs)) d w2 = (z, w') \<and> r = map_err (\<lambda>e. e) z)"
      proof (cases y)
        case (Inl e)
        with run o wr wa obtain z where "drop_writer wr2 w2 = (z, w')" "r \<notin> range Inr" by (auto simp: write_blob_def prog_eq)
        with two show ?thesis using stepsD [OF drop_writer_frame, of wr2 w2] by (metis frm.order_trans)
      next
        case (Inr u)
        have id: "map_err (\<lambda>e. e) z = z" for z :: "content_error + digest" by (cases z) simp_all
        from Inr run o wr wa two show ?thesis by (auto simp: write_blob_def prog_simps id)
      qed
    qed
  qed
qed

subsection \<open>One layer, verified and unpacked\<close>

definition verified_layer :: "('b, 'w) pull_lib \<Rightarrow> descriptor \<Rightarrow> digest \<Rightarrow> bytes \<Rightarrow> bool" where
  "verified_layer lib desc diff_id blob \<longleftrightarrow>
     digest_from_str (ds_digest desc) = Inr (sha256 (pl_sha lib) blob)
     \<and> (\<exists>tar. decompress (pl_inflate lib) (from_media_type (ds_media_type desc)) blob = Inr tar \<and> sha256 (pl_sha lib) tar = diff_id)"

text \<open>Unpacking an entry keeps to the directory it is given.\<close>

definition unpack_contained :: "('b, 'z os_scheme) pull_lib \<Rightarrow> bool" where
  "unpack_contained lib \<longleftrightarrow> (\<forall>target e. steps (frame (below target)) (pl_unpack lib target e))"

definition areas_apart :: "fpath \<Rightarrow> fpath \<Rightarrow> bool" where
  "areas_apart root sroot \<longleftrightarrow>
     \<not> below (sroot @ [''snapshots'']) (root @ [''blobs'']) \<and> \<not> below (root @ [''blobs'']) (sroot @ [''snapshots''])"

lemma compute_diff_id_Inr:
  "sha_hex_ok (pl_sha lib) \<Longrightarrow> compute_diff_id lib blob c = Inr d \<longleftrightarrow>
     (\<exists>tar. decompress (pl_inflate lib) c blob = Inr tar \<and> sha256 (pl_sha lib) tar = d)"
  using digest_parse_print [OF sha256_wf, of "pl_sha lib"]
  by (auto simp: compute_diff_id_def digest_to_string_def sha256_def rbind_def split: sum.splits)

lemma snapshot_fs_path: "wf_digest c \<Longrightarrow> snapshot_fs sroot c = sroot @ [''snapshots'', hex c, ''fs'']"
proof -
  assume "wf_digest c"
  then have wf: "wf_hex (hex c)" by (simp add: wf_digest_def)
  then have no: "CHR ''/'' \<notin> set (hex c)" "hex c \<noteq> []" "hex c \<noteq> ''.''" "hex c \<noteq> ''..''"
    using lower_hex_no_sep [of "hex c"] by (auto simp: wf_hex_def)
  then have "split_char (CHR ''/'') (hex c) = [hex c]" by (simp add: split_char_id)
  then have "components (hex c) = [Normal (hex c)]" "\<not> is_absolute (hex c)"
    using no by (cases "hex c"; auto simp: components_def starts_with_def is_absolute_def)+
  then show ?thesis by (simp add: snapshot_fs_def snapshot_base_def comp_names_def)
qed

lemma unpack_snapshot_frame:
  "unpack_contained lib \<Longrightarrow> steps (frame (below (snapshot_fs sroot chain))) (unpack_snapshot lib st sroot chain layer c)"
  unfolding unpack_snapshot_def read_blob_def Let_def unpack_contained_def
  by (auto intro!: frm.steps_rules read_dir_frame frame_calls apply_layer_frame)

text \<open>The files a pull may change: the store's, and those below the snapshot of a verified layer.\<close>

definition pull_area :: "('b, 'w) pull_lib \<Rightarrow> fpath \<Rightarrow> fpath \<Rightarrow> descriptor list \<Rightarrow> digest list \<Rightarrow> fpath \<Rightarrow> bool" where
  "pull_area lib root sroot layers diff_ids q \<longleftrightarrow>
     store_area root q
     \<or> (\<exists>i blob. i < length layers \<and> verified_layer lib (layers ! i) (diff_ids ! i) blob
          \<and> below (snapshot_fs sroot (chain_ids (pl_sha lib) diff_ids ! i)) q)"

lemma chain_ids_wf: "sha_hex_ok sha \<Longrightarrow> \<forall>d \<in> set ds. wf_digest d \<Longrightarrow> \<forall>c \<in> set (chain_ids sha ds). wf_digest c"
  by (induction ds rule: rev_induct) (auto simp: chain_ids_snoc chain_push_def sha256_wf)

lemma snapshot_not_blob:
  assumes "areas_apart root sroot" "wf_digest c"
  shows "\<not> below (snapshot_fs sroot c) (blob_file root h)"
proof
  assume b: "below (snapshot_fs sroot c) (blob_file root h)"
  then have "below (sroot @ [''snapshots'']) (blob_file root h)" using assms(2) by (auto simp: snapshot_fs_path below_iff)
  moreover have "below (root @ [''blobs'']) (blob_file root h)" by (simp add: blob_file_def below_iff)
  ultimately show False using below_prefix_cases assms(1) unfolding areas_apart_def by blast
qed

lemma read_blob_Inr:
  assumes "wf_digest d" "read_blob \<lparr>st_root = root\<rparr> d w = (Inr blob, w')"
  shows "lookup w (blob_file root (hex d)) = Some (File blob)"
  using assms by (auto simp: read_blob_def blob_path_wf read_file_def syscall_def fs_simps split: if_splits option.splits node.splits)

lemma read_blob_frame: "read_blob st d w = (r, w') \<Longrightarrow> frame P w w'"
  by (erule stepsD [rotated]) (auto simp: read_blob_def intro!: frm.steps_rules frame_calls)

text \<open>From the stored blob on: the diffID is checked before anything is unpacked.\<close>

lemma verify_unpack_ok:
  assumes sha: "sha_hex_ok (pl_sha lib)" and uc: "unpack_contained lib" and apart: "areas_apart root sroot"
    and chain: "wf_digest chain" and d: "digest_from_str (ds_digest desc) = Inr d" and blobs: "blobs_ok (pl_sha lib) root w"
    and run: "pbind (with_err PContent (read_blob \<lparr>st_root = root\<rparr> d)) (\<lambda>blob.
         pbind (plift (compute_diff_id lib blob (from_media_type (ds_media_type desc)))) (\<lambda>computed.
         pseq (pguard (computed = diff) (DiffIdMismatch i diff computed))
           (pseq (unpack_snapshot lib \<lparr>st_root = root\<rparr> sroot chain d (from_media_type (ds_media_type desc))) (pret x)))) w = (r, w')"
  shows "outside (\<lambda>q. (\<exists>blob. verified_layer lib desc diff blob) \<and> below (snapshot_fs sroot chain) q) w w' \<and> store_grows (pl_sha lib) root 0 w w'
    \<and> (\<forall>y. r = Inr y \<longrightarrow> y = x \<and> (\<exists>blob. verified_layer lib desc diff blob))"
proof -
  let ?c = "from_media_type (ds_media_type desc)" and ?P = "\<lambda>q. (\<exists>blob. verified_layer lib desc diff blob) \<and> below (snapshot_fs sroot chain) q"
  have wfd: "wf_digest d" using d by (rule digest_from_str_wf)
  obtain y w1 where rb: "read_blob \<lparr>st_root = root\<rparr> d w = (y, w1)" by fastforce
  have fr: "frame Q w w1" for Q using rb by (rule read_blob_frame)
  have one: "outside ?P w w1" "store_grows (pl_sha lib) root 0 w w1"
    using outside_frame [OF fr] store_grows_frame [OF blobs fr [of "\<lambda>_. False"]] by auto
  show ?thesis
  proof (cases "\<exists>blob. y = Inr blob \<and> compute_diff_id lib blob ?c = Inr diff")
    case False
    with run rb have "w' = w1" "r \<notin> range Inr" by (auto simp: prog_eq)
    with one show ?thesis by auto
  next
    case True
    then obtain blob where y: "y = Inr blob" and cd: "compute_diff_id lib blob ?c = Inr diff" by blast
    have "pl_sha lib blob = hex d" using read_blob_Inr [OF wfd rb [unfolded y]] blobs by (auto simp: blobs_ok_def)
    then have ver: "verified_layer lib desc diff blob"
      using d cd by (simp add: verified_layer_def compute_diff_id_Inr [OF sha] sha256_def)
    from run rb y cd obtain z where u: "unpack_snapshot lib \<lparr>st_root = root\<rparr> sroot chain d ?c w1 = (z, w')"
      and r: "\<forall>v. r = Inr v \<longrightarrow> v = x" by (auto simp: prog_eq)
    have fu: "frame (below (snapshot_fs sroot chain)) w1 w'" by (rule stepsD [OF unpack_snapshot_frame [OF uc] u])
    have "outside ?P w1 w'" by (rule outside_frame [OF fu]) (use ver in blast)
    moreover have "store_grows (pl_sha lib) root 0 w1 w'"
      by (rule store_grows_frame [OF _ fu]) (use one snapshot_not_blob [OF apart chain] in \<open>auto simp: store_grows_def\<close>)
    ultimately show ?thesis using one ver r store_grows_trans [of "pl_sha lib" root 0 w w1 0 w'] by (auto intro: out.order_trans)
  qed
qed

lemma pull_layer_ok:
  assumes sha: "sha_hex_ok (pl_sha lib)" and uc: "unpack_contained lib" and apart: "areas_apart root sroot"
    and wf: "\<forall>d \<in> set ds. wf_digest d" and len: "length ds = length layers" and i: "i < length layers"
    and seq: "os_seq w \<noteq> - 1" and blobs: "blobs_ok (pl_sha lib) root w"
    and run: "pull_layer lib \<lparr>st_root = root\<rparr> sroot reference ins parsed ds (tot, lds) (i, layers ! i) w = (r, w')"
  shows "outside (pull_area lib root sroot layers ds) w w' \<and> store_grows (pl_sha lib) root 1 w w'
    \<and> (\<forall>acc. r = Inr acc \<longrightarrow> (\<exists>d blob c. acc = (tot + ds_size (layers ! i), lds @ [d]) \<and> digest_from_str (ds_digest (layers ! i)) = Inr d
        \<and> verified_layer lib (layers ! i) (ds ! i) blob \<and> lookup w' (blob_file root (hex d)) = Some (File c)))"
proof -
  let ?sha = "pl_sha lib" and ?A = "pull_area lib root sroot layers ds"
  have wfc: "wf_digest (chain_ids ?sha ds ! i)" using chain_ids_wf [OF sha wf] i len by simp
  have keep: "outside ?A w w \<and> store_grows ?sha root 1 w w" using blobs by (auto simp: out.order_refl store_grows_def)
  show ?thesis
  proof (cases "\<exists>d. digest_from_str (ds_digest (layers ! i)) = Inr d \<and> 0 \<le> sint (ds_size (layers ! i))")
    case False
    with run have "w' = w" "r \<notin> range Inr" by (auto simp: pull_layer_def prog_eq Let_def)
    with keep show ?thesis by auto
  next
    case True
    then obtain d where d: "digest_from_str (ds_digest (layers ! i)) = Inr d" and size: "0 \<le> sint (ds_size (layers ! i))" by blast
    obtain x w1 where f: "fetch_layer lib \<lparr>st_root = root\<rparr> reference ins parsed i (layers ! i) d (ds_size (layers ! i)) w = (x, w1)" by fastforce
    note fl = fetch_layer_ok [OF sha seq blobs f]
    have out1: "outside ?A w w1" using fl by (auto intro: outside_mono simp: pull_area_def)
    show ?thesis
    proof (cases x)
      case (Inl e)
      with run d size f have "w' = w1" "r \<notin> range Inr" by (auto simp: pull_layer_def prog_eq Let_def)
      with out1 fl show ?thesis by auto
    next
      case (Inr l)
      with run d size f have rest: "pbind (with_err PContent (read_blob \<lparr>st_root = root\<rparr> d)) (\<lambda>blob.
         pbind (plift (compute_diff_id lib blob (from_media_type (ds_media_type (layers ! i))))) (\<lambda>computed.
         pseq (pguard (computed = ds ! i) (DiffIdMismatch i (ds ! i) computed))
           (pseq (unpack_snapshot lib \<lparr>st_root = root\<rparr> sroot (chain_ids ?sha ds ! i) d (from_media_type (ds_media_type (layers ! i))))
             (pret (tot + ds_size (layers ! i), lds @ [l]))))) w1 = (r, w')"
        by (simp add: pull_layer_def pbind_run pseq_run plift_run pguard_run Let_def)
      have blobs1: "blobs_ok ?sha root w1" using fl by (simp add: store_grows_def)
      note vu = verify_unpack_ok [OF sha uc apart wfc d blobs1 rest]
      have "outside ?A w1 w'" by (rule outside_mono [OF vu [THEN conjunct1]]) (use i in \<open>auto simp: pull_area_def\<close>)
      moreover have "\<exists>c. lookup w' (blob_file root (hex d)) = Some (File c)" using vu fl Inr by (auto simp: store_grows_def)
      ultimately show ?thesis
        using vu fl Inr out1 d store_grows_trans [of ?sha root 1 w w1 0 w'] by (auto intro: out.order_trans)
    qed
  qed
qed

subsection \<open>All layers\<close>

text \<open>What the layers taken so far amount to.\<close>

definition layers_done :: "('b, 'w) pull_lib \<Rightarrow> fpath \<Rightarrow> descriptor list \<Rightarrow> digest list \<Rightarrow> 'z os_scheme \<Rightarrow> digest list \<Rightarrow> bool" where
  "layers_done lib root layers ds w lds \<longleftrightarrow>
     (\<forall>i < length lds. digest_from_str (ds_digest (layers ! i)) = Inr (lds ! i) \<and> (\<exists>blob. verified_layer lib (layers ! i) (ds ! i) blob)
        \<and> (\<exists>c. lookup w (blob_file root (hex (lds ! i))) = Some (File c)))"

lemma layers_done_grow:
  "layers_done lib root layers ds w lds \<Longrightarrow> store_grows sha root n w w' \<Longrightarrow> layers_done lib root layers ds w' lds"
  unfolding layers_done_def store_grows_def by blast

lemma pull_layers_ok:
  assumes sha: "sha_hex_ok (pl_sha lib)" and uc: "unpack_contained lib" and apart: "areas_apart root sroot"
    and wf: "\<forall>d \<in> set ds. wf_digest d" and len: "length ds = length layers"
    and "unat (os_seq w) + length (drop (length lds) layers) < 2 ^ 64" "blobs_ok (pl_sha lib) root w" "layers_done lib root layers ds w lds"
    and "length lds \<le> length layers"
    and "pfold (pull_layer lib \<lparr>st_root = root\<rparr> sroot reference ins parsed ds) (tot, lds) (enumerate (length lds) (drop (length lds) layers)) w = (r, w')"
  shows "outside (pull_area lib root sroot layers ds) w w' \<and> store_grows (pl_sha lib) root (length (drop (length lds) layers)) w w'
    \<and> (\<forall>tot' lds'. r = Inr (tot', lds') \<longrightarrow> length lds' = length layers \<and> layers_done lib root layers ds w' lds'
         \<and> tot' = tot + sum_list (map ds_size (drop (length lds) layers)))"
  using assms(6-)
proof (induction "drop (length lds) layers" arbitrary: lds tot w)
  case Nil
  have "drop (length lds) layers = []" using Nil.hyps by simp
  with Nil.prems show ?case by (auto simp: prog_simps out.order_refl store_grows_def)
next
  case (Cons desc rest)
  let ?n = "length lds" and ?A = "pull_area lib root sroot layers ds"
  from Cons.hyps(2) have n: "?n < length layers" by (metis drop_all leI list.distinct(1))
  have desc: "desc = layers ! ?n" and rest: "rest = drop (Suc ?n) layers"
    using Cons.hyps(2) n by (simp_all add: Cons_nth_drop_Suc [symmetric])
  have seq: "os_seq w \<noteq> - 1"
  proof
    assume "os_seq w = - 1"
    then have "unat (os_seq w) = 2 ^ 64 - 1" by (simp add: unsigned_minus_1_eq_mask mask_eq_exp_minus_1)
    with Cons.prems(1) n show False by simp
  qed
  obtain x w1 where one: "pull_layer lib \<lparr>st_root = root\<rparr> sroot reference ins parsed ds (tot, lds) (?n, layers ! ?n) w = (x, w1)" by fastforce
  note pl = pull_layer_ok [OF sha uc apart wf len n seq Cons.prems(2) one]
  have run: "(case x of Inl e \<Rightarrow> (Inl e, w1) | Inr acc \<Rightarrow>
      pfold (pull_layer lib \<lparr>st_root = root\<rparr> sroot reference ins parsed ds) acc (enumerate (Suc ?n) rest) w1) = (r, w')"
    using Cons.prems(5) one by (simp add: Cons.hyps(2) [symmetric] desc pbind_run)
  show ?case
  proof (cases x)
    case (Inl e)
    with run pl n show ?thesis by (auto simp: store_grows_def)
  next
    case (Inr acc)
    with pl obtain d blob c where acc: "acc = (tot + ds_size desc, lds @ [d])" and d: "digest_from_str (ds_digest desc) = Inr d"
      "verified_layer lib desc (ds ! ?n) blob" "lookup w1 (blob_file root (hex d)) = Some (File c)" by (auto simp: desc)
    have done1: "layers_done lib root layers ds w1 (lds @ [d])"
      using layers_done_grow [OF Cons.prems(3)] pl d by (auto simp: layers_done_def nth_append desc less_Suc_eq)
    have blobs1: "blobs_ok (pl_sha lib) root w1" using pl by (simp add: store_grows_def)
    have room: "unat (os_seq w1) + length (drop (length (lds @ [d])) layers) < 2 ^ 64"
      using pl Cons.prems(1) n by (auto simp: store_grows_def)
    have "outside ?A w1 w' \<and> store_grows (pl_sha lib) root (length (drop (length (lds @ [d])) layers)) w1 w'
      \<and> (\<forall>tot' lds'. r = Inr (tot', lds') \<longrightarrow> length lds' = length layers \<and> layers_done lib root layers ds w' lds'
         \<and> tot' = tot + ds_size desc + sum_list (map ds_size (drop (length (lds @ [d])) layers)))"
      by (rule Cons.hyps(1)) (use rest room blobs1 done1 n run Inr acc in simp_all)
    moreover have "length (drop ?n layers) = 1 + length (drop (length (lds @ [d])) layers)" using n by simp
    moreover have "sum_list (map ds_size (drop ?n layers)) = ds_size desc + sum_list (map ds_size (drop (length (lds @ [d])) layers))"
      using n by (simp add: Cons_nth_drop_Suc [symmetric] desc)
    ultimately show ?thesis using pl store_grows_trans [of "pl_sha lib" root 1 w w1] by (auto intro: out.order_trans)
  qed
qed

subsection \<open>The whole pull\<close>

text \<open>What the registry answered and the configuration says.\<close>

definition answers :: "('b, 'w) pull_lib \<Rightarrow> auth \<Rightarrow> descriptor list \<Rightarrow> string \<Rightarrow> string \<Rightarrow> digest list \<Rightarrow> string \<Rightarrow> bool" where
  "answers lib auth layers ms cs ds user \<longleftrightarrow>
     (\<exists>ins parsed cfg. pl_manifest lib ins parsed (to_registry_auth auth) = Inr (layers, ms, cs) \<and> pl_config_json lib (str_bytes cs) = Inr cfg
        \<and> parse_digests (icj_diff_ids cfg) = Inr ds \<and> icj_user cfg = user \<and> length ds = length layers)"

definition room :: "('b, 'w) pull_lib \<Rightarrow> auth \<Rightarrow> 'z os_scheme \<Rightarrow> bool" where
  "room lib auth w \<longleftrightarrow>
     (\<forall>ins parsed layers ms cs. pl_manifest lib ins parsed (to_registry_auth auth) = Inr (layers, ms, cs) \<longrightarrow> unat (os_seq w) + length layers + 1 < 2 ^ 64)"

definition pull_changes :: "('b, 'w) pull_lib \<Rightarrow> auth \<Rightarrow> fpath \<Rightarrow> fpath \<Rightarrow> fpath \<Rightarrow> bool" where
  "pull_changes lib auth root sroot q \<longleftrightarrow>
     store_area root q \<or> (\<exists>layers ms cs ds user. answers lib auth layers ms cs ds user \<and> pull_area lib root sroot layers ds q)"

lemma parse_digests_wf: "parse_digests ss = Inr ds \<Longrightarrow> \<forall>d \<in> set ds. wf_digest d"
proof
  fix d assume "parse_digests ss = Inr ds" and "d \<in> set ds"
  then have "Inr d \<in> set (map (\<lambda>s. map_err PDigest (digest_from_str s)) ss)" by (auto simp: parse_digests_def collect_results_Inr)
  then obtain s where "map_err PDigest (digest_from_str s) = Inr d" by (metis (no_types, lifting) imageE list.set_map)
  then have "digest_from_str s = Inr d" by simp
  then show "wf_digest d" by (rule digest_from_str_wf)
qed

lemma insecure_frame: "steps (frame P) (insecure_registries_for toml reference cp)"
proof -
  have "steps (frame P) (any_uses_http toml root ns)" for root ns
    by (induction ns) (auto simp: read_to_string_def intro!: frm.steps_rules frame_calls split: sum.splits option.splits)
  then show ?thesis
    unfolding insecure_registries_for_def hosts_toml_uses_http_def by (auto intro!: frm.steps_rules split: option.splits)
qed

lemma insecure_fine: "insecure_registries_for toml reference cp w \<noteq> (Inl e, w')"
proof -
  have "any_uses_http toml root ns w \<noteq> (Inl e, w')" for root ns w
    by (induction ns arbitrary: w) (auto simp: prog_eq split: sum.splits option.splits if_splits)
  then show ?thesis by (auto simp: insecure_registries_for_def hosts_toml_uses_http_def prog_eq split: option.splits)
qed

text \<open>No blob goes away.\<close>

definition blobs_kept :: "fpath \<Rightarrow> 'z os_scheme \<Rightarrow> 'z os_scheme \<Rightarrow> bool" where
  "blobs_kept root w w' \<longleftrightarrow> (\<forall>h. (\<exists>c. lookup w (blob_file root h) = Some (File c)) \<longrightarrow> (\<exists>c. lookup w' (blob_file root h) = Some (File c)))"

lemma blobs_kept_trans: "blobs_kept root u v \<Longrightarrow> blobs_kept root v w \<Longrightarrow> blobs_kept root u w"
  by (simp add: blobs_kept_def)

lemma store_grows_kept: "store_grows sha root n w w' \<Longrightarrow> blobs_kept root w w'"
  unfolding store_grows_def blobs_kept_def by blast

lemma pull_ok:
  assumes sha: "sha_hex_ok (pl_sha lib)" and uc: "unpack_contained lib" and apart: "areas_apart root sroot"
    and room: "room lib auth w" and blobs: "blobs_ok (pl_sha lib) root w"
    and run: "pull_with_options lib cp \<lparr>st_root = root\<rparr> sroot reference auth w = (r, w')"
  shows "outside (pull_changes lib auth root sroot) w w' \<and> blobs_kept root w w' \<and> blobs_ok (pl_sha lib) root w'
    \<and> (\<forall>p. r = Inr p \<longrightarrow> (\<exists>layers ms cs. answers lib auth layers ms cs (pi_diff_ids p) (pi_user p)
         \<and> pi_image_id p = sha256 (pl_sha lib) (str_bytes cs) \<and> (\<exists>c. lookup w' (blob_file root (hex (pi_image_id p))) = Some (File c))
         \<and> pi_chain_ids p = chain_ids (pl_sha lib) (pi_diff_ids p) \<and> length (pi_layer_digests p) = length layers
         \<and> layers_done lib root layers (pi_diff_ids p) w' (pi_layer_digests p)
         \<and> pi_size p = of_nat (length (str_bytes cs)) + sum_list (map ds_size layers)))"
proof -
  let ?sha = "pl_sha lib" and ?C = "pull_changes lib auth root sroot"
  have stop: ?thesis if "outside ?C w w'" "blobs_kept root w w'" "blobs_ok ?sha root w'" "r \<notin> range Inr" using that by auto
  show ?thesis
  proof (cases "pl_parse_ref lib reference")
    case (Inl e)
    with run have "w' = w" "r \<notin> range Inr" by (auto simp: pull_with_options_def prog_eq)
    with stop blobs show ?thesis by (auto simp: out.order_refl blobs_kept_def)
  next
    case parsed: (Inr parsed)
    obtain y w1 where i: "insecure_registries_for (pl_hosts_toml lib) reference cp w = (y :: pull_error + _, w1)" by fastforce
    then obtain ins where y: "y = Inr ins" by (cases y) (auto simp: insecure_fine)
    have fr1: "frame Q w w1" for Q by (rule stepsD [OF insecure_frame i])
    have out1: "outside ?C w w1" by (rule outside_frame [OF fr1 [of "\<lambda>_. False"]]) simp
    have blobs1: "blobs_ok ?sha root w1" by (rule blobs_ok_frame [OF blobs fr1 [of "\<lambda>_. False"]]) simp
    have seq1: "os_seq w1 = os_seq w" using fr1 [of "\<lambda>_. False"] by (simp add: frame_def)
    have kept1: "blobs_kept root w w1" using frame_file [OF fr1 [of "\<lambda>_. False"]] by (simp add: blobs_kept_def)
    let ?ins = "with_extra_insecure (pl_extra_insecure lib) ins"
    show ?thesis
    proof (cases "pl_manifest lib ?ins parsed (to_registry_auth auth)")
      case (Inl e)
      with run parsed i y have "w' = w1" "r \<notin> range Inr" by (auto simp: pull_with_options_def prog_eq Let_def)
      with stop out1 kept1 blobs1 show ?thesis by auto
    next
      case (Inr m)
      obtain layers ms cs where m: "m = (layers, ms, cs)" by (cases m)
      note man = Inr [unfolded m]
      let ?cfg = "str_bytes cs"
      have room1: "unat (os_seq w1) + length layers + 1 < 2 ^ 64" using room man seq1 unfolding room_def by metis
      have seqne: "os_seq w1 \<noteq> - 1" using room1 by (auto simp: unsigned_minus_1_eq_mask mask_eq_exp_minus_1)
      obtain z w2 where wb: "write_blob ?sha \<lparr>st_root = root\<rparr> (''config:'' @ reference) ?cfg (sha256 ?sha ?cfg) w1 = (z, w2)" by fastforce
      note wo = write_blob_ok [OF sha seqne blobs1 wb]
      have out2: "outside ?C w w2"
        by (rule out.order_trans [OF out1]) (use wo in \<open>auto intro: outside_mono simp: pull_changes_def\<close>)
      have blobs2: "blobs_ok ?sha root w2" using wo by (simp add: store_grows_def)
      have kept2: "blobs_kept root w w2" using kept1 wo by (auto intro: blobs_kept_trans store_grows_kept)
      note start = parsed i y man wb
      show ?thesis
      proof (cases "\<exists>cfg ds. z \<in> range Inr \<and> pl_config_json lib ?cfg = Inr cfg \<and> parse_digests (icj_diff_ids cfg) = Inr ds \<and> length ds = length layers")
        case False
        with run start have "w' = w2" "r \<notin> range Inr" by (auto simp: pull_with_options_def prog_eq Let_def)
        with stop out2 kept2 blobs2 show ?thesis by auto
      next
        case True
        then obtain cfg ds z' where z: "z = Inr z'" and cfg: "pl_config_json lib ?cfg = Inr cfg"
          and ds: "parse_digests (icj_diff_ids cfg) = Inr ds" and len: "length ds = length layers" by auto
        have ans: "answers lib auth layers ms cs ds (icj_user cfg)" using man cfg ds len unfolding answers_def by blast
        obtain v w3 where loop: "pfold (pull_layer lib \<lparr>st_root = root\<rparr> sroot reference ?ins parsed ds) (of_nat (length ?cfg), [])
            (enumerate 0 layers) w2 = (v, w3)" by fastforce
        have room2: "unat (os_seq w2) + length layers < 2 ^ 64" using wo room1 by (simp add: store_grows_def)
        have lo: "outside (pull_area lib root sroot layers ds) w2 w3 \<and> store_grows ?sha root (length layers) w2 w3
          \<and> (\<forall>tot' lds'. v = Inr (tot', lds') \<longrightarrow> length lds' = length layers \<and> layers_done lib root layers ds w3 lds'
               \<and> tot' = of_nat (length ?cfg) + sum_list (map ds_size layers))"
          using pull_layers_ok [OF sha uc apart parse_digests_wf [OF ds] len, of w2 "[]" reference ?ins parsed "of_nat (length ?cfg)" v w3]
            room2 blobs2 loop by (simp add: layers_done_def)
        have out3: "outside ?C w w3"
          by (rule out.order_trans [OF out2], rule outside_mono [OF lo [THEN conjunct1]]) (use ans in \<open>unfold pull_changes_def, blast\<close>)
        have blobs3: "blobs_ok ?sha root w3" using lo by (simp add: store_grows_def)
        have kept3: "blobs_kept root w w3" using kept2 lo by (auto intro: blobs_kept_trans store_grows_kept)
        have w': "w' = w3" using run start z cfg ds len loop
          by (auto simp: pull_with_options_def prog_eq Let_def split: if_splits)
        have "\<exists>tot lds. v = Inr (tot, lds) \<and> pi_image_id p = sha256 ?sha ?cfg \<and> pi_diff_ids p = ds \<and> pi_user p = icj_user cfg
            \<and> pi_chain_ids p = chain_ids ?sha ds \<and> pi_layer_digests p = lds \<and> pi_size p = tot" if "r = Inr p" for p
          using that run start z cfg ds len loop by (auto simp: pull_with_options_def prog_eq Let_def split: if_splits)
        moreover have "\<exists>c. lookup w3 (blob_file root (hex (sha256 ?sha ?cfg))) = Some (File c)"
          using wo z lo by (auto simp: store_grows_def)
        ultimately show ?thesis using out3 kept3 blobs3 w' lo ans by metis
      qed
    qed
  qed
qed

text \<open>C14. A pull that succeeds has verified everything. The image id is the digest of the
  configuration the registry sent, and the configuration is in the store; there are as many layers
  as diffIDs; the digest of every layer of the manifest is in the store, and bytes of that digest
  were decompressed to bytes whose digest is the layer's diffID; the chainIDs are those of the
  diffIDs, and the size is the sum of the sizes. Every blob of the store has its digest, whatever
  the registry sent and whichever calls failed.\<close>

theorem pull_verified:
  assumes "sha_hex_ok (pl_sha lib)" "unpack_contained lib" "areas_apart root sroot" "room lib auth w" "blobs_ok (pl_sha lib) root w"
    and "pull_with_options lib cp \<lparr>st_root = root\<rparr> sroot reference auth w = (r, w')"
  shows "blobs_ok (pl_sha lib) root w'
    \<and> (\<forall>p. r = Inr p \<longrightarrow> (\<exists>layers ms cs. answers lib auth layers ms cs (pi_diff_ids p) (pi_user p)
         \<and> pi_image_id p = sha256 (pl_sha lib) (str_bytes cs) \<and> (\<exists>c. lookup w' (blob_file root (hex (pi_image_id p))) = Some (File c))
         \<and> pi_chain_ids p = chain_ids (pl_sha lib) (pi_diff_ids p) \<and> length (pi_layer_digests p) = length layers
         \<and> layers_done lib root layers (pi_diff_ids p) w' (pi_layer_digests p)
         \<and> pi_size p = of_nat (length (str_bytes cs)) + sum_list (map ds_size layers)))"
  using pull_ok [OF assms] by blast


subsection \<open>A pull of one layer\<close>

definition sample_layer :: descriptor where
  "sample_layer = \<lparr>ds_digest = digest_to_string (sha256 sample_sha [3]), ds_size = 1, ds_media_type = ''tar''\<rparr>"

definition sample_registry :: "(bytes, os) pull_lib" where
  "sample_registry =
     \<lparr>pl_sha = sample_sha, pl_parse_ref = (\<lambda>r. Inr \<lparr>or_registry = [], or_repository = [], or_tag = None, or_digest = None\<rparr>),
      pl_manifest = (\<lambda>ins r a. Inr ([sample_layer], [], [CHR 0x02])), pl_blob_stream = (\<lambda>ins r d. Inr [Inr [3]]),
      pl_config_json = (\<lambda>bs. Inr \<lparr>icj_diff_ids = [digest_to_string (sha256 sample_sha [3])], icj_user = []\<rparr>), pl_hosts_toml = (\<lambda>t. None),
      pl_inflate = (\<lambda>c bs. Inr bs), pl_entries = (\<lambda>c bs. Inr [Inr \<lparr>te_path = ''f'', te_body = []\<rparr>]), pl_unpack = sample_unpack,
      pl_extra_insecure = None\<rparr>"

definition empty_os :: os where
  "empty_os = \<lparr>os_fs = [], os_sched = [], os_pid = 1, os_seq = 0\<rparr>"

definition layer_hex :: string where "layer_hex = hex (sha256 sample_sha [3])"
definition config_hex :: string where "config_hex = hex (sha256 sample_sha [2])"

lemma sample_digests:
  "sha256 sample_sha [3] = \<lparr>hex = layer_hex\<rparr>" "sha256 sample_sha [2] = \<lparr>hex = config_hex\<rparr>" "config_hex \<noteq> layer_hex"
  "snapshot_fs [''s''] \<lparr>hex = layer_hex\<rparr> = [''s'', ''snapshots'', layer_hex, ''fs'']"
  by (simp_all add: layer_hex_def config_hex_def) code_simp+

lemma sample_parse: "digest_from_str (digest_to_string \<lparr>hex = layer_hex\<rparr>) = Inr \<lparr>hex = layer_hex\<rparr>"
  using digest_parse_print [OF sha256_wf [OF sample_sha_ok], of "[3]"] by (simp add: sample_digests)

lemma sample_blob_path:
  "blob_path root \<lparr>hex = layer_hex\<rparr> = root @ [''blobs'', ''sha256'', layer_hex]"
  "blob_path root \<lparr>hex = config_hex\<rparr> = root @ [''blobs'', ''sha256'', config_hex]"
  using blob_path_wf [OF sha256_wf [OF sample_sha_ok], of root "[3]"] blob_path_wf [OF sha256_wf [OF sample_sha_ok], of root "[2]"]
  by (simp_all add: blob_file_def sample_digests)

lemmas run_defs = create_dir_all_def prog_simps Let_def ensure_dir_def syscall_def next_event_def lookup_def tick_def set_node_def
  create_file_def parent_ok_def write_all.simps writer_write_def write_at_def accepted_def splice_def commit_def commit_verify_def
  from_hasher_ok [OF sample_sha_ok] commit_publish_def sync_handle_def is_file_def rename_def del_node_def open_writer_def read_file_def
  read_dir_def read_blob_def dir_entries_def sample_blob_path

text \<open>The world after the configuration is stored and after the layer is.\<close>

definition store_files :: "(fpath \<times> node) list \<Rightarrow> u64 \<Rightarrow> os" where
  "store_files fs n =
     \<lparr>os_fs = [([''c''], Dir), ([''c'', ''ingest''], Dir), ([''c'', ''blobs''], Dir), ([''c'', ''blobs'', ''sha256''], Dir),
        ([''c'', ''blobs'', ''sha256'', config_hex], File [2])] @ fs, os_sched = [], os_pid = 1, os_seq = n\<rparr>"

lemma sample_config_stored:
  "write_blob sample_sha \<lparr>st_root = [''c'']\<rparr> ''config:img'' [2] \<lparr>hex = config_hex\<rparr> empty_os = (Inr \<lparr>hex = config_hex\<rparr>, store_files [] 1)"
  by (simp add: write_blob_def run_defs empty_os_def store_files_def sample_digests)

lemma sample_layer_stored:
  "fetch_layer sample_registry \<lparr>st_root = [''c'']\<rparr> ''img'' ins parsed 0 sample_layer \<lparr>hex = layer_hex\<rparr> 1 (store_files [] 1)
     = (Inr \<lparr>hex = layer_hex\<rparr>, store_files [([''c'', ''blobs'', ''sha256'', layer_hex], File [3])] 2)"
  using sample_digests(3) by (simp add: fetch_layer_def sample_registry_def store_files_def run_defs sample_digests(1,2))

lemma sample_layer_unpacked:
  "\<exists>w'. unpack_snapshot sample_registry \<lparr>st_root = [''c'']\<rparr> [''s''] \<lparr>hex = layer_hex\<rparr> \<lparr>hex = layer_hex\<rparr> NoCompression
      (store_files [([''c'', ''blobs'', ''sha256'', layer_hex], File [3])] 2) = (Inr (), w')
    \<and> lookup w' [''s'', ''snapshots'', layer_hex, ''fs'', ''f''] = Some (File [])"
proof -
  have "components ''f'' = [Normal ''f'']" "classify [Normal ''f''] = NoWhiteout" by code_simp+
  then show ?thesis using sample_digests(3)
    by (simp add: unpack_snapshot_def sample_registry_def store_files_def run_defs sample_digests(1,2,4) apply_layer_def apply_entry_def
        sample_unpack_def is_inner_def comp_names_def)
qed

lemma sample_pull_result:
  "\<exists>p w'. pull_with_options sample_registry None \<lparr>st_root = [''c'']\<rparr> [''s''] ''img'' Anonymous empty_os = (Inr p, w')
    \<and> lookup w' [''s'', ''snapshots'', layer_hex, ''fs'', ''f''] = Some (File [])"
proof -
  obtain w' where un: "unpack_snapshot sample_registry \<lparr>st_root = [''c'']\<rparr> [''s''] \<lparr>hex = layer_hex\<rparr> \<lparr>hex = layer_hex\<rparr> NoCompression
      (store_files [([''c'', ''blobs'', ''sha256'', layer_hex], File [3])] 2) = (Inr (), w')"
    and q: "lookup w' [''s'', ''snapshots'', layer_hex, ''fs'', ''f''] = Some (File [])" using sample_layer_unpacked by blast
  have lib: "pl_sha sample_registry = sample_sha" "pl_parse_ref sample_registry r = Inr \<lparr>or_registry = [], or_repository = [], or_tag = None, or_digest = None\<rparr>"
    "pl_manifest sample_registry ins ref a = Inr ([sample_layer], [], [CHR 0x02])"
    "pl_config_json sample_registry bs = Inr \<lparr>icj_diff_ids = [digest_to_string \<lparr>hex = layer_hex\<rparr>], icj_user = []\<rparr>"
    "pl_inflate sample_registry c bs = Inr bs" for r ins ref a bs c
    by (simp_all add: sample_registry_def sample_digests)
  have reg: "registry_from_reference ''img'' = None" by code_simp
  have desc: "ds_digest sample_layer = digest_to_string \<lparr>hex = layer_hex\<rparr>" "ds_size sample_layer = 1"
    "from_media_type (ds_media_type sample_layer) = NoCompression"
    by (simp_all add: sample_layer_def sample_digests from_media_type_def ends_with_def)
  have cfg: "str_bytes [CHR 0x02] = [2]" by code_simp
  have rb: "read_blob \<lparr>st_root = [''c'']\<rparr> \<lparr>hex = layer_hex\<rparr> (store_files [([''c'', ''blobs'', ''sha256'', layer_hex], File [3])] 2)
      = (Inr [3], store_files [([''c'', ''blobs'', ''sha256'', layer_hex], File [3])] 2)"
    using sample_digests(3) by (simp add: store_files_def run_defs)
  have cd: "compute_diff_id sample_registry [3] NoCompression = Inr \<lparr>hex = layer_hex\<rparr>"
    using sample_parse by (simp add: compute_diff_id_def decompress_def lib digest_to_string_def layer_hex_def sha256_def)
  have ch: "chain_ids sample_sha [\<lparr>hex = layer_hex\<rparr>] ! 0 = \<lparr>hex = layer_hex\<rparr>" by (simp add: chain_ids_def chain_push_def)
  have layer: "pull_layer sample_registry \<lparr>st_root = [''c'']\<rparr> [''s''] ''img'' ins parsed [\<lparr>hex = layer_hex\<rparr>] (tot, []) (0, sample_layer) (store_files [] 1)
      = (Inr (tot + 1, [\<lparr>hex = layer_hex\<rparr>]), w')" for ins parsed tot
    by (simp add: pull_layer_def prog_simps Let_def desc sample_parse sample_layer_stored rb cd lib ch [simplified] un)
  show ?thesis
    by (simp add: pull_with_options_def prog_simps Let_def lib insecure_registries_for_def reg cfg sample_digests sample_config_stored
        parse_digests_def sample_parse layer q)
qed

lemma sample_registry_ok:
  "sha_hex_ok (pl_sha sample_registry)" "unpack_contained sample_registry" "areas_apart [''c''] [''s'']" "room sample_registry Anonymous empty_os"
  "blobs_ok (pl_sha sample_registry) [''c''] empty_os"
  by (auto simp: sample_registry_def sample_sha_ok unpack_contained_def sample_unpack_frame areas_apart_def below_def room_def empty_os_def
      blobs_ok_def lookup_def)

theorem pull_verified_witness:
  "\<exists>p w'. pull_with_options sample_registry None \<lparr>st_root = [''c'']\<rparr> [''s''] ''img'' Anonymous empty_os = (Inr p, w')
    \<and> blobs_ok sample_sha [''c''] w' \<and> pi_chain_ids p = chain_ids sample_sha (pi_diff_ids p)"
proof -
  obtain p w' where run: "pull_with_options sample_registry None \<lparr>st_root = [''c'']\<rparr> [''s''] ''img'' Anonymous empty_os = (Inr p, w')"
    using sample_pull_result by blast
  have "pl_sha sample_registry = sample_sha" by (simp add: sample_registry_def)
  with pull_verified [OF sample_registry_ok run] run show ?thesis by auto
qed


end
