(* ===== verification/Cri_Image_Files.thy ===== *)
theory Cri_Image_Files
  imports Cri_Image_Service Pull_Properties
begin

section \<open>Every image has its files\<close>

text \<open>
  The composition of the pull, the records and the garbage collection over any sequence of
  \<open>PullImage\<close> and \<open>RemoveImage\<close>: the configuration and every layer of an image that has a record are
  in the content store, with the bytes of their digests. Calls may fail at any point.
\<close>

definition image_present :: "('d, 't, 'sec, 'b) cri_ctx \<Rightarrow> 'd cri_os \<Rightarrow> image_record \<Rightarrow> bool" where
  "image_present cx w r \<longleftrightarrow>
     canonical_image r
     \<and> (\<forall>d. digest_to_string d \<in> set (referenced_blobs r) \<longrightarrow> (\<exists>c. lookup w (blob_path (st_root (cx_content cx)) d) = Some (File c)))"

definition images_complete :: "(bytes \<Rightarrow> string) \<Rightarrow> ('d, 't, 'sec, 'b) cri_ctx \<Rightarrow> 'd cri_os \<Rightarrow> bool" where
  "images_complete sha cx w \<longleftrightarrow>
     blobs_ok sha (st_root (cx_content cx)) w
     \<and> (\<forall>j r. image_in cx j (cr_db w) = Inr (Some r) \<longrightarrow> image_present cx w r)"

text \<open>Other tasks leave the image records alone.\<close>

definition images_calm :: "('d, 't, 'sec, 'b) cri_ctx \<Rightarrow> ('d \<Rightarrow> 'd) list \<Rightarrow> bool" where
  "images_calm cx fs \<longleftrightarrow> list_all (\<lambda>f. \<forall>d. same_images cx d (f d)) fs"

lemma present_text:
  assumes "image_present cx w r" "digest_to_string d \<in> set (referenced_blobs r)"
  shows "wf_digest d"
  using assms by (auto simp: image_present_def canonical_image_def list_all_iff digest_text_iff)

lemma present_kept:
  assumes "image_present cx w r" "blobs_kept (st_root (cx_content cx)) w w'"
  shows "image_present cx w' r"
  using assms present_text [OF assms(1)] by (auto simp: image_present_def blobs_kept_def blob_path_wf)

lemma complete_kept:
  assumes "images_complete sha cx w" "blobs_kept (st_root (cx_content cx)) w w'" "blobs_ok sha (st_root (cx_content cx)) w'"
    and "same_images cx (cr_db w) (cr_db w')"
  shows "images_complete sha cx w'"
  using assms by (auto simp: images_complete_def same_images_def intro: present_kept)

subsection \<open>PullImage\<close>

lemma resolve_auth_frame: "steps (frame P) (resolve_auth de reference a)"
proof -
  have "steps (frame P) (first_config de ps)" for ps
    by (induction ps) (auto intro!: frm.steps_rules frame_calls split: sum.splits option.splits)
  then show ?thesis unfolding resolve_auth_def load_default_def by (auto intro!: frm.steps_rules)
qed

lemma pull_image_cases:
  assumes run: "pull_image cx lib de cp im au w = (r, w')"
  obtains (refused) "w' = w"
  | (auth) reference a e where "(resolve_auth de reference a (awaited w) :: (rpc_status + _) \<times> _) = (Inl e, w')"
  | (ends) reference a a' w0 x w1 where "(resolve_auth de reference a (awaited w) :: (rpc_status + _) \<times> _) = (Inr a', w0)"
      "pull_with_options lib cp (cx_content cx) (cx_snapshots_root cx) reference a' w0 = (x, w1)" "w' = w1"
  | (puts) reference a a' w0 p w1 old y where "(resolve_auth de reference a (awaited w) :: (rpc_status + _) \<times> _) = (Inr a', w0)"
      "pull_with_options lib cp (cx_content cx) (cx_snapshots_root cx) reference a' w0 = (Inr p, w1)"
      "image_in cx (digest_to_string (pi_image_id p)) (cr_db w1) = Inr old"
      "put_image cx (digest_to_string (pi_image_id p)) (merged_image_record reference p old) w1 = (y, w')"
proof (cases "im = None \<or> im = Some []")
  case True
  with run refused show thesis by (auto simp: pull_image_def prog_simps)
next
  case False
  then obtain reference where im: "im = Some reference" "reference \<noteq> []" by auto
  let ?a = "case au of None \<Rightarrow> Anonymous | Some a \<Rightarrow> auth_from_config (de_base64 de) a"
  obtain z w0 where z: "(resolve_auth de reference ?a (awaited w) :: (rpc_status + _) \<times> _) = (z, w0)" by fastforce
  show thesis
  proof (cases z)
    case (Inl e)
    with run im z auth show thesis by (auto simp: pull_image_def pseq_run pbind_run await_run)
  next
    case (Inr a')
    obtain x w1 where x: "pull_with_options lib cp (cx_content cx) (cx_snapshots_root cx) reference a' w0 = (x, w1)" by fastforce
    show thesis
    proof (cases x)
      case (Inl e)
      with run im z Inr x ends show thesis by (auto simp: pull_image_def pseq_run pbind_run await_run with_err_run)
    next
      case p: (Inr p)
      let ?i = "digest_to_string (pi_image_id p)"
      show thesis
      proof (cases "image_in cx ?i (cr_db w1)")
        case (Inl e)
        with run im z Inr x p ends show thesis
          by (auto simp: pull_image_def Let_def pseq_run pbind_run await_run with_err_run internal_run get_run)
      next
        case old: (Inr old)
        obtain y w2 where y: "put_image cx ?i (merged_image_record reference p old) w1 = (y, w2)" by fastforce
        have "w' = w2"
          using run im z Inr x p old y
          by (cases y) (auto simp: pull_image_def Let_def pseq_run pbind_run await_run with_err_run internal_run get_run pret_run)
        with z Inr x p old y puts show thesis by blast
      qed
    qed
  qed
qed


text \<open>What a pull needs of the registry's library and of the counter of staging files.\<close>

definition pull_fits :: "(bytes \<Rightarrow> string) \<Rightarrow> ('b, 'd cri_os) pull_lib \<Rightarrow> 'd cri_os \<Rightarrow> bool" where
  "pull_fits sha lib w \<longleftrightarrow> pl_sha lib = sha \<and> unpack_contained lib \<and> unpack_aside lib \<and> (\<forall>a. room lib a w)"

lemma merged_references:
  "referenced_blobs (merged_image_record reference p old) = referenced_blobs (unwrap_or (fresh_image_record reference p) old)"
  "canonical_image (merged_image_record reference p old) = canonical_image (unwrap_or (fresh_image_record reference p) old)"
  by (simp_all add: merged_image_record_def referenced_blobs_def canonical_image_def Let_def)

lemma pulled_present:
  assumes sha: "sha_hex_ok (pl_sha lib)" and ans: "answers lib a layers ms cs (pi_diff_ids p) user"
    and i: "pi_image_id p = sha256 (pl_sha lib) (str_bytes cs)" "lookup w (blob_file (st_root (cx_content cx)) (hex (pi_image_id p))) = Some (File c)"
    and ch: "pi_chain_ids p = chain_ids (pl_sha lib) (pi_diff_ids p)"
    and done': "layers_done lib (st_root (cx_content cx)) layers (pi_diff_ids p) w (pi_layer_digests p)"
  shows "image_present cx w (fresh_image_record reference p)"
proof -
  have blob: "wf_digest d \<and> (\<exists>c. lookup w (blob_file (st_root (cx_content cx)) (hex d)) = Some (File c))"
    if "d \<in> set (pi_layer_digests p)" for d
    using that done' digest_from_str_wf by (fastforce simp: layers_done_def in_set_conv_nth)
  have wfi: "wf_digest (pi_image_id p)" using i sha by (simp add: sha256_wf)
  have "\<forall>d \<in> set (pi_diff_ids p). wf_digest d" using ans parse_digests_wf by (auto simp: answers_def)
  then have "\<forall>d \<in> set (pi_chain_ids p). wf_digest d" unfolding ch by (rule chain_ids_wf [OF sha])
  with blob wfi i(2) show ?thesis
    by (auto simp: image_present_def canonical_image_def referenced_blobs_def fresh_image_record_def list_all_iff digest_text_iff blob_path_wf)
qed

lemma pull_image_complete:
  assumes ok: "ctx_ok cx" and sha: "sha_hex_ok sha" and apart: "roots_apart cx" and fits: "pull_fits sha lib w"
    and calm: "images_calm cx (cr_env w)" and comp: "images_complete sha cx w" and run: "pull_image cx lib de cp im au w = (r, w')"
  shows "images_complete sha cx w'"
proof -
  obtain root where root: "cx_content cx = \<lparr>st_root = root\<rparr>" by (cases "cx_content cx") simp
  have lib: "pl_sha lib = sha" "unpack_contained lib" "unpack_aside lib" using fits by (simp_all add: pull_fits_def)
  have areas: "areas_apart root (cx_snapshots_root cx)" using apart by (simp add: roots_apart_def areas_apart_def root)
  have aw: "os_fs (awaited w) = os_fs w" "os_seq (awaited w) = os_seq w" "same_images cx (cr_db w) (cr_db (awaited w))"
    using calm by (auto simp: awaited_def images_calm_def same_images_def split: list.splits)
  have comp1: "images_complete sha cx w0 \<and> os_seq w0 = os_seq w"
    if "(resolve_auth de reference a (awaited w) :: (rpc_status + _) \<times> _) = (z, w0)" for reference a z w0
  proof -
    have fr: "frame (\<lambda>_. False) (awaited w) w0" by (rule stepsD [OF resolve_auth_frame that])
    then have files: "lookup w0 q = Some (File bs) \<longleftrightarrow> lookup w q = Some (File bs)" for q bs
      using frame_file [OF fr] aw(1) by (simp add: lookup_def)
    have "cr_db w0 = cr_db (awaited w)" by (rule aside_db, rule stepsD [OF aside_resolve_auth that])
    moreover have "blobs_ok sha root w0" using comp files by (simp add: images_complete_def blobs_ok_def root)
    ultimately show ?thesis
      using comp aw fr files by (auto intro!: complete_kept [OF comp] simp: blobs_kept_def frame_def root)
  qed
  have pulled: "images_complete sha cx w1 \<and> (\<forall>p. x = Inr p \<longrightarrow> image_present cx w1 (fresh_image_record reference p))"
    if auth: "(resolve_auth de reference a (awaited w) :: (rpc_status + _) \<times> _) = (Inr a', w0)"
      and pull: "pull_with_options lib cp (cx_content cx) (cx_snapshots_root cx) reference a' w0 = (x, w1)" for reference a a' w0 x w1
  proof -
    note c0 = comp1 [OF auth]
    have room: "room lib a' w0" using fits c0 by (simp add: pull_fits_def room_def)
    have blobs: "blobs_ok (pl_sha lib) root w0" using c0 by (simp add: images_complete_def lib root)
    note pk = pull_ok [OF _ lib(2) areas room blobs pull [unfolded root], unfolded lib(1), OF sha]
    have same: "same_images cx (cr_db w0) (cr_db w1)"
      using stepsD [OF aside_pull [OF lib(3)] pull] by (simp add: aside_def same_images_def)
    have st: "st_root (cx_content cx) = root" by (simp add: root)
    have "images_complete sha cx w1"
      by (rule complete_kept [OF conjunct1 [OF c0] _ _ same]) (use pk in \<open>unfold st, blast+\<close>)
    moreover have "image_present cx w1 (fresh_image_record reference p)" if "x = Inr p" for p
    proof -
      from pk that obtain layers ms cs c where "answers lib a' layers ms cs (pi_diff_ids p) (pi_user p)"
        "pi_image_id p = sha256 (pl_sha lib) (str_bytes cs)" "lookup w1 (blob_file root (hex (pi_image_id p))) = Some (File c)"
        "pi_chain_ids p = chain_ids (pl_sha lib) (pi_diff_ids p)" "layers_done lib root layers (pi_diff_ids p) w1 (pi_layer_digests p)"
        unfolding lib(1) by blast
      then show ?thesis using sha unfolding lib(1) [symmetric] st [symmetric] by (intro pulled_present)
    qed
    ultimately show ?thesis by blast
  qed
  from run show ?thesis
  proof (cases rule: pull_image_cases)
    case refused
    with comp show ?thesis by simp
  next
    case (auth reference a e)
    with comp1 show ?thesis by blast
  next
    case (ends reference a a' w0 x w1)
    with pulled show ?thesis by blast
  next
    case (puts reference a a' w0 p w1 old y)
    note pl = pulled [OF puts(1,2)]
    have "image_present cx w1 (unwrap_or (fresh_image_record reference p) old)"
      using pl puts(3) by (cases old) (auto simp: images_complete_def)
    then have new: "image_present cx w1 (merged_image_record reference p old)"
      by (simp add: image_present_def merged_references)
    from ok puts(4) show ?thesis
    proof (cases rule: put_image_cases)
      case (puts d)
      then show ?thesis using pl new
        by (auto simp: images_complete_def image_present_def blobs_ok_def lookup_def split: if_splits)
    qed (use pl in simp)
  qed
qed


subsection \<open>RemoveImage\<close>

lemma find_image_same: "snd (svc_find_image cx key w) = w"
  by (auto simp: svc_find_image_def prog_simps list_image_records_def split: sum.splits option.splits)

lemma reclaim_only_removes: "steps only_removes (reclaim st sr rec live)"
  unfolding reclaim_def Let_def by (auto intro!: rem.steps_rules only_removes_reclaim)

lemma remove_image_cases:
  assumes ok: "ctx_ok cx" and run: "remove_image cx im w = (r, w')"
  obtains (same) "w' = w"
  | (listing) rec :: image_record and b where "delete_record cx Image (im_image_id rec) w = (Inr b, w')"
  | (reclaimed) rec where "svc_find_image cx (unwrap_or [] im) w = (Inr (Some rec), w)" "r = Inr ()"
proof (cases "fst (svc_find_image cx (unwrap_or [] im) w)")
  case (Inl e)
  then have "svc_find_image cx (unwrap_or [] im) w = (Inl e, w)" using find_image_same by (metis prod.collapse)
  with run same show thesis by (simp add: remove_image_def prog_simps)
next
  case (Inr found)
  then have find: "svc_find_image cx (unwrap_or [] im) w = (Inr found, w)" using find_image_same by (metis prod.collapse)
  show thesis
  proof (cases found)
    case None
    with run find same show thesis by (simp add: remove_image_def prog_simps)
  next
    case (Some rec)
    obtain x w1 where del: "delete_record cx Image (im_image_id rec) w = (x, w1)" by fastforce
    show thesis
    proof (cases x)
      case (Inl e)
      with ok del have "w1 = w" by (cases rule: delete_record_cases) auto
      with run find Some del Inl same show thesis by (simp add: remove_image_def prog_simps)
    next
      case (Inr b)
      obtain live where ls: "list_image_records cx w1 = (live, w1)" by (simp add: list_image_records_def)
      show thesis
      proof (cases live)
        case (Inl e)
        with run find Some del Inr ls have "w' = w1" by (simp add: remove_image_def prog_simps)
        with del Inr listing show thesis by blast
      next
        case l: (Inr rs)
        obtain y u where "reclaim (cx_content cx) (cx_snapshots_root cx) rec rs w1 = (Inr y, u)" using reclaim_fine by blast
        with run find Some del Inr ls l have "r = Inr ()" by (simp add: remove_image_def prog_simps)
        with find Some reclaimed show thesis by blast
      qed
    qed
  qed
qed

lemma remove_image_shrinks:
  assumes "remove_image cx im w = (r, w')"
  shows "lookup w' q = Some (File bs) \<Longrightarrow> lookup w q = Some (File bs)"
proof -
  have "steps only_removes (get_image cx i)" "steps only_removes (list_image_records cx)" "steps only_removes (delete_record cx k i)" for i k
    by (auto simp: steps_def only_removes_def lookup_def get_image_def list_image_records_def delete_record_def db_step_def split: sum.splits prod.splits)
  then have "steps only_removes (remove_image cx im)"
    unfolding remove_image_def svc_find_image_def internal_def
    by (auto intro!: rem.steps_rules reclaim_only_removes split: option.splits)
  from stepsD [OF this assms] show "lookup w' q = Some (File bs) \<Longrightarrow> lookup w q = Some (File bs)" by (auto simp: only_removes_def)
qed

lemma remove_image_complete:
  assumes ok: "ctx_ok cx" and apart: "roots_apart cx" and comp: "images_complete sha cx w" and run: "remove_image cx im w = (r, w')"
  shows "images_complete sha cx w'"
proof -
  let ?root = "st_root (cx_content cx)"
  have blobs: "blobs_ok sha ?root w'"
    using comp remove_image_shrinks [OF run] by (auto simp: images_complete_def blobs_ok_def)
  have "image_present cx w' rc" if rc: "image_in cx j (cr_db w') = Inr (Some rc)" for j rc
    using ok run
  proof (cases rule: remove_image_cases)
    case same
    with comp rc show ?thesis by (auto simp: images_complete_def)
  next
    case (listing rec b)
    with ok have "image_in cx j (cr_db w') = (if j = im_image_id rec then Inr None else image_in cx j (cr_db w))" "os_fs w' = os_fs w"
      by (cases rule: delete_record_cases; auto)+
    with comp rc show ?thesis by (auto simp: images_complete_def image_present_def lookup_def split: if_splits)
  next
    case (reclaimed rec)
    have canon: "\<forall>j r. image_in cx j (cr_db w) = Inr (Some r) \<longrightarrow> canonical_image r"
      using comp by (auto simp: images_complete_def image_present_def)
    have run': "remove_image cx (Some (unwrap_or [] im)) w = (Inr (), w')"
      using run reclaimed(2) by (simp add: remove_image_def)
    note fr = remove_image_frame [OF ok canon apart reclaimed(1) run']
    with rc have old: "image_in cx j (cr_db w) = Inr (Some rc)" by (auto split: if_splits)
    then have "image_present cx w rc" using comp by (auto simp: images_complete_def)
    moreover have "(lookup w' (blob_path ?root d) = Some (File bs)) = (lookup w (blob_path ?root d) = Some (File bs))"
      if "digest_to_string d \<in> set (referenced_blobs rc)" for d bs
      using fr rc that unfolding image_file_def by blast
    ultimately show ?thesis by (simp add: image_present_def)
  qed
  with blobs show ?thesis by (simp add: images_complete_def)
qed


subsection \<open>Histories\<close>

inductive image_step :: "(bytes \<Rightarrow> string) \<Rightarrow> ('d, 't, 'sec, 'b) cri_ctx \<Rightarrow> 'd cri_os \<Rightarrow> 'd cri_os \<Rightarrow> bool" for sha cx where
  is_pull: "pull_fits sha (lib :: ('b, 'd cri_os) pull_lib) w \<Longrightarrow> pull_image cx lib de cp im au w = (r, w') \<Longrightarrow> image_step sha cx w w'"
| is_remove: "remove_image cx im w = (r', w') \<Longrightarrow> image_step sha cx w w'"

definition calm_kept :: "('d, 't, 'sec, 'b) cri_ctx \<Rightarrow> 'd cri_os \<Rightarrow> 'd cri_os \<Rightarrow> bool" where
  "calm_kept cx w w' \<longleftrightarrow> (images_calm cx (cr_env w) \<longrightarrow> images_calm cx (cr_env w'))"

interpretation clk: step_order "calm_kept cx" for cx
  by unfold_locales (simp_all add: calm_kept_def)

lemma calm_kept_records: "steps records_kept m \<Longrightarrow> steps (calm_kept cx) m"
  by (erule steps_weaken) (simp add: records_kept_def calm_kept_def)

lemma image_step_calm:
  assumes "image_step sha cx w w'"
  shows "calm_kept cx w w'"
proof -
  have aw: "steps (calm_kept cx) await"
    by (auto simp: steps_def await_def prog_simps calm_kept_def images_calm_def split: list.splits)
  have puts: "steps (calm_kept cx) (put_image cx i rc)" "steps (calm_kept cx) (delete_record cx k i)" for i rc k
    by (auto simp: steps_def put_image_def delete_record_def db_step_def calm_kept_def split: sum.splits prod.splits)
  note rules = clk.steps_rules aw puts records_kept_calls [THEN calm_kept_records] aside_resolve_auth [THEN aside_records, THEN calm_kept_records]
    aside_blobs [THEN aside_records, THEN calm_kept_records]
  from assms show ?thesis
  proof cases
    case (is_pull lib de cp im au r)
    then have pa: "unpack_aside lib" by (simp add: pull_fits_def)
    have "steps (calm_kept cx) (pull_image cx lib de cp im au)"
      unfolding pull_image_def Let_def internal_def
      by (auto intro!: rules aside_pull [OF pa, THEN aside_records, THEN calm_kept_records] split: option.splits)
    then show ?thesis using is_pull(2) by (rule stepsD)
  next
    case (is_remove im r')
    have "steps (calm_kept cx) (remove_image cx im)"
      unfolding remove_image_def svc_find_image_def internal_def by (auto intro!: rules split: option.splits)
    then show ?thesis using is_remove by (rule stepsD)
  qed
qed

definition image_store_ok :: "(bytes \<Rightarrow> string) \<Rightarrow> ('d, 't, 'sec, 'b) cri_ctx \<Rightarrow> 'd cri_os \<Rightarrow> bool" where
  "image_store_ok sha cx w \<longleftrightarrow>
     ctx_ok cx \<and> sha_hex_ok sha \<and> roots_apart cx \<and> images_calm cx (cr_env w) \<and> images_complete sha cx w"

interpretation ims: invariant_system "image_store_ok sha cx" "image_step sha cx" "image_store_ok sha cx" for sha cx
proof
  fix w w' assume w: "image_store_ok sha cx w" and step: "image_step sha cx w w'"
  then have ok: "ctx_ok cx" "sha_hex_ok sha" "roots_apart cx" "images_calm cx (cr_env w)" "images_complete sha cx w"
    by (simp_all add: image_store_ok_def)
  have "images_complete sha cx w'"
    using step by cases (auto intro: pull_image_complete [OF ok(1-3) _ ok(4,5)] remove_image_complete [OF ok(1,3,5)])
  with ok image_step_calm [OF step] show "image_store_ok sha cx w'" by (simp add: image_store_ok_def calm_kept_def)
qed


text \<open>The pull of an image into an empty store.\<close>

definition sample_fresh :: "mem_db cri_os" where
  "sample_fresh = sample_world (sample_db [] [] []) [] []"

lemma sample_fresh_pull:
  "fst (pull_with_options sample_pull_lib None \<lparr>st_root = [''content'']\<rparr> [''snap''] sample_tag Anonymous sample_fresh) = Inr sample_pulled"
  by code_simp

lemma sample_fresh_pulled:
  obtains w' where "pull_image sample_pulls sample_pull_lib sample_docker_env None (Some sample_tag) None sample_fresh = (Inr (image_key 2), w')"
    and "cr_db w' = sample_db [] [] [(''k8s.io/'' @ image_key 2, [1])]"
proof -
  have aw: "awaited sample_fresh = sample_fresh" and db: "cr_db sample_fresh = sample_db [] [] []"
    by (simp_all add: awaited_def sample_fresh_def sample_world_def)
  have auth: "resolve_auth sample_docker_env sample_tag Anonymous sample_fresh = (Inr Anonymous, sample_fresh)"
    by (simp add: resolve_auth_def load_default_def config_paths_def sample_docker_env_def prog_simps read_file_def syscall_def
        next_event_def lookup_def tick_def sample_fresh_def sample_world_def)
  have cx: "cx_content sample_pulls = \<lparr>st_root = [''content'']\<rparr>" "cx_snapshots_root sample_pulls = [''snap'']"
    by (simp_all add: sample_pulls_def sample_ctx_def)
  obtain w1 where pull: "pull_with_options sample_pull_lib None (cx_content sample_pulls) (cx_snapshots_root sample_pulls) sample_tag Anonymous sample_fresh
      = (Inr sample_pulled, w1)"
    using sample_fresh_pull by (cases "pull_with_options sample_pull_lib None (cx_content sample_pulls) (cx_snapshots_root sample_pulls) sample_tag Anonymous sample_fresh")
      (simp add: cx)
  have pa: "unpack_aside sample_pull_lib" by (simp add: unpack_aside_def sample_pull_lib_def asd.steps_pret)
  have db1: "cr_db w1 = sample_db [] [] []" using aside_db [OF stepsD [OF aside_pull [OF pa] pull]] db by simp
  have none: "image_in sample_pulls (image_key 2) (cr_db w1) = Inr None" by (simp add: db1 sample_pulls_reads)
  have pid: "digest_to_string (pi_image_id sample_pulled) = image_key 2" by (simp add: sample_pulled_def image_key_def)
  have ne: "sample_tag \<noteq> ''''" by (simp add: sample_tag_def)
  show thesis
    by (rule that [of "w1\<lparr>cr_db := sample_db [] [] [(''k8s.io/'' @ image_key 2, [1])]\<rparr>"])
      (use pull none in \<open>simp_all add: pull_image_def ne pseq_run pbind_run await_run aw auth with_err_run pid internal_run get_run sample_pulls_put
        pret_run Let_def db1, simp add: sample_db_def fun_eq_iff\<close>)
qed


end
