(* ===== verification/Cri_Logs.thy ===== *)
theory Cri_Logs
  imports Cri_World
begin

section \<open>Container logs\<close>

text \<open>
  The CRI log format of \<open>crates/cri/src/server.rs\<close> (\<open>cri_log_line\<close>) and the pump that copies one
  output stream of a container to its log and to the live listeners (\<open>pump_stream\<close>). The time
  stamp, which \<open>humantime\<close> formats, is an argument.
\<close>

definition newline :: u8 where "newline = 10"

definition log_entry :: "bytes \<Rightarrow> string \<Rightarrow> char \<Rightarrow> bytes \<Rightarrow> bytes" where
  "log_entry ts stream tag line =
     ts @ str_bytes '' '' @ str_bytes stream @ str_bytes '' '' @ str_bytes [tag] @ str_bytes '' '' @ line @ [newline]"

text \<open>The loop over the segments that end in a newline; empty full lines are skipped.\<close>

function cri_log_line :: "bytes \<Rightarrow> string \<Rightarrow> bytes \<Rightarrow> bytes" where
  "cri_log_line ts stream chunk =
     (if chunk = [] then []
      else case split_once newline chunk of
             Some (line, rest) \<Rightarrow>
               (if line = [] then [] else log_entry ts stream (CHR ''F'') line) @ cri_log_line ts stream rest
           | None \<Rightarrow> log_entry ts stream (CHR ''P'') chunk)"
  by pat_completeness auto
termination
  by (relation "measure (\<lambda>(ts, stream, chunk). length chunk)") (auto simp: split_once_Some)

declare cri_log_line.simps [simp del]

text \<open>One round of the pump: the time and the chunk read (an empty chunk stands for the end or an
  error of the stream), and how many bytes of a failing log write got through.\<close>

record pump_read =
  pr_time :: bytes
  pr_chunk :: bytes
  pr_cut :: "nat option"

record pump_out =
  po_log :: "bytes option"
  po_live :: "(u8 \<times> bytes) list"

definition pump_round :: "u8 \<Rightarrow> string \<Rightarrow> pump_out \<Rightarrow> pump_read \<Rightarrow> pump_out" where
  "pump_round channel stream_name out r =
     (let line = cri_log_line (pr_time r) stream_name (pr_chunk r);
          wrote = (case pr_cut r of None \<Rightarrow> line | Some n \<Rightarrow> take n line) in
      \<lparr>po_log = map_option (\<lambda>l. l @ wrote) (po_log out), po_live = po_live out @ [(channel, pr_chunk r)]\<rparr>)"

fun pump_stream :: "u8 \<Rightarrow> string \<Rightarrow> pump_read list \<Rightarrow> pump_out \<Rightarrow> pump_out" where
  "pump_stream channel stream_name [] out = out"
| "pump_stream channel stream_name (r # rs) out =
     (if pr_chunk r = [] then out else pump_stream channel stream_name rs (pump_round channel stream_name out r))"

subsection \<open>The lines of a chunk\<close>

text \<open>A chunk read as text: its complete lines and what follows the last newline.\<close>

definition full_lines :: "bytes \<Rightarrow> bytes list" where
  "full_lines chunk = butlast (split_char newline chunk)"

definition open_line :: "bytes \<Rightarrow> bytes" where
  "open_line chunk = last (split_char newline chunk)"

lemma split_char_once: "split_once c s = Some (a, b) \<Longrightarrow> split_char c s = a # split_char c b"
proof -
  assume "split_once c s = Some (a, b)"
  then have s: "s = a @ c # b" "c \<notin> set a" by (simp_all add: split_once_Some)
  have "split_char c (a @ c # b) = a # split_char c b" if "c \<notin> set a" for a
    using that by (induction a) auto
  with s show ?thesis by simp
qed

lemma log_line_cases:
  "split_once newline chunk = Some (l, rest) \<Longrightarrow>
     cri_log_line ts stream chunk = (if l = [] then [] else log_entry ts stream (CHR ''F'') l) @ cri_log_line ts stream rest"
  "split_once newline chunk = None \<Longrightarrow> chunk \<noteq> [] \<Longrightarrow> cri_log_line ts stream chunk = log_entry ts stream (CHR ''P'') chunk"
  "cri_log_line ts stream [] = []"
  by (subst cri_log_line.simps, force simp: split_once_Some)+

text \<open>The log lines of a chunk of output are one full entry for every non-empty complete line
  of the chunk, in order, and then one partial entry for what follows the last newline, when
  anything does. Complete lines that are empty leave no entry.\<close>

theorem cri_log_line_entries:
  "cri_log_line ts stream chunk =
     concat (map (log_entry ts stream (CHR ''F'')) (filter (\<lambda>l. l \<noteq> []) (full_lines chunk)))
     @ (if open_line chunk = [] then [] else log_entry ts stream (CHR ''P'') (open_line chunk))"
proof (induction ts stream chunk rule: cri_log_line.induct)
  case (1 ts stream chunk)
  show ?case
  proof (cases "split_once newline chunk")
    case None
    then have "split_char newline chunk = [chunk]" by (simp add: split_once_None split_char_id)
    with None show ?thesis by (cases "chunk = []") (simp_all add: log_line_cases full_lines_def open_line_def)
  next
    case (Some p)
    obtain l rest where p: "p = (l, rest)" by (cases p)
    have "chunk \<noteq> []" using Some by (auto simp: split_once_def)
    with 1 Some p show ?thesis
      by (simp add: log_line_cases(1) split_char_once full_lines_def open_line_def)
  qed
qed

text \<open>With no failing read or write, every byte reaches the live listeners, and the log gets the
  entries of every read, in order.\<close>

lemma pump_stream_whole:
  assumes "\<forall>r \<in> set rs. pr_chunk r \<noteq> [] \<and> pr_cut r = None" "po_log out = Some l"
  shows "pump_stream channel stream rs out =
    \<lparr>po_log = Some (l @ concat (map (\<lambda>r. cri_log_line (pr_time r) stream (pr_chunk r)) rs)),
     po_live = po_live out @ map (\<lambda>r. (channel, pr_chunk r)) rs\<rparr>"
  using assms by (induction rs arbitrary: out l) (auto simp: pump_round_def Let_def)

text \<open>A line break that arrives at the start of a read leaves no trace in the log: the log of a
  stream whose next read begins with a newline is the log of the stream without that newline, so an
  open line written before it and the text after it are entries of one line. The live listeners get
  every byte.\<close>

theorem log_loses_line_break:
  assumes "\<forall>r \<in> set (before @ r # after). pr_chunk r \<noteq> [] \<and> pr_cut r = None"
  shows "po_log (pump_stream channel stream (before @ r\<lparr>pr_chunk := newline # pr_chunk r\<rparr> # after) \<lparr>po_log = Some [], po_live = []\<rparr>)
      = po_log (pump_stream channel stream (before @ r # after) \<lparr>po_log = Some [], po_live = []\<rparr>)
    \<and> concat (map snd (po_live (pump_stream channel stream (before @ r\<lparr>pr_chunk := newline # pr_chunk r\<rparr> # after)
          \<lparr>po_log = Some [], po_live = []\<rparr>)))
      = concat (map pr_chunk before) @ newline # concat (map pr_chunk (r # after))"
proof -
  let ?rs = "before @ r\<lparr>pr_chunk := newline # pr_chunk r\<rparr> # after"
  have brk: "cri_log_line ts stream (newline # bs) = cri_log_line ts stream bs" for ts bs
    using log_line_cases(1) [of "newline # bs" "[]" bs] by (simp add: split_once_Some)
  have ok: "\<forall>r \<in> set ?rs. pr_chunk r \<noteq> [] \<and> pr_cut r = None" using assms by auto
  show ?thesis
    using pump_stream_whole [OF ok] pump_stream_whole [OF assms] by (simp add: brk comp_def)
qed

theorem log_loses_line_break_witness:
  "po_log (pump_stream 1 ''stdout'' [\<lparr>pr_time = [84], pr_chunk = str_bytes ''abc'', pr_cut = None\<rparr>,
      \<lparr>pr_time = [85], pr_chunk = newline # str_bytes ''def'' @ [newline], pr_cut = None\<rparr>] \<lparr>po_log = Some [], po_live = []\<rparr>)
     = Some (log_entry [84] ''stdout'' (CHR ''P'') (str_bytes ''abc'') @ log_entry [85] ''stdout'' (CHR ''F'') (str_bytes ''def''))"
proof -
  let ?a = "\<lparr>pr_time = [84], pr_chunk = str_bytes ''abc'', pr_cut = None\<rparr>"
  let ?b = "\<lparr>pr_time = [85], pr_chunk = str_bytes ''def'' @ [newline], pr_cut = None\<rparr>"
  have bs: "str_bytes ''abc'' = [97, 98, 99]" "str_bytes ''def'' = [100, 101, 102]" by code_simp+
  have ab: "\<forall>r \<in> set ([?a] @ ?b # []). pr_chunk r \<noteq> [] \<and> pr_cut r = None" by (simp add: bs)
  have 1: "cri_log_line ts stream (str_bytes ''abc'') = log_entry ts stream (CHR ''P'') (str_bytes ''abc'')" for ts stream
    by (rule log_line_cases(2)) (simp_all add: bs split_once_None newline_def)
  have 2: "cri_log_line ts stream (str_bytes ''def'' @ [newline]) = log_entry ts stream (CHR ''F'') (str_bytes ''def'')" for ts stream
    using log_line_cases(1) [of "str_bytes ''def'' @ [newline]" "str_bytes ''def''" "[]"]
    by (simp add: bs split_once_Some newline_def log_line_cases(3))
  show ?thesis
    using log_loses_line_break [OF ab, of 1 "''stdout''"] pump_stream_whole [OF ab, of "\<lparr>po_log = Some [], po_live = []\<rparr>" "[]" 1 "''stdout''"] 1 2 by simp
qed

end
