(* ===== verification/Stream_Sessions.thy ===== *)
theory Stream_Sessions
  imports Rust_Files Core_Types
begin

section \<open>The registry of streaming sessions\<close>

text \<open>
  \<open>Sessions\<close> of \<open>crates/cri/src/streaming.rs\<close>: the pending exec, attach and port-forward sessions
  under their one-time tokens, and the handles of the running containers (live output, log file,
  standard input), which are numbers here. SHA-256 and the clock (nanoseconds since the epoch, 0
  for a clock before it) are arguments. Every operation holds the mutex of the one map it works
  on, so an interleaving of callers is a list of operations.
\<close>

record exec_session =
  xs_container_id :: string
  xs_cmd :: "string list"
  xs_tty :: bool
  xs_stdin :: bool
  xs_stdout :: bool
  xs_stderr :: bool

record portforward_session =
  ps_pod_sandbox_id :: string
  ps_host :: string

record attach_session =
  at_container_id :: string
  at_stdin :: bool
  at_stdout :: bool
  at_stderr :: bool
  at_tty :: bool
  at_stdin_once :: bool

record sessions =
  ss_exec :: "string \<Rightarrow> exec_session option"
  ss_portforward :: "string \<Rightarrow> portforward_session option"
  ss_attach :: "string \<Rightarrow> attach_session option"
  ss_live :: "string \<Rightarrow> nat option"
  ss_logs :: "string \<Rightarrow> nat option"
  ss_stdins :: "string \<Rightarrow> nat option"
  ss_crun_root :: fpath
  ss_crun_bin :: string
  ss_counter :: u64
  ss_buses :: nat

definition DEFAULT_BIN :: string where "DEFAULT_BIN = ''crun''"

definition sessions_new :: "fpath \<Rightarrow> sessions" where
  "sessions_new crun_root =
     \<lparr>ss_exec = (\<lambda>_. None), ss_portforward = (\<lambda>_. None), ss_attach = (\<lambda>_. None), ss_live = (\<lambda>_. None),
      ss_logs = (\<lambda>_. None), ss_stdins = (\<lambda>_. None), ss_crun_root = crun_root, ss_crun_bin = DEFAULT_BIN,
      ss_counter = 0, ss_buses = 0\<rparr>"

subsection \<open>Handles of running containers\<close>

text \<open>\<open>ss_buses\<close> numbers the broadcast channels in the order they are made.\<close>

definition live_channel :: "string \<Rightarrow> sessions \<Rightarrow> nat \<times> sessions" where
  "live_channel cid s =
     (case ss_live s cid of
        Some b \<Rightarrow> (b, s)
      | None \<Rightarrow> (ss_buses s, s\<lparr>ss_live := (ss_live s)(cid \<mapsto> ss_buses s), ss_buses := Suc (ss_buses s)\<rparr>))"

definition subscribe_live :: "string \<Rightarrow> sessions \<Rightarrow> nat option" where
  "subscribe_live cid s = ss_live s cid"

definition close_live :: "string \<Rightarrow> sessions \<Rightarrow> sessions" where
  "close_live cid s = s\<lparr>ss_live := (ss_live s)(cid := None)\<rparr>"

definition register_log :: "string \<Rightarrow> nat \<Rightarrow> sessions \<Rightarrow> sessions" where
  "register_log cid h s = s\<lparr>ss_logs := (ss_logs s)(cid \<mapsto> h)\<rparr>"

definition log_handle :: "string \<Rightarrow> sessions \<Rightarrow> nat option" where
  "log_handle cid s = ss_logs s cid"

definition close_log :: "string \<Rightarrow> sessions \<Rightarrow> sessions" where
  "close_log cid s = s\<lparr>ss_logs := (ss_logs s)(cid := None)\<rparr>"

definition register_stdin :: "string \<Rightarrow> nat \<Rightarrow> sessions \<Rightarrow> sessions" where
  "register_stdin cid h s = s\<lparr>ss_stdins := (ss_stdins s)(cid \<mapsto> h)\<rparr>"

definition stdin_handle :: "string \<Rightarrow> sessions \<Rightarrow> nat option" where
  "stdin_handle cid s = ss_stdins s cid"

definition close_stdin :: "string \<Rightarrow> sessions \<Rightarrow> sessions" where
  "close_stdin cid s = s\<lparr>ss_stdins := (ss_stdins s)(cid := None)\<rparr>"

subsection \<open>One-time tokens\<close>

definition token_text :: "u64 \<Rightarrow> nat \<Rightarrow> string" where
  "token_text n nanos = dec (unat n) @ ''/'' @ dec nanos"

definition draw_token :: "(bytes \<Rightarrow> string) \<Rightarrow> nat \<Rightarrow> sessions \<Rightarrow> string \<times> sessions" where
  "draw_token sha nanos s =
     (hex (sha256 sha (str_bytes (token_text (ss_counter s) nanos))), s\<lparr>ss_counter := ss_counter s + 1\<rparr>)"

definition register_attach :: "(bytes \<Rightarrow> string) \<Rightarrow> nat \<Rightarrow> attach_session \<Rightarrow> sessions \<Rightarrow> string \<times> sessions" where
  "register_attach sha nanos x s =
     (let (t, s) = draw_token sha nanos s in (t, s\<lparr>ss_attach := (ss_attach s)(t \<mapsto> x)\<rparr>))"

definition take_attach :: "string \<Rightarrow> sessions \<Rightarrow> attach_session option \<times> sessions" where
  "take_attach t s = (ss_attach s t, s\<lparr>ss_attach := (ss_attach s)(t := None)\<rparr>)"

definition register_portforward :: "(bytes \<Rightarrow> string) \<Rightarrow> nat \<Rightarrow> portforward_session \<Rightarrow> sessions \<Rightarrow> string \<times> sessions" where
  "register_portforward sha nanos x s =
     (let (t, s) = draw_token sha nanos s in (t, s\<lparr>ss_portforward := (ss_portforward s)(t \<mapsto> x)\<rparr>))"

definition take_portforward :: "string \<Rightarrow> sessions \<Rightarrow> portforward_session option \<times> sessions" where
  "take_portforward t s = (ss_portforward s t, s\<lparr>ss_portforward := (ss_portforward s)(t := None)\<rparr>)"

definition register_exec :: "(bytes \<Rightarrow> string) \<Rightarrow> nat \<Rightarrow> exec_session \<Rightarrow> sessions \<Rightarrow> string \<times> sessions" where
  "register_exec sha nanos x s =
     (let (t, s) = draw_token sha nanos s in (t, s\<lparr>ss_exec := (ss_exec s)(t \<mapsto> x)\<rparr>))"

definition take_exec :: "string \<Rightarrow> sessions \<Rightarrow> exec_session option \<times> sessions" where
  "take_exec t s = (ss_exec s t, s\<lparr>ss_exec := (ss_exec s)(t := None)\<rparr>)"

definition pending :: "sessions \<Rightarrow> nat" where
  "pending s = card (dom (ss_exec s))"

subsection \<open>The contract of a table of tickets\<close>

text \<open>
  What the server relies on: \<open>look\<close> is the table of pending sessions of one kind, \<open>draws\<close> the token
  that the next registration uses. A registration files the session under the token it returns;
  a take returns what was filed and clears the entry.
\<close>

locale ticket_table =
  fixes look :: "'s \<Rightarrow> string \<Rightarrow> 'x option"
    and register :: "nat \<Rightarrow> 'x \<Rightarrow> 's \<Rightarrow> string \<times> 's"
    and redeem :: "string \<Rightarrow> 's \<Rightarrow> 'x option \<times> 's"
    and draws :: "nat \<Rightarrow> 's \<Rightarrow> string"
  assumes register_token: "fst (register now x s) = draws now s"
    and register_look: "look (snd (register now x s)) = (look s)(draws now s \<mapsto> x)"
    and redeem_result: "fst (redeem t s) = look s t"
    and redeem_look: "look (snd (redeem t s)) = (look s)(t := None)"
begin

lemma redeem_twice: "fst (redeem t (snd (redeem t s))) = None"
  by (simp add: redeem_result redeem_look)

lemma redeem_registered: "register now x s = (t, s') \<Longrightarrow> fst (redeem t s') = Some x"
  using register_token [of now x s] register_look [of now x s] by (simp add: redeem_result)

lemma redeem_other: "t \<noteq> u \<Longrightarrow> fst (redeem t (snd (redeem u s))) = fst (redeem t s)"
  by (simp add: redeem_result redeem_look)

end

definition next_token :: "(bytes \<Rightarrow> string) \<Rightarrow> nat \<Rightarrow> sessions \<Rightarrow> string" where
  "next_token sha nanos s = fst (draw_token sha nanos s)"

lemmas register_defs = register_exec_def register_attach_def register_portforward_def draw_token_def next_token_def Let_def

lemmas take_defs = take_exec_def take_attach_def take_portforward_def

interpretation ext: ticket_table ss_exec "register_exec sha" take_exec "next_token sha" for sha
  by unfold_locales (simp_all add: register_defs take_defs)

interpretation att: ticket_table ss_attach "register_attach sha" take_attach "next_token sha" for sha
  by unfold_locales (simp_all add: register_defs take_defs)

interpretation pft: ticket_table ss_portforward "register_portforward sha" take_portforward "next_token sha" for sha
  by unfold_locales (simp_all add: register_defs take_defs)

subsection \<open>Histories of the registry\<close>

datatype session = SExec exec_session | SAttach attach_session | SPortForward portforward_session

datatype session_op =
    Register nat session
  | TakeExec string
  | TakeAttach string
  | TakePortForward string

text \<open>The answer of an operation: the token of a registration, the session of a take.\<close>

datatype session_answer = Token string | Taken "session option"

fun session_do :: "(bytes \<Rightarrow> string) \<Rightarrow> session_op \<Rightarrow> sessions \<Rightarrow> session_answer \<times> sessions" where
  "session_do sha (Register now (SExec x)) s = apfst Token (register_exec sha now x s)"
| "session_do sha (Register now (SAttach x)) s = apfst Token (register_attach sha now x s)"
| "session_do sha (Register now (SPortForward x)) s = apfst Token (register_portforward sha now x s)"
| "session_do sha (TakeExec t) s = apfst (\<lambda>r. Taken (map_option SExec r)) (take_exec t s)"
| "session_do sha (TakeAttach t) s = apfst (\<lambda>r. Taken (map_option SAttach r)) (take_attach t s)"
| "session_do sha (TakePortForward t) s = apfst (\<lambda>r. Taken (map_option SPortForward r)) (take_portforward t s)"

fun session_token :: "session_op \<Rightarrow> string" where
  "session_token (TakeExec t) = t"
| "session_token (TakeAttach t) = t"
| "session_token (TakePortForward t) = t"
| "session_token (Register now x) = []"

fun issued :: "(bytes \<Rightarrow> string) \<Rightarrow> session_op list \<Rightarrow> sessions \<Rightarrow> (string \<times> session) list" where
  "issued sha [] s = []"
| "issued sha (p # ps) s =
     (case (p, session_do sha p s) of
        (Register now x, Token t, s') \<Rightarrow> (t, x) # issued sha ps s'
      | (_, _, s') \<Rightarrow> issued sha ps s')"

fun redeemed :: "(bytes \<Rightarrow> string) \<Rightarrow> session_op list \<Rightarrow> sessions \<Rightarrow> (string \<times> session) list" where
  "redeemed sha [] s = []"
| "redeemed sha (p # ps) s =
     (case session_do sha p s of
        (Taken (Some x), s') \<Rightarrow> (session_token p, x) # redeemed sha ps s'
      | (_, s') \<Rightarrow> redeemed sha ps s')"

text \<open>The pending sessions of all three kinds, and that no token is pending twice.\<close>

fun files :: "sessions \<Rightarrow> string \<Rightarrow> session \<Rightarrow> bool" where
  "files s t (SExec x) \<longleftrightarrow> ss_exec s t = Some x"
| "files s t (SAttach x) \<longleftrightarrow> ss_attach s t = Some x"
| "files s t (SPortForward x) \<longleftrightarrow> ss_portforward s t = Some x"

definition waiting :: "sessions \<Rightarrow> (string \<times> session) set" where
  "waiting s = {(t, x). files s t x}"

definition one_each :: "sessions \<Rightarrow> bool" where
  "one_each s \<longleftrightarrow> inj_on fst (waiting s)"

lemma one_eachD: "one_each s \<Longrightarrow> files s t x \<Longrightarrow> files s t y \<Longrightarrow> x = y"
  by (force simp: one_each_def inj_on_def waiting_def)

lemma not_waiting: "t \<notin> fst ` waiting s \<Longrightarrow> \<not> files s t x"
  by (force simp: waiting_def image_iff)

lemma files_register:
  assumes "session_do sha (Register now x) s = (a, s')" "next_token sha now s \<notin> fst ` waiting s"
  shows "files s' t y \<longleftrightarrow> files s t y \<or> t = next_token sha now s \<and> y = x"
  using assms(1) not_waiting [OF assms(2), of x] not_waiting [OF assms(2), of y]
  by (cases x; cases y) (auto simp: register_defs split: if_splits)

lemma waiting_register:
  assumes "session_do sha (Register now x) s = (a, s')" "next_token sha now s \<notin> fst ` waiting s"
  shows "waiting s' = insert (next_token sha now s, x) (waiting s)"
  using files_register [OF assms] by (auto simp: waiting_def)

lemma waiting_take:
  assumes "session_do sha p s = (Taken r, s')" "one_each s"
  shows "case r of None \<Rightarrow> waiting s' = waiting s
         | Some x \<Rightarrow> (session_token p, x) \<in> waiting s \<and> waiting s' = waiting s - {(session_token p, x)}"
proof -
  have f: "files s' t y \<longleftrightarrow> files s t y \<and> (r = Some y \<longrightarrow> t \<noteq> session_token p)" for t y
    using assms(1)
    by (cases "(sha, p, s)" rule: session_do.cases; cases y) (auto simp: take_defs register_defs split: if_splits)
  moreover have "files s (session_token p) x" if "r = Some x" for x
    using assms(1) that
    by (cases "(sha, p, s)" rule: session_do.cases) (auto simp: take_defs register_defs)
  ultimately show ?thesis by (auto simp: waiting_def split: option.splits)
qed

lemma session_do_register: "fst (session_do sha (Register now x) s) = Token (next_token sha now s)"
  by (cases x) (simp_all add: register_defs)

lemma session_do_take: "(\<And>now x. p \<noteq> Register now x) \<Longrightarrow> \<exists>r. fst (session_do sha p s) = Taken r"
  by (cases "(sha, p, s)" rule: session_do.cases) auto

lemma redeem_history:
  assumes "one_each s" "distinct (map fst (issued sha ps s))" "fst ` waiting s \<inter> fst ` set (issued sha ps s) = {}"
  shows "distinct (map fst (redeemed sha ps s)) \<and> set (redeemed sha ps s) \<subseteq> waiting s \<union> set (issued sha ps s)"
  using assms
proof (induction ps arbitrary: s)
  case (Cons p ps)
  obtain a s' where step: "session_do sha p s = (a, s')" by (cases "session_do sha p s")
  show ?case
  proof (cases "\<exists>now x. p = Register now x")
    case True
    then obtain now x where p: "p = Register now x" by blast
    let ?t = "next_token sha now s"
    have a: "a = Token ?t" using step session_do_register [of sha now x s] p by simp
    then have iss: "issued sha (p # ps) s = (?t, x) # issued sha ps s'" using step p by simp
    have w: "waiting s' = insert (?t, x) (waiting s)"
      using waiting_register [of sha now x s a s'] step p Cons.prems(3) iss by (auto simp: image_iff)
    have "one_each s'"
      using Cons.prems(1,3) unfolding one_each_def w iss by (auto simp: inj_on_def image_iff)
    then show ?thesis
      using Cons.IH [of s'] Cons.prems step a iss w p by (auto simp: image_iff)
  next
    case False
    then obtain r where a: "a = Taken r" using session_do_take [of p sha s] step by auto
    then have iss: "issued sha (p # ps) s = issued sha ps s'"
      using step by (auto split: session_op.splits)
    have w: "case r of None \<Rightarrow> waiting s' = waiting s
         | Some x \<Rightarrow> (session_token p, x) \<in> waiting s \<and> waiting s' = waiting s - {(session_token p, x)}"
      using waiting_take step a Cons.prems(1) by blast
    then have sub: "waiting s' \<subseteq> waiting s" by (auto split: option.splits)
    then have one: "one_each s'" using Cons.prems(1) inj_on_subset by (auto simp: one_each_def)
    have IH: "distinct (map fst (redeemed sha ps s')) \<and> set (redeemed sha ps s') \<subseteq> waiting s' \<union> set (issued sha ps s')"
      using Cons.IH [OF one] Cons.prems(2,3) iss sub by auto
    show ?thesis
    proof (cases r)
      case None
      then show ?thesis using IH step a iss sub by auto
    next
      case (Some x)
      have "session_token p \<notin> fst ` waiting s'"
        using w Some one_eachD [OF Cons.prems(1)] by (auto simp: waiting_def)
      moreover have "session_token p \<notin> fst ` set (issued sha ps s')"
      proof -
        have "session_token p \<in> fst ` waiting s" using w Some by (force intro: rev_image_eqI)
        with Cons.prems(3) show ?thesis unfolding iss by blast
      qed
      moreover have "fst ` set (redeemed sha ps s') \<subseteq> fst ` waiting s' \<union> fst ` set (issued sha ps s')"
        unfolding image_Un [symmetric] by (rule image_mono) (simp add: IH)
      ultimately have "session_token p \<notin> fst ` set (redeemed sha ps s')"
        by blast
      moreover have "redeemed sha (p # ps) s = (session_token p, x) # redeemed sha ps s'"
        using step a Some by simp
      ultimately show ?thesis using IH iss sub w Some by simp blast
    qed
  qed
qed simp

subsection \<open>Tokens do not repeat\<close>

fun drawn_texts :: "session_op list \<Rightarrow> u64 \<Rightarrow> bytes list" where
  "drawn_texts [] n = []"
| "drawn_texts (Register now x # ps) n = str_bytes (token_text n now) # drawn_texts ps (n + 1)"
| "drawn_texts (_ # ps) n = drawn_texts ps n"

lemma token_text_counter:
  "token_text m i = token_text n j \<Longrightarrow> m = n"
proof -
  have "split_once (CHR ''/'') (token_text k x) = Some (dec (unat k), dec x)" for k x
    unfolding split_once_Some by (simp add: token_text_def)
  then show "token_text m i = token_text n j \<Longrightarrow> m = n"
    by (metis Pair_inject dec_inject option.inject unsigned_word_eqI)
qed

lemma counter_after:
  "ss_counter (snd (session_do sha p s)) = (case p of Register _ _ \<Rightarrow> ss_counter s + 1 | _ \<Rightarrow> ss_counter s)"
  by (cases "(sha, p, s)" rule: session_do.cases) (simp_all add: register_defs take_defs)

lemma issued_drawn: "map fst (issued sha ps s) = map sha (drawn_texts ps (ss_counter s))"
proof (induction ps arbitrary: s)
  case (Cons p ps)
  then show ?case
    using counter_after [of sha p s]
    by (cases "(sha, p, s)" rule: session_do.cases) (simp_all add: register_defs take_defs sha256_def)
qed simp

lemma str_bytes_inject [simp]: "str_bytes a = str_bytes b \<longleftrightarrow> a = b"
proof
  assume "str_bytes a = str_bytes b"
  then have "map (of_char :: char \<Rightarrow> nat) a = map of_char b" by (metis byte_values_str)
  then show "a = b" by (simp add: inj_map_eq_map inj_def)
qed simp

lemma drawn_texts_counter:
  "b \<in> set (drawn_texts ps n) \<Longrightarrow> \<exists>k now. k < length ps \<and> b = str_bytes (token_text (n + of_nat k) now)"
proof (induction ps n rule: drawn_texts.induct)
  case (2 now x ps n)
  show ?case
  proof (cases "b = str_bytes (token_text n now)")
    case True
    then show ?thesis by (intro exI [of _ 0] exI [of _ now]) simp
  next
    case False
    with 2 obtain k now' where "k < length ps" "b = str_bytes (token_text (n + 1 + of_nat k) now')" by auto
    then show ?thesis by (intro exI [of _ "Suc k"] exI [of _ now']) (simp add: ac_simps)
  qed
qed (auto intro: less_SucI)

lemma drawn_texts_distinct: "length ps \<le> 2 ^ 64 \<Longrightarrow> distinct (drawn_texts ps n)"
proof (induction ps n rule: drawn_texts.induct)
  case (2 now x ps n)
  have "str_bytes (token_text n now) \<notin> set (drawn_texts ps (n + 1))"
  proof
    assume "str_bytes (token_text n now) \<in> set (drawn_texts ps (n + 1))"
    then obtain k now' where k: "k < length ps" "token_text n now = token_text (n + 1 + of_nat k) now'"
      using drawn_texts_counter by fastforce
    then have "(of_nat (Suc k) :: u64) = 0" using token_text_counter [OF k(2)] by (simp add: ac_simps)
    then have "2 ^ 64 dvd Suc k" unfolding word_of_nat_eq_0_iff by simp
    with k(1) 2(2) show False by (auto dest: dvd_imp_le)
  qed
  with 2 show ?case by simp
qed simp_all

text \<open>C8. The one-time tokens of the streaming server work once: over any sequence of registrations
  and takes, by clients that may present any string to any of the three endpoints, no token is
  honoured twice, not even at different endpoints, and a token is honoured only with the session
  that was registered under it, at the endpoint of its kind. The hypotheses are that SHA-256 does
  not collide on the texts the tokens are made of, and fewer than \<open>2 ^ 64\<close> registrations, after
  which the counter would repeat.\<close>

theorem tokens_work_once:
  assumes "inj_on sha (set (drawn_texts ps 0))" "length ps \<le> 2 ^ 64"
  shows "distinct (map fst (redeemed sha ps (sessions_new root)))
         \<and> set (redeemed sha ps (sessions_new root)) \<subseteq> set (issued sha ps (sessions_new root))"
proof -
  have none: "waiting (sessions_new root) = {}"
    by (auto simp: waiting_def sessions_new_def elim!: files.elims)
  have "distinct (map fst (issued sha ps (sessions_new root)))"
    using drawn_texts_distinct [OF assms(2)] assms(1)
    by (simp add: issued_drawn sessions_new_def distinct_map)
  then show ?thesis
    using redeem_history [of "sessions_new root" sha ps] none by (simp add: one_each_def)
qed

definition sample_exec :: exec_session where
  "sample_exec = \<lparr>xs_container_id = ''c1'', xs_cmd = [''sh''], xs_tty = False, xs_stdin = True, xs_stdout = True, xs_stderr = True\<rparr>"

definition sample_forward :: portforward_session where
  "sample_forward = \<lparr>ps_pod_sandbox_id = ''p1'', ps_host = ''10.0.0.7''\<rparr>"

definition sample_history :: "session_op list" where
  "sample_history =
     [Register 5 (SExec sample_exec), Register 5 (SPortForward sample_forward), TakeAttach ''0/5'', TakeExec ''0/5'',
      TakeExec ''0/5'', TakePortForward ''1/5'']"

definition plain_sha :: "bytes \<Rightarrow> string" where
  "plain_sha bs = map (\<lambda>b. char_of (unat b)) bs"

theorem tokens_work_once_witness:
  "redeemed plain_sha sample_history (sessions_new [''run'']) = [(''0/5'', SExec sample_exec), (''1/5'', SPortForward sample_forward)]
   \<and> distinct (map fst (redeemed plain_sha sample_history (sessions_new [''run''])))
   \<and> set (redeemed plain_sha sample_history (sessions_new [''run''])) \<subseteq> set (issued plain_sha sample_history (sessions_new [''run'']))"
proof -
  have "inj_on plain_sha (set (drawn_texts sample_history 0))" by code_simp
  moreover have "length sample_history \<le> 2 ^ 64" by (simp add: sample_history_def)
  moreover have "redeemed plain_sha sample_history (sessions_new [''run'']) = [(''0/5'', SExec sample_exec), (''1/5'', SPortForward sample_forward)]"
    by code_simp
  ultimately show ?thesis using tokens_work_once [of plain_sha sample_history "[''run'']"] by blast
qed

end
