(* ===== verification/Stream_Run.thy ===== *)
theory Stream_Run
  imports Rust_Files "HOL-Library.Sublist"
begin

section \<open>Pumping a process's output to a client\<close>

text \<open>
  The tasks that \<open>handle_exec\<close>, \<open>spdy_exec\<close> and \<open>handle_portforward\<close> of
  \<open>crates/cri/src/streaming.rs\<close> spawn: each pump reads one pipe or socket in chunks and sends every
  chunk to the client, until the end of the pipe, a read error, or a failed send. The tasks of one
  session run concurrently; a schedule is a list of turns, each one iteration of one task. The
  client's link is a record of functions, so the WebSocket and the SPDY session share the model.

  A read is \<open>Some bytes\<close>, where no bytes is the end of the stream, or \<open>None\<close>, an error; a list that
  is used up stands for the end. \<open>io_log\<close> records every send and whether it succeeded.
\<close>

record ('c, 'f, 'w, 'g) link =
  lk_chunk :: "'c \<Rightarrow> bytes \<Rightarrow> 'f"
  lk_send :: "'f \<Rightarrow> 'w \<Rightarrow> bool \<times> 'w"
  lk_other :: "'g \<Rightarrow> 'w \<Rightarrow> 'w"

type_synonym reads = "bytes option list"

record ('c, 'f, 'w) io_run =
  io_sink :: 'w
  io_log :: "('f \<times> bool) list"
  io_pumps :: "('c \<times> reads option) list"

definition put :: "('c, 'f, 'w, 'g) link \<Rightarrow> 'f \<Rightarrow> ('c, 'f, 'w, 'z) io_run_scheme \<Rightarrow> bool \<times> ('c, 'f, 'w, 'z) io_run_scheme" where
  "put lk f st =
     (let (good, w) = lk_send lk f (io_sink st) in (good, st\<lparr>io_sink := w, io_log := io_log st @ [(f, good)]\<rparr>))"

fun put_all :: "('c, 'f, 'w, 'g) link \<Rightarrow> 'f list \<Rightarrow> ('c, 'f, 'w, 'z) io_run_scheme \<Rightarrow> ('c, 'f, 'w, 'z) io_run_scheme" where
  "put_all lk [] st = st"
| "put_all lk (f # fs) st = put_all lk fs (snd (put lk f st))"

text \<open>One iteration of pump \<open>i\<close>; a pump that has ended has no turn.\<close>

definition pump_turn ::
  "('c, 'f, 'w, 'g) link \<Rightarrow> nat \<Rightarrow> ('c, 'f, 'w, 'z) io_run_scheme \<Rightarrow> ('c, 'f, 'w, 'z) io_run_scheme option" where
  "pump_turn lk i st =
     (if i < length (io_pumps st) then
        (case io_pumps st ! i of
           (c, None) \<Rightarrow> None
         | (c, Some (Some (b # bs) # rest)) \<Rightarrow>
             (let (good, st) = put lk (lk_chunk lk c (b # bs)) st in
              Some (st\<lparr>io_pumps := (io_pumps st)[i := (c, if good then Some rest else None)]\<rparr>))
         | (c, Some _) \<Rightarrow> Some (st\<lparr>io_pumps := (io_pumps st)[i := (c, None)]\<rparr>))
      else None)"

subsection \<open>A session around one process\<close>

text \<open>The main task waits for the process, then for every pump, and then sends the closing frames;
  a process that was killed, or could not be waited for, has no code.\<close>

definition exit_code :: "int option \<Rightarrow> int" where
  "exit_code w = unwrap_or (- 1) w"

record ('c, 'f, 'w) exec_run = "('c, 'f, 'w) io_run" +
  xr_wait :: "int option"
  xr_code :: "int option"
  xr_over :: bool

datatype 'g turn = PumpTurn nat | WaitTurn | EndTurn | OtherTurn 'g

definition exec_turn ::
  "('c, 'f, 'w, 'g) link \<Rightarrow> (int \<Rightarrow> 'f list) \<Rightarrow> 'g turn \<Rightarrow> ('c, 'f, 'w) exec_run \<Rightarrow> ('c, 'f, 'w) exec_run option" where
  "exec_turn lk closing t st =
     (case t of
        PumpTurn i \<Rightarrow> pump_turn lk i st
      | WaitTurn \<Rightarrow>
          if xr_over st \<or> xr_code st \<noteq> None then None
          else Some (st\<lparr>xr_code := Some (exit_code (xr_wait st))\<rparr>)
      | EndTurn \<Rightarrow>
          (case xr_code st of
             Some code \<Rightarrow>
               if \<not> xr_over st \<and> list_all (\<lambda>p. snd p = None) (io_pumps st)
               then Some ((put_all lk (closing code) st)\<lparr>xr_over := True\<rparr>) else None
           | None \<Rightarrow> None)
      | OtherTurn g \<Rightarrow> Some (st\<lparr>io_sink := lk_other lk g (io_sink st)\<rparr>))"

fun exec_turns ::
  "('c, 'f, 'w, 'g) link \<Rightarrow> (int \<Rightarrow> 'f list) \<Rightarrow> 'g turn list \<Rightarrow> ('c, 'f, 'w) exec_run \<Rightarrow> ('c, 'f, 'w) exec_run option" where
  "exec_turns lk closing [] st = Some st"
| "exec_turns lk closing (t # ts) st = Option.bind (exec_turn lk closing t st) (exec_turns lk closing ts)"

definition exec_start :: "'w \<Rightarrow> ('c \<times> reads) list \<Rightarrow> int option \<Rightarrow> ('c, 'f, 'w) exec_run" where
  "exec_start w pumps code =
     \<lparr>io_sink = w, io_log = [], io_pumps = map (\<lambda>(c, rs). (c, Some rs)) pumps, xr_wait = code, xr_code = None, xr_over = False\<rparr>"

subsection \<open>What the client reads\<close>

text \<open>All the bytes a pipe delivers before its end, and the bytes a client has received on a
  channel, when \<open>demux\<close> takes a frame apart.\<close>

fun text_of :: "reads \<Rightarrow> bytes" where
  "text_of (Some (b # bs) # rest) = (b # bs) @ text_of rest"
| "text_of _ = []"

definition seen :: "('f \<Rightarrow> ('c \<times> bytes) option) \<Rightarrow> 'c \<Rightarrow> ('f \<times> bool) list \<Rightarrow> bytes" where
  "seen demux c lg =
     concat (map (\<lambda>(f, good). case demux f of Some (d, bs) \<Rightarrow> if good \<and> d = c then bs else [] | None \<Rightarrow> []) lg)"

lemma seen_simps [simp]:
  "seen demux c [] = []"
  "seen demux c (lg @ lg') = seen demux c lg @ seen demux c lg'"
  by (simp_all add: seen_def)

fun pump_ok :: "bytes \<Rightarrow> bytes \<Rightarrow> bool \<Rightarrow> reads option \<Rightarrow> bool" where
  "pump_ok got all clean (Some rs) \<longleftrightarrow> got @ text_of rs = all"
| "pump_ok got all clean None \<longleftrightarrow> prefix got all \<and> (clean \<longrightarrow> got = all)"

lemma pump_ok_prefix: "pump_ok got all clean r \<Longrightarrow> prefix got all"
  by (cases r) (auto simp: prefix_def)

text \<open>The state while the output is pumped: one pump per channel, each with a part of its pipe sent.\<close>

definition pumping ::
  "('f \<Rightarrow> ('c \<times> bytes) option) \<Rightarrow> ('c \<times> reads) list \<Rightarrow> ('f \<times> bool) list \<Rightarrow> ('c \<times> reads option) list \<Rightarrow> bool" where
  "pumping demux ps lg pumps \<longleftrightarrow>
     map fst pumps = map fst ps
     \<and> list_all2 (\<lambda>(c, rs) (_, r). pump_ok (seen demux c lg) (text_of rs) (list_all snd lg) r) ps pumps
     \<and> list_all (\<lambda>(f, _). \<exists>c bs. demux f = Some (c, bs) \<and> c \<in> fst ` set ps) lg"

lemma chan_update: "i < length pumps \<Longrightarrow> pumps ! i = (c, r) \<Longrightarrow> map fst (pumps[i := (c, r')]) = map fst pumps"
  by (metis fst_conv list_update_id map_update)

lemma pump_turn_cases:
  assumes "pump_turn lk i st = Some st'"
  obtains (sent) c b bs rest good w where "i < length (io_pumps st)" "io_pumps st ! i = (c, Some (Some (b # bs) # rest))"
      "st' = st\<lparr>io_sink := w, io_log := io_log st @ [(lk_chunk lk c (b # bs), good)],
                io_pumps := (io_pumps st)[i := (c, if good then Some rest else None)]\<rparr>"
  | (stopped) c rs where "i < length (io_pumps st)" "io_pumps st ! i = (c, Some rs)" "text_of rs = []"
      "st' = st\<lparr>io_pumps := (io_pumps st)[i := (c, None)]\<rparr>"
proof -
  have i: "i < length (io_pumps st)" using assms by (simp add: pump_turn_def split: if_splits)
  obtain c r where c: "io_pumps st ! i = (c, r)" by (cases "io_pumps st ! i")
  with assms i obtain rs where r: "r = Some rs" by (cases r) (auto simp: pump_turn_def)
  show thesis
  proof (cases rs rule: text_of.cases)
    case (1 b bs rest)
    with assms i c r sent show thesis by (auto simp: pump_turn_def put_def split_beta Let_def)
  qed (use assms i c r stopped in \<open>auto simp: pump_turn_def\<close>)
qed

lemma put_all_log:
  "io_pumps (put_all lk fs st) = io_pumps st
   \<and> exec_run.more (put_all lk fs st) = exec_run.more st \<and> xr_wait (put_all lk fs st) = xr_wait st
   \<and> xr_code (put_all lk fs st) = xr_code st \<and> xr_over (put_all lk fs st) = xr_over st
   \<and> (\<exists>fin. io_log (put_all lk fs st) = io_log st @ fin \<and> map fst fin = fs)"
proof (induction fs arbitrary: st)
  case (Cons f fs)
  then show ?case
    using Cons [of "snd (put lk f st)"] by (auto simp: put_def split_beta Let_def)
qed simp

definition exec_inv ::
  "('f \<Rightarrow> ('c \<times> bytes) option) \<Rightarrow> (int \<Rightarrow> 'f list) \<Rightarrow> ('c \<times> reads) list \<Rightarrow> int option \<Rightarrow> ('c, 'f, 'w) exec_run \<Rightarrow> bool" where
  "exec_inv demux closing ps code st \<longleftrightarrow>
     (\<exists>lg fin. io_log st = lg @ fin \<and> pumping demux ps lg (io_pumps st) \<and> xr_wait st = code
        \<and> (xr_code st = None \<or> xr_code st = Some (exit_code code))
        \<and> (if xr_over st then map fst fin = closing (exit_code code) \<and> list_all (\<lambda>p. snd p = None) (io_pumps st)
            else fin = []))"

text \<open>What a session promises its client: what was sent is first output, on each channel the bytes
  of its pipe in their order, and then, once the session is over, the closing frames; the output
  is complete unless a send failed.\<close>

definition delivers ::
  "('f \<Rightarrow> ('c \<times> bytes) option) \<Rightarrow> ('c \<times> reads) list \<Rightarrow> 'f list \<Rightarrow> bool \<Rightarrow> ('f \<times> bool) list \<Rightarrow> bool" where
  "delivers demux ps closing over sent \<longleftrightarrow>
     (\<exists>lg fin. sent = lg @ fin
        \<and> list_all (\<lambda>(f, _). \<exists>c bs. demux f = Some (c, bs) \<and> c \<in> fst ` set ps) lg
        \<and> (\<forall>(c, rs) \<in> set ps. prefix (seen demux c lg) (text_of rs)
              \<and> (over \<and> list_all snd lg \<longrightarrow> seen demux c lg = text_of rs))
        \<and> map fst fin = (if over then closing else []))"

locale client_link =
  fixes lk :: "('c, 'f, 'w, 'g) link" and demux :: "'f \<Rightarrow> ('c \<times> bytes) option"
  assumes demux_chunk: "demux (lk_chunk lk c bs) = Some (c, bs)"
begin

lemma seen_chunk: "seen demux c [(lk_chunk lk d bs, good)] = (if good \<and> d = c then bs else [])"
  by (simp add: seen_def demux_chunk)

lemma pumping_send:
  assumes "pumping demux ps lg pumps" "distinct (map fst ps)" "i < length pumps" "pumps ! i = (c, Some (Some (b # bs) # rest))"
  shows "pumping demux ps (lg @ [(lk_chunk lk c (b # bs), good)]) (pumps[i := (c, if good then Some rest else None)])"
proof -
  have len: "length ps = length pumps" and chans: "map fst pumps = map fst ps"
    using assms(1) by (auto simp: pumping_def dest: list_all2_lengthD)
  have at: "pump_ok (seen demux (fst (ps ! j)) lg) (text_of (snd (ps ! j))) (list_all snd lg) (snd (pumps ! j))"
    if "j < length pumps" for j
    using assms(1) that len by (auto simp: pumping_def list_all2_conv_all_nth split_beta)
  have ci: "fst (ps ! i) = c" using chans assms(3,4) len by (metis fst_conv nth_map)
  have other: "fst (ps ! j) \<noteq> c" if "j < length pumps" "j \<noteq> i" for j
    using nth_eq_iff_index_eq [OF assms(2), of i j] assms(3) ci that len by auto
  have "pump_ok (seen demux (fst (ps ! j)) (lg @ [(lk_chunk lk c (b # bs), good)])) (text_of (snd (ps ! j)))
          (list_all snd (lg @ [(lk_chunk lk c (b # bs), good)]))
          (snd (pumps[i := (c, if good then Some rest else None)] ! j))" if "j < length pumps" for j
  proof (cases "j = i")
    case True
    then show ?thesis using at [OF assms(3)] assms(3,4) ci by (auto simp: seen_chunk intro: prefixI [OF sym])
  next
    case False
    then show ?thesis
      using at [OF that] other [OF that False] by (cases "snd (pumps ! j)") (auto simp: seen_chunk)
  qed
  moreover have "c \<in> fst ` set ps" using ci assms(3) len by (metis imageI nth_mem)
  moreover have "map fst (pumps[i := (c, if good then Some rest else None)]) = map fst ps"
    using chan_update [OF assms(3,4)] chans by simp
  ultimately show ?thesis
    using assms(1) len
    by (auto simp: pumping_def list_all2_conv_all_nth split_beta demux_chunk)
qed

lemma pumping_stop:
  assumes "pumping demux ps lg pumps" "i < length pumps" "pumps ! i = (c, Some rs)" "text_of rs = []"
  shows "pumping demux ps lg (pumps[i := (c, None)])"
proof -
  have "map fst (pumps[i := (c, None)]) = map fst ps"
    using chan_update [OF assms(2,3)] assms(1) by (simp add: pumping_def)
  then show ?thesis
    using assms by (auto simp: pumping_def list_all2_conv_all_nth split_beta nth_list_update)
qed

lemma pumping_turn:
  assumes "pumping demux ps (io_log st) (io_pumps st)" "distinct (map fst ps)" "pump_turn lk i st = Some st'"
  shows "pumping demux ps (io_log st') (io_pumps st')"
  using assms(3)
proof (cases rule: pump_turn_cases)
  case (sent c b bs rest good w)
  with pumping_send [OF assms(1,2) sent(1,2)] show ?thesis by simp
next
  case (stopped c rs)
  with pumping_stop [OF assms(1) stopped(1-3)] show ?thesis by simp
qed

text \<open>The invariant of a session: before the closing frames only output has been sent, and after
  them every pump has ended.\<close>

lemma exec_inv_turn:
  assumes "exec_turn lk closing t st = Some st'" "distinct (map fst ps)" "exec_inv demux closing ps code st"
  shows "exec_inv demux closing ps code st'"
proof -
  obtain lg fin where inv: "io_log st = lg @ fin" "pumping demux ps lg (io_pumps st)" "xr_wait st = code"
      "xr_code st = None \<or> xr_code st = Some (exit_code code)"
      "if xr_over st then map fst fin = closing (exit_code code) \<and> list_all (\<lambda>p. snd p = None) (io_pumps st) else fin = []"
    using assms(3) by (auto simp: exec_inv_def)
  show ?thesis
  proof (cases t)
    case (PumpTurn i)
    then have turn: "pump_turn lk i st = Some st'" using assms(1) by (simp add: exec_turn_def)
    have keep: "xr_over st' = xr_over st" "xr_code st' = xr_code st" "xr_wait st' = xr_wait st"
      by (rule pump_turn_cases [OF turn], simp_all)+
    have "\<not> xr_over st"
      by (rule pump_turn_cases [OF turn]) (use inv(5) in \<open>fastforce simp: list_all_length\<close>)+
    then show ?thesis
      using pumping_turn [OF _ assms(2) turn] inv keep by (auto simp: exec_inv_def)
  next
    case EndTurn
    then obtain c where "xr_code st = Some c" "\<not> xr_over st" "list_all (\<lambda>p. snd p = None) (io_pumps st)"
        "st' = (put_all lk (closing c) st)\<lparr>xr_over := True\<rparr>"
      using assms(1) by (auto simp: exec_turn_def split: option.splits if_splits)
    then show ?thesis
      using inv put_all_log [of lk "closing c" st] by (auto simp: exec_inv_def)
  next
    case (OtherTurn g)
    then have same: "io_log st' = io_log st" "io_pumps st' = io_pumps st" "xr_wait st' = xr_wait st"
        "xr_code st' = xr_code st" "xr_over st' = xr_over st"
      using assms(1) by (auto simp: exec_turn_def)
    show ?thesis using assms(3) unfolding exec_inv_def same .
  qed (use assms(1) inv in \<open>auto simp: exec_turn_def exec_inv_def split: if_splits\<close>)
qed

lemma exec_inv_turns:
  "exec_turns lk closing ts st = Some st' \<Longrightarrow> distinct (map fst ps) \<Longrightarrow> exec_inv demux closing ps code st
   \<Longrightarrow> exec_inv demux closing ps code st'"
  by (induction ts arbitrary: st) (auto simp: bind_eq_Some_conv intro: exec_inv_turn)

lemma exec_inv_start: "exec_inv demux closing ps code (exec_start w ps code)"
  by (auto simp: exec_inv_def exec_start_def pumping_def split_beta list_all2_conv_all_nth seen_def)

lemma exec_delivers:
  assumes "exec_turns lk closing ts (exec_start w ps code) = Some st" "distinct (map fst ps)"
  shows "delivers demux ps (closing (exit_code code)) (xr_over st) (io_log st)"
proof -
  obtain lg fin where inv: "io_log st = lg @ fin" "pumping demux ps lg (io_pumps st)"
      "if xr_over st then map fst fin = closing (exit_code code) \<and> list_all (\<lambda>p. snd p = None) (io_pumps st) else fin = []"
    using exec_inv_turns [OF assms exec_inv_start] unfolding exec_inv_def by blast
  have "prefix (seen demux c lg) (text_of rs) \<and> (xr_over st \<and> list_all snd lg \<longrightarrow> seen demux c lg = text_of rs)"
    if mem: "(c, rs) \<in> set ps" for c rs
  proof -
    obtain j where j: "j < length ps" "ps ! j = (c, rs)" using mem by (auto simp: in_set_conv_nth)
    then have ok: "j < length (io_pumps st)" "pump_ok (seen demux c lg) (text_of rs) (list_all snd lg) (snd (io_pumps st ! j))"
      using inv(2) by (auto simp: pumping_def list_all2_conv_all_nth split_beta)
    then show ?thesis
      using pump_ok_prefix [OF ok(2)] inv(3) by (auto simp: list_all_length)
  qed
  then show ?thesis
    using inv unfolding delivers_def pumping_def by (intro exI [of _ lg] exI [of _ fin]) auto
qed

end

subsection \<open>A session ends\<close>

text \<open>The turns of the session's own tasks that are still possible; the turns of others on the
  connection do not count.\<close>

fun pump_weight :: "reads option \<Rightarrow> nat" where
  "pump_weight (Some rs) = Suc (length rs)"
| "pump_weight None = 0"

definition turns_left :: "('c, 'f, 'w) exec_run \<Rightarrow> nat" where
  "turns_left st =
     sum_list (map (\<lambda>p. pump_weight (snd p)) (io_pumps st))
     + (if xr_code st = None then 1 else 0) + (if xr_over st then 0 else 1)"

definition own :: "'g turn \<Rightarrow> bool" where
  "own t \<longleftrightarrow> (case t of OtherTurn _ \<Rightarrow> False | _ \<Rightarrow> True)"

lemma pump_sum_update:
  assumes "i < length pumps" "pumps ! i = (c, Some rs)" "pump_weight r \<le> length rs"
  shows "sum_list (map (\<lambda>p. pump_weight (snd p)) (pumps[i := (c, r)])) < sum_list (map (\<lambda>p. pump_weight (snd p)) pumps)"
  using assms elem_le_sum_list [of i "map (\<lambda>p. pump_weight (snd p)) pumps"]
  by (simp add: map_update sum_list_update)

lemma own_turn_less:
  assumes "exec_turn lk closing t st = Some st'"
  shows "if own t then turns_left st' < turns_left st else turns_left st' = turns_left st"
proof (cases t)
  case (PumpTurn i)
  then have turn: "pump_turn lk i st = Some st'" using assms by (simp add: exec_turn_def)
  show ?thesis
    by (rule pump_turn_cases [OF turn])
      (use PumpTurn in \<open>auto simp: turns_left_def own_def intro!: pump_sum_update\<close>)
next
  case EndTurn
  then obtain c where "xr_code st = Some c" "\<not> xr_over st" "st' = (put_all lk (closing c) st)\<lparr>xr_over := True\<rparr>"
    using assms by (auto simp: exec_turn_def split: option.splits if_splits)
  then show ?thesis
    using put_all_log [of lk "closing c" st] EndTurn by (simp add: turns_left_def own_def)
qed (use assms in \<open>auto simp: exec_turn_def turns_left_def own_def split: if_splits\<close>)

lemma turns_bounded:
  "exec_turns lk closing ts st = Some st' \<Longrightarrow> length (filter own ts) + turns_left st' \<le> turns_left st"
proof (induction ts arbitrary: st)
  case (Cons t ts)
  then obtain st1 where t: "exec_turn lk closing t st = Some st1" and "exec_turns lk closing ts st1 = Some st'"
    by (auto simp: bind_eq_Some_conv)
  with Cons.IH [of st1] own_turn_less [OF t] show ?case by (auto split: if_splits)
qed simp

lemma turn_enabled:
  assumes "\<not> xr_over st"
  shows "\<exists>t. own t \<and> exec_turn lk closing t st \<noteq> None"
proof (cases "xr_code st = None")
  case True
  then show ?thesis using assms by (intro exI [of _ WaitTurn]) (simp add: exec_turn_def own_def)
next
  case code: False
  show ?thesis
  proof (cases "list_all (\<lambda>p. snd p = None) (io_pumps st)")
    case True
    then show ?thesis using assms code by (intro exI [of _ EndTurn]) (auto simp: exec_turn_def own_def)
  next
    case False
    then obtain i c rs where i: "i < length (io_pumps st)" "io_pumps st ! i = (c, Some rs)"
      unfolding list_all_length by (metis option.exhaust prod.collapse)
    then show ?thesis
      by (intro exI [of _ "PumpTurn i"], cases rs rule: text_of.cases)
        (auto simp: exec_turn_def own_def pump_turn_def put_def split_beta Let_def)
  qed
qed

lemma session_can_end: "\<exists>ts st'. list_all own ts \<and> exec_turns lk closing ts st = Some st' \<and> xr_over st'"
proof (induction "turns_left st" arbitrary: st rule: less_induct)
  case less
  show ?case
  proof (cases "xr_over st")
    case True
    then show ?thesis by (intro exI [of _ "[]"] exI [of _ st]) simp
  next
    case False
    then obtain t st1 where t: "own t" "exec_turn lk closing t st = Some st1"
      using turn_enabled [of st lk closing] by auto
    with less [of st1] own_turn_less [OF t(2)]
    obtain ts st' where "list_all own ts" "exec_turns lk closing ts st1 = Some st'" "xr_over st'" by auto
    with t show ?thesis by (intro exI [of _ "t # ts"] exI [of _ st']) simp
  qed
qed

end
