(* ===== verification/Crun_Io.thy ===== *)
theory Crun_Io
  imports Stream_Run
begin

section \<open>Interactive runs of crun\<close>

text \<open>
  The part of \<open>crates/runtime/src/crun.rs\<close> that starts \<open>crun\<close> and keeps its streams: the piped
  \<open>exec_streaming\<close>, and \<open>exec_tty\<close> and \<open>run_tty\<close>, which receive the master of a pseudo-terminal over a
  console socket. Starting the program, the socket and the kernel's control messages are
  arguments (\<open>crun_io\<close>); a file descriptor is known by the reads it gives. \<open>accept\<close> has no deadline
  in the code: \<open>ci_accept\<close> is \<open>None\<close> when \<open>crun\<close> never connects, and then the caller waits for ever, which is
  the result \<open>None\<close>.
\<close>

record child =
  ch_stdout :: reads
  ch_stderr :: reads
  ch_wait :: "int option"

datatype 'fd ancillary = ScmRights "'fd list" | OtherMessage

record 'z crun_io =
  ci_spawn :: "string \<Rightarrow> string list \<Rightarrow> io_error + child"
  ci_bind :: "fpath \<Rightarrow> ('z os_scheme, io_error, unit) prog"
  ci_accept :: "(io_error + unit) option"
  ci_recvmsg :: "io_error + reads ancillary list"
  ci_wait :: "child \<Rightarrow> io_error + int option"

record exec_handle =
  eh_stdout :: reads
  eh_stderr :: "reads option"
  eh_wait :: "int option"

definition exec_streaming_args :: "fpath \<Rightarrow> string \<Rightarrow> string list \<Rightarrow> bool \<Rightarrow> string list" where
  "exec_streaming_args root i cmd tty =
     [''--root'', path_display root, ''exec''] @ (if tty then [''-t''] else []) @ [i] @ cmd"

definition exec_streaming :: "'z crun_io \<Rightarrow> string \<Rightarrow> fpath \<Rightarrow> string \<Rightarrow> string list \<Rightarrow> bool \<Rightarrow> io_error + exec_handle" where
  "exec_streaming lib bin root i cmd tty =
     rbind (ci_spawn lib bin (exec_streaming_args root i cmd tty)) (\<lambda>c.
       Inr \<lparr>eh_stdout = ch_stdout c, eh_stderr = (if tty then None else Some (ch_stderr c)), eh_wait = ch_wait c\<rparr>)"

subsection \<open>The console socket\<close>

text \<open>The first descriptor of the first message that carries any.\<close>

fun first_fd :: "'fd ancillary list \<Rightarrow> 'fd option" where
  "first_fd (ScmRights (fd # _) # _) = Some fd"
| "first_fd (_ # msgs) = first_fd msgs"
| "first_fd [] = None"

definition recv_console_fd :: "'z crun_io \<Rightarrow> io_error + reads" where
  "recv_console_fd lib = rbind (ci_recvmsg lib) (\<lambda>msgs. ok_or Fault (first_fd msgs))"

definition exec_tty_args :: "fpath \<Rightarrow> string \<Rightarrow> string list \<Rightarrow> fpath \<Rightarrow> string list" where
  "exec_tty_args root i cmd sock =
     [''--root'', path_display root, ''exec'', ''-t'', ''--console-socket'', path_display sock, i] @ cmd"

definition accept_console :: "'z crun_io \<Rightarrow> ('z os_scheme, io_error, 'a) prog \<Rightarrow> ('z os_scheme, io_error, 'a option) prog" where
  "accept_console lib m =
     (case ci_accept lib of
        None \<Rightarrow> pret None
      | Some r \<Rightarrow> pseq (plift r) (pbind m (\<lambda>x. pret (Some x))))"

definition exec_tty ::
  "'z crun_io \<Rightarrow> string \<Rightarrow> fpath \<Rightarrow> string \<Rightarrow> string list \<Rightarrow> fpath \<Rightarrow> ('z os_scheme, io_error, (child \<times> reads) option) prog" where
  "exec_tty lib bin root i cmd sock =
     pseq (attempt (remove_file sock))
     (pseq (ci_bind lib sock)
     (pbind (plift (ci_spawn lib bin (exec_tty_args root i cmd sock))) (\<lambda>c.
      accept_console lib (pbind (plift (recv_console_fd lib)) (\<lambda>master. pret (c, master))))))"

definition run_tty_args :: "fpath \<Rightarrow> fpath \<Rightarrow> string \<Rightarrow> fpath \<Rightarrow> bool \<Rightarrow> string list" where
  "run_tty_args root bundle i sock no_pivot =
     [''--root'', path_display root, ''run''] @ (if no_pivot then [''--no-pivot''] else [])
     @ [''--detach'', ''--console-socket'', path_display sock, ''--bundle'', path_display bundle, i]"

text \<open>The descriptor is received before the child is waited for, and judged after.\<close>

definition run_tty ::
  "'z crun_io \<Rightarrow> string \<Rightarrow> fpath \<Rightarrow> fpath \<Rightarrow> string \<Rightarrow> fpath \<Rightarrow> bool \<Rightarrow> ('z os_scheme, io_error, reads option) prog" where
  "run_tty lib bin root bundle i sock no_pivot =
     pseq (attempt (remove_file sock))
     (pseq (ci_bind lib sock)
     (pbind (plift (ci_spawn lib bin (run_tty_args root bundle i sock no_pivot))) (\<lambda>c.
      accept_console lib
      (let master = recv_console_fd lib in
       pbind (plift (ci_wait lib c)) (\<lambda>code.
       pbind (plift master) (\<lambda>m. if code = Some 0 then pret m else pfail Fault))))))"

subsection \<open>Errors\<close>

lemma exec_streaming_error: "exec_streaming lib bin root i cmd tty = Inl e \<longleftrightarrow> ci_spawn lib bin (exec_streaming_args root i cmd tty) = Inl e"
  by (cases "ci_spawn lib bin (exec_streaming_args root i cmd tty)") (simp_all add: exec_streaming_def rbind_def)

lemma exec_streaming_tty: "exec_streaming lib bin root i cmd tty = Inr h \<Longrightarrow> tty \<longleftrightarrow> eh_stderr h = None"
  by (cases "ci_spawn lib bin (exec_streaming_args root i cmd tty)") (auto simp: exec_streaming_def rbind_def split: if_splits)

lemma run_tty_running:
  assumes "run_tty lib bin root bundle i sock no_pivot w = (Inr (Some m), w')"
  shows "recv_console_fd lib = Inr m \<and> (\<exists>c. ci_spawn lib bin (run_tty_args root bundle i sock no_pivot) = Inr c \<and> ci_wait lib c = Inr (Some 0))"
  using assms by (auto simp: run_tty_def accept_console_def prog_Inr Let_def split: if_splits option.splits)

lemma exec_tty_waits:
  assumes "exec_tty lib bin root i cmd sock w = (Inr None, w')"
  shows "ci_accept lib = None \<and> (\<exists>c. ci_spawn lib bin (exec_tty_args root i cmd sock) = Inr c)"
  using assms by (auto simp: exec_tty_def accept_console_def prog_Inr split: option.splits)

end
