(* ===== verification/Streaming.thy ===== *)
theory Streaming
  imports Stream_Sessions Crun_Io Spdy_Mux
begin

section \<open>The streaming server\<close>

text \<open>
  \<open>crates/cri/src/streaming.rs\<close>: the HTTP endpoints and the sessions they start, over WebSocket and
  over SPDY. A session that pumps is an \<open>exec_run\<close> of \<open>Stream_Run\<close>; how it closes is the list of
  frames sent last. The HTTP library decides whether a request is a WebSocket upgrade and which
  protocol was agreed; what a socket gives or accepts, the container's live output and the reply to
  a connect are arguments.
\<close>

definition CH_STDIN :: u8 where "CH_STDIN = 0"
definition CH_STDOUT :: u8 where "CH_STDOUT = 1"
definition CH_STDERR :: u8 where "CH_STDERR = 2"
definition CH_ERROR :: u8 where "CH_ERROR = 3"

lemmas channels = CH_STDIN_def CH_STDOUT_def CH_STDERR_def CH_ERROR_def

definition WS_PROTOCOLS :: "string list" where
  "WS_PROTOCOLS = [''v5.channel.k8s.io'', ''v4.channel.k8s.io'', ''channel.k8s.io'']"

definition close_normal :: u16 where "close_normal = 1000"

subsection \<open>The endpoints\<close>

datatype endpoint = ExecEndpoint | AttachEndpoint | PortForwardEndpoint

text \<open>The headers of a request by lower-case name; a value that is not text is \<open>None\<close>.\<close>

type_synonym http_headers = "(string \<times> string option) list"

definition header_get :: "string \<Rightarrow> http_headers \<Rightarrow> string option" where
  "header_get name hs = Option.bind (map_of hs name) id"

definition header_all :: "string \<Rightarrow> http_headers \<Rightarrow> string list" where
  "header_all name hs = List.map_filter (\<lambda>(n, v). if n = name then v else None) hs"

definition wants_spdy :: "http_headers \<Rightarrow> bool" where
  "wants_spdy hs = eq_ignore_ascii_case (unwrap_or [] (header_get ''upgrade'' hs)) ''SPDY/3.1''"

definition offered_protocols :: "http_headers \<Rightarrow> string list" where
  "offered_protocols hs = map trim (concat (map (split_char (CHR '','')) (header_all ''x-stream-protocol-version'' hs)))"

definition negotiate :: "string list \<Rightarrow> string" where
  "negotiate offered =
     (if ''v4.channel.k8s.io'' \<in> set offered then ''v4.channel.k8s.io''
      else case offered of p # _ \<Rightarrow> p | [] \<Rightarrow> ''v4.channel.k8s.io'')"

text \<open>The response, and the task that goes on with the upgraded connection.\<close>

datatype 'r response = SwitchSpdy string | SwitchWs "string list" | Rejection 'r

datatype stream_task = SpdyTask endpoint string | WsTask endpoint string

definition spdy_upgrade :: "http_headers \<Rightarrow> string \<Rightarrow> endpoint \<Rightarrow> 'r response \<times> stream_task option" where
  "spdy_upgrade hs token ep = (SwitchSpdy (negotiate (offered_protocols hs)), Some (SpdyTask ep token))"

definition ws_upgrade ::
  "(http_headers \<Rightarrow> 'r + unit) \<Rightarrow> http_headers \<Rightarrow> string list \<Rightarrow> string \<Rightarrow> endpoint \<Rightarrow> 'r response \<times> stream_task option" where
  "ws_upgrade ws hs protocols token ep =
     (case ws hs of Inr _ \<Rightarrow> (SwitchWs protocols, Some (WsTask ep token)) | Inl rej \<Rightarrow> (Rejection rej, None))"

definition exec_entry :: "(http_headers \<Rightarrow> 'r + unit) \<Rightarrow> string \<Rightarrow> http_headers \<Rightarrow> 'r response \<times> stream_task option" where
  "exec_entry ws token hs =
     (if wants_spdy hs then spdy_upgrade hs token ExecEndpoint else ws_upgrade ws hs WS_PROTOCOLS token ExecEndpoint)"

definition attach_entry :: "(http_headers \<Rightarrow> 'r + unit) \<Rightarrow> string \<Rightarrow> http_headers \<Rightarrow> 'r response \<times> stream_task option" where
  "attach_entry ws token hs =
     (if wants_spdy hs then spdy_upgrade hs token AttachEndpoint else ws_upgrade ws hs WS_PROTOCOLS token AttachEndpoint)"

definition portforward_entry :: "(http_headers \<Rightarrow> 'r + unit) \<Rightarrow> string \<Rightarrow> http_headers \<Rightarrow> 'r response \<times> stream_task option" where
  "portforward_entry ws token hs =
     (if wants_spdy hs then spdy_upgrade hs token PortForwardEndpoint
      else ws_upgrade ws hs [''v4.channel.k8s.io'', ''portforward.k8s.io''] token PortForwardEndpoint)"

text \<open>The router, on the segments of the path and any method.\<close>

fun router :: "(http_headers \<Rightarrow> 'r + unit) \<Rightarrow> string list \<Rightarrow> http_headers \<Rightarrow> ('r response \<times> stream_task option) option" where
  "router ws [kind, token] hs =
     (if kind = ''exec'' then Some (exec_entry ws token hs)
      else if kind = ''attach'' then Some (attach_entry ws token hs)
      else if kind = ''portforward'' then Some (portforward_entry ws token hs)
      else None)"
| "router ws _ hs = None"

subsection \<open>Exec over a WebSocket\<close>

datatype ws_message = WsBinary bytes | WsClose "(u16 \<times> string) option" | WsOther

definition ws_frame :: "u8 \<Rightarrow> bytes \<Rightarrow> bytes" where
  "ws_frame channel payload = channel # payload"

definition ws_link :: "(ws_message \<Rightarrow> 'w \<Rightarrow> bool \<times> 'w) \<Rightarrow> (u8, ws_message, 'w, unit) link" where
  "ws_link send = \<lparr>lk_chunk = (\<lambda>c bs. WsBinary (ws_frame c bs)), lk_send = send, lk_other = (\<lambda>_ w. w)\<rparr>"

text \<open>What the two session kinds need besides the client's connection.\<close>

record 'z stream_lib =
  sl_crun :: "'z crun_io"
  sl_json :: "json \<Rightarrow> string"
  sl_show_io :: "io_error \<Rightarrow> string"

definition ended :: "('c, 'f, 'w, 'g) link \<Rightarrow> 'f list \<Rightarrow> 'w \<Rightarrow> ('c, 'f, 'w) exec_run" where
  "ended lk fs w = (put_all lk fs (exec_start w [] None))\<lparr>xr_over := True\<rparr>"

definition has_error_channel :: "string \<Rightarrow> bool" where
  "has_error_channel proto \<longleftrightarrow> proto \<noteq> ''channel.k8s.io'' \<and> proto \<noteq> []"

definition ws_closing :: "(json \<Rightarrow> string) \<Rightarrow> string \<Rightarrow> int \<Rightarrow> ws_message list" where
  "ws_closing js proto code =
     (if has_error_channel proto then [WsBinary (ws_frame CH_ERROR (status_exit js code))]
      else if code \<noteq> 0
      then [WsBinary (ws_frame CH_STDERR (str_bytes (''command terminated with exit code '' @ dec_int code)))]
      else [])
     @ [WsClose (Some (close_normal, []))]"

definition ws_refusal :: "(json \<Rightarrow> string) \<Rightarrow> string \<Rightarrow> string \<Rightarrow> ws_message list" where
  "ws_refusal js msg reason = [WsBinary (ws_frame CH_ERROR (status_failure js msg)), WsClose (Some (close_normal, reason))]"

definition exec_pumps :: "exec_handle \<Rightarrow> (u8 \<times> reads) list" where
  "exec_pumps h = (CH_STDOUT, eh_stdout h) # (case eh_stderr h of None \<Rightarrow> [] | Some se \<Rightarrow> [(CH_STDERR, se)])"

definition handle_exec ::
  "'z stream_lib \<Rightarrow> (ws_message \<Rightarrow> 'w \<Rightarrow> bool \<times> 'w) \<Rightarrow> string \<Rightarrow> sessions \<Rightarrow> 'w \<Rightarrow> (u8, ws_message, 'w) exec_run \<times> sessions" where
  "handle_exec lib send token s w =
     (let (x, s) = take_exec token s in
      case x of
        None \<Rightarrow> (ended (ws_link send) (ws_refusal (sl_json lib) ''unknown or expired exec token'' ''unknown or expired exec token'') w, s)
      | Some session \<Rightarrow>
          (case exec_streaming (sl_crun lib) (ss_crun_bin s) (ss_crun_root s) (xs_container_id session) (xs_cmd session) (xs_tty session) of
             Inl e \<Rightarrow> (ended (ws_link send) (ws_refusal (sl_json lib) (''crun exec: '' @ sl_show_io lib e) ''exec spawn failed'') w, s)
           | Inr h \<Rightarrow> (exec_start w (exec_pumps h) (eh_wait h), s)))"

text \<open>The task that feeds the process: the frames on channel 0 until the connection ends or fails
  (\<open>None\<close>), or the process no longer takes its input. The rest is drained.\<close>

fun ws_stdin :: "(bytes \<Rightarrow> 'p \<Rightarrow> bool \<times> 'p) \<Rightarrow> ws_message option list \<Rightarrow> 'p \<Rightarrow> 'p" where
  "ws_stdin write (Some (WsBinary (c # payload)) # rest) p =
     (if c = CH_STDIN then (let (good, p) = write payload p in if good then ws_stdin write rest p else p)
      else ws_stdin write rest p)"
| "ws_stdin write (Some _ # rest) p = ws_stdin write rest p"
| "ws_stdin write _ p = p"

subsection \<open>Attach over a WebSocket\<close>

text \<open>What a subscriber of the live output receives; \<open>BusLagged\<close> stands for frames it was too slow
  for. The end of the list is the end of the container.\<close>

datatype bus_item = BusFrame u8 bytes | BusLagged | BusClosed

fun attach_loop ::
  "('c, 'f, 'w, 'g) link \<Rightarrow> (u8 \<Rightarrow> bytes \<Rightarrow> 'f option) \<Rightarrow> bus_item list \<Rightarrow> ('c, 'f, 'w) io_run \<Rightarrow> ('c, 'f, 'w) io_run" where
  "attach_loop lk mk (BusFrame channel payload # rest) st =
     (case mk channel payload of
        None \<Rightarrow> attach_loop lk mk rest st
      | Some f \<Rightarrow> (let (good, st) = put lk f st in if good then attach_loop lk mk rest st else st))"
| "attach_loop lk mk (BusLagged # rest) st = attach_loop lk mk rest st"
| "attach_loop lk mk _ st = st"

definition io_start :: "'w \<Rightarrow> ('c, 'f, 'w) io_run" where
  "io_start w = \<lparr>io_sink = w, io_log = [], io_pumps = []\<rparr>"

definition handle_attach ::
  "(ws_message \<Rightarrow> 'w \<Rightarrow> bool \<times> 'w) \<Rightarrow> (nat \<Rightarrow> bus_item list) \<Rightarrow> string \<Rightarrow> sessions \<Rightarrow> 'w \<Rightarrow> (u8, ws_message, 'w) io_run \<times> sessions" where
  "handle_attach send bus token s w =
     (let (x, s) = take_attach token s; lk = ws_link send in
      case x of
        None \<Rightarrow> (io_start w, s)
      | Some session \<Rightarrow>
          (case subscribe_live (at_container_id session) s of
             None \<Rightarrow>
               (put_all lk [WsBinary (ws_frame CH_ERROR (str_bytes ''{\"status\":\"Failure\",\"message\":\"container not running\"}''))] (io_start w), s)
           | Some b \<Rightarrow>
               (put_all lk [WsBinary (ws_frame CH_ERROR (str_bytes ''{\"status\":\"Success\"}'')), WsClose None]
                  (attach_loop lk (\<lambda>c bs. Some (WsBinary (ws_frame c bs))) (bus b) (io_start w)), s)))"

subsection \<open>Port forwarding over a WebSocket\<close>

text \<open>
  Connections are numbered in the order they are tried (\<open>pf_dials\<close>); \<open>pf_connect\<close> says what came of
  a try, the reads of the new connection or an error. \<open>pf_wrote\<close> is the sequence of writes to the
  connections, whose results the source drops. The loop over the messages and the pumps from the
  connections take turns.
\<close>

record 'w pf_run = "(u8, ws_message, 'w) io_run" +
  pf_in :: "ws_message option list"
  pf_writers :: "u8 \<Rightarrow> nat option"
  pf_dials :: "(string \<times> u16) list"
  pf_wrote :: "(nat \<times> bytes) list"

record pf_lib =
  pf_connect :: "nat \<Rightarrow> string \<Rightarrow> u16 \<Rightarrow> io_error + reads"
  pf_show_io :: "io_error \<Rightarrow> string"

definition le_u16 :: "u8 \<Rightarrow> u8 \<Rightarrow> u16" where
  "le_u16 lo hi = or (ucast lo) (push_bit 8 (ucast hi))"

definition pf_failure :: "u16 \<Rightarrow> string \<Rightarrow> bytes" where
  "pf_failure port e =
     str_bytes (''{\"status\":\"Failure\",\"message\":\"connect 127.0.0.1:'' @ dec (unat port) @ '': '' @ e @ ''\"}'')"

definition pf_open ::
  "pf_lib \<Rightarrow> (u8, ws_message, 'w, unit) link \<Rightarrow> string \<Rightarrow> u8 \<Rightarrow> u16 \<Rightarrow> bytes \<Rightarrow> 'w pf_run \<Rightarrow> 'w pf_run" where
  "pf_open lib lk host channel port rest st =
     (let k = length (pf_dials st); st = st\<lparr>pf_dials := pf_dials st @ [(host, port)]\<rparr> in
      case pf_connect lib k host port of
        Inr reads \<Rightarrow>
          st\<lparr>pf_writers := (pf_writers st)(channel \<mapsto> k), io_pumps := io_pumps st @ [(channel, Some reads)],
             pf_wrote := (if rest \<noteq> [] then pf_wrote st @ [(k, rest)] else pf_wrote st)\<rparr>
      | Inl e \<Rightarrow> snd (put lk (WsBinary (ws_frame (channel + 1) (pf_failure port (pf_show_io lib e)))) st))"

fun pf_message :: "pf_lib \<Rightarrow> (u8, ws_message, 'w, unit) link \<Rightarrow> string \<Rightarrow> ws_message \<Rightarrow> 'w pf_run \<Rightarrow> 'w pf_run" where
  "pf_message lib lk host (WsBinary (channel # payload)) st =
     (if channel mod 2 = 1 then st
      else case pf_writers st channel of
             Some k \<Rightarrow> st\<lparr>pf_wrote := pf_wrote st @ [(k, payload)]\<rparr>
           | None \<Rightarrow>
               (case payload of
                  lo # hi # rest \<Rightarrow> pf_open lib lk host channel (le_u16 lo hi) rest st
                | _ \<Rightarrow> st))"
| "pf_message lib lk host _ st = st"

datatype pf_turn = PfMessage | PfPump nat

definition pf_step ::
  "pf_lib \<Rightarrow> (u8, ws_message, 'w, unit) link \<Rightarrow> string \<Rightarrow> pf_turn \<Rightarrow> 'w pf_run \<Rightarrow> 'w pf_run option" where
  "pf_step lib lk host t st =
     (case t of
        PfMessage \<Rightarrow>
          (case pf_in st of
             Some m # rest \<Rightarrow> Some (pf_message lib lk host m (st\<lparr>pf_in := rest\<rparr>))
           | _ \<Rightarrow> None)
      | PfPump i \<Rightarrow> pump_turn lk i st)"

fun pf_steps ::
  "pf_lib \<Rightarrow> (u8, ws_message, 'w, unit) link \<Rightarrow> string \<Rightarrow> pf_turn list \<Rightarrow> 'w pf_run \<Rightarrow> 'w pf_run option" where
  "pf_steps lib lk host [] st = Some st"
| "pf_steps lib lk host (t # ts) st = Option.bind (pf_step lib lk host t st) (pf_steps lib lk host ts)"

definition pf_start :: "ws_message option list \<Rightarrow> 'w \<Rightarrow> 'w pf_run" where
  "pf_start msgs w =
     \<lparr>io_sink = w, io_log = [], io_pumps = [], pf_in = msgs, pf_writers = (\<lambda>_. None), pf_dials = [], pf_wrote = []\<rparr>"

text \<open>The state the handler starts from and the address it dials; \<open>None\<close> when the token is unknown.\<close>

definition handle_portforward ::
  "string \<Rightarrow> sessions \<Rightarrow> ws_message option list \<Rightarrow> 'w \<Rightarrow> (string \<times> 'w pf_run) option \<times> sessions" where
  "handle_portforward token s msgs w =
     (let (x, s) = take_portforward token s in (map_option (\<lambda>session. (ps_host session, pf_start msgs w)) x, s))"

subsection \<open>The streams of a SPDY session\<close>

definition HEADER_PORT :: string where "HEADER_PORT = ''port''"
definition ST_ERROR :: string where "ST_ERROR = ''error''"
definition ST_STDIN :: string where "ST_STDIN = ''stdin''"
definition ST_STDOUT :: string where "ST_STDOUT = ''stdout''"
definition ST_STDERR :: string where "ST_STDERR = ''stderr''"
definition ST_RESIZE :: string where "ST_RESIZE = ''resize''"

lemmas stream_kinds = ST_ERROR_def ST_STDIN_def ST_STDOUT_def ST_STDERR_def ST_RESIZE_def

text \<open>What \<open>accept\<close> gives: a stream with its channel, its number and its headers, or that the peer is
  gone, or that ten seconds passed. An empty list is a peer that is gone.\<close>

datatype arrival = Arrived nat u32 headers | PeerGone | Idle

record rc_streams =
  rc_error :: "u32 option"
  rc_stdout :: "u32 option"
  rc_stderr :: "u32 option"
  rc_stdin :: "nat option"

definition rc_none :: rc_streams where
  "rc_none = \<lparr>rc_error = None, rc_stdout = None, rc_stderr = None, rc_stdin = None\<rparr>"

definition rc_have :: "bool \<Rightarrow> bool \<Rightarrow> bool \<Rightarrow> rc_streams \<Rightarrow> bool" where
  "rc_have want_stdin want_stdout want_stderr rc \<longleftrightarrow>
     rc_error rc \<noteq> None \<and> (want_stdout \<longrightarrow> rc_stdout rc \<noteq> None) \<and> (want_stdin \<longrightarrow> rc_stdin rc \<noteq> None)
     \<and> (want_stderr \<longrightarrow> rc_stderr rc \<noteq> None)"

definition rc_add :: "nat \<Rightarrow> u32 \<Rightarrow> headers \<Rightarrow> rc_streams \<Rightarrow> rc_streams" where
  "rc_add ch sid hs rc =
     (case stream_type hs of
        Some t \<Rightarrow>
          if t = ST_ERROR then rc\<lparr>rc_error := Some sid\<rparr>
          else if t = ST_STDOUT then rc\<lparr>rc_stdout := Some sid\<rparr>
          else if t = ST_STDERR then rc\<lparr>rc_stderr := Some sid\<rparr>
          else if t = ST_STDIN then rc\<lparr>rc_stdin := Some ch\<rparr>
          else rc
      | None \<Rightarrow> rc)"

fun collect_rc_streams :: "bool \<Rightarrow> bool \<Rightarrow> bool \<Rightarrow> arrival list \<Rightarrow> rc_streams \<Rightarrow> rc_streams" where
  "collect_rc_streams want_stdin want_stdout want_stderr (Arrived ch sid hs # rest) rc =
     (if rc_have want_stdin want_stdout want_stderr rc then rc
      else collect_rc_streams want_stdin want_stdout want_stderr rest (rc_add ch sid hs rc))"
| "collect_rc_streams want_stdin want_stdout want_stderr _ rc = rc"

text \<open>The arrivals of a connection that \<open>Spdy_Mux\<close> has read, and the chunks of one channel.\<close>

definition arrivals_of :: "spdy_event list \<Rightarrow> arrival list" where
  "arrivals_of evs = List.map_filter (\<lambda>e. case e of EvOpen ch sid hs \<Rightarrow> Some (Arrived ch sid hs) | _ \<Rightarrow> None) evs"

definition channel_data :: "nat \<Rightarrow> spdy_event list \<Rightarrow> bytes list" where
  "channel_data ch evs = List.map_filter (\<lambda>e. case e of EvData c bs \<Rightarrow> if c = ch then Some bs else None | _ \<Rightarrow> None) evs"

subsection \<open>Exec over SPDY\<close>

text \<open>What a session does to the connection and to the file system, in the order of its statements;
  between its own actions the reader of the connection may handle a frame.\<close>

datatype spdy_act = ActData u32 bool bytes | ActGoaway u32 | ActUnlink fpath

fun spdy_perform ::
  "('d, 'i, 'w) spdy_env \<Rightarrow> spdy_act \<Rightarrow> ('d, 'i, 'w) spdy_conn \<times> 'z os_scheme \<Rightarrow> bool \<times> ('d, 'i, 'w) spdy_conn \<times> 'z os_scheme" where
  "spdy_perform env (ActData sid fin bs) (c, w) = (let (r, c) = send_data env sid fin bs c in (ok r \<noteq> None, c, w))"
| "spdy_perform env (ActGoaway sid) (c, w) = (let (r, c) = spdy_goaway env sid c in (ok r \<noteq> None, c, w))"
| "spdy_perform env (ActUnlink p) (c, w) = (let (r, w) = remove_file p w in (ok r \<noteq> None, c, w))"

definition spdy_link ::
  "('d, 'i, 'w) spdy_env \<Rightarrow> (u32, spdy_act, ('d, 'i, 'w) spdy_conn \<times> 'z os_scheme, spdy_frame) link" where
  "spdy_link env =
     \<lparr>lk_chunk = (\<lambda>sid bs. ActData sid False bs), lk_send = spdy_perform env,
      lk_other = (\<lambda>f (c, w). (snd (handle_frame env f c), w))\<rparr>"

definition on_error :: "rc_streams \<Rightarrow> bytes \<Rightarrow> spdy_act list" where
  "on_error rc msg = (case rc_error rc of Some eid \<Rightarrow> [ActData eid True msg] | None \<Rightarrow> [])"

definition spdy_closing :: "(json \<Rightarrow> string) \<Rightarrow> rc_streams \<Rightarrow> fpath option \<Rightarrow> int \<Rightarrow> spdy_act list" where
  "spdy_closing js rc sock code =
     (case sock of Some p \<Rightarrow> [ActUnlink p] | None \<Rightarrow> []) @ on_error rc (status_exit js code) @ [ActGoaway 0]"

definition console_socket :: "fpath \<Rightarrow> string \<Rightarrow> fpath" where
  "console_socket root token = fjoin root (''xc'' @ take 12 token @ ''.sock'')"

definition spdy_pumps :: "rc_streams \<Rightarrow> exec_handle \<Rightarrow> (u32 \<times> reads) list" where
  "spdy_pumps rc h =
     (case rc_stdout rc of Some oid \<Rightarrow> [(oid, eh_stdout h)] | None \<Rightarrow> [])
     @ (case (rc_stderr rc, eh_stderr h) of (Some eid, Some se) \<Rightarrow> [(eid, se)] | _ \<Rightarrow> [])"

definition session_streams :: "exec_session \<Rightarrow> arrival list \<Rightarrow> rc_streams" where
  "session_streams x arrivals =
     collect_rc_streams (xs_stdin x) (xs_stdout x) (xs_stderr x \<and> \<not> xs_tty x) arrivals rc_none"

text \<open>The run and its closing frames; no run is a terminal session that waits for \<open>crun\<close> to connect.\<close>

definition spdy_exec ::
  "'z stream_lib \<Rightarrow> ('d, 'i, 'w) spdy_env \<Rightarrow> arrival list \<Rightarrow> string \<Rightarrow> sessions \<Rightarrow> ('d, 'i, 'w) spdy_conn \<times> 'z os_scheme
   \<Rightarrow> ((u32, spdy_act, ('d, 'i, 'w) spdy_conn \<times> 'z os_scheme) exec_run \<times> (int \<Rightarrow> spdy_act list)) option \<times> sessions" where
  "spdy_exec lib env arrivals token s cw =
     (let (x, s) = take_exec token s; lk = spdy_link env in
      case x of
        None \<Rightarrow> (Some (ended lk [ActGoaway 0] cw, \<lambda>_. []), s)
      | Some session \<Rightarrow>
          (let rc = session_streams session arrivals in
           if xs_tty session then
             (let sock = console_socket (ss_crun_root s) token;
                  (r, w) = exec_tty (sl_crun lib) (ss_crun_bin s) (ss_crun_root s) (xs_container_id session) (xs_cmd session) sock (snd cw) in
              case r of
                Inl e \<Rightarrow>
                  (Some (ended lk (on_error rc (status_failure (sl_json lib) (''crun exec -t: '' @ sl_show_io lib e)) @ [ActGoaway 0]) (fst cw, w), \<lambda>_. []), s)
              | Inr None \<Rightarrow> (None, s)
              | Inr (Some (c, master)) \<Rightarrow>
                  (Some (exec_start (fst cw, w) (case rc_stdout rc of Some oid \<Rightarrow> [(oid, master)] | None \<Rightarrow> []) (ch_wait c),
                     spdy_closing (sl_json lib) rc (Some sock)), s))
           else
             (case exec_streaming (sl_crun lib) (ss_crun_bin s) (ss_crun_root s) (xs_container_id session) (xs_cmd session) (xs_tty session) of
                Inl e \<Rightarrow>
                  (Some (ended lk (on_error rc (status_failure (sl_json lib) (''crun exec: '' @ sl_show_io lib e)) @ [ActGoaway 0]) cw, \<lambda>_. []), s)
              | Inr h \<Rightarrow>
                  (Some (exec_start cw (spdy_pumps rc h) (eh_wait h), spdy_closing (sl_json lib) rc None), s))))"

text \<open>The task that feeds the process from the stdin stream: chunk by chunk, until the stream closes
  or a write fails.\<close>

fun feed :: "(bytes \<Rightarrow> 'p \<Rightarrow> bool \<times> 'p) \<Rightarrow> bytes list \<Rightarrow> 'p \<Rightarrow> bool \<times> 'p" where
  "feed write [] p = (True, p)"
| "feed write (chunk # rest) p = (let (good, p) = write chunk p in if good then feed write rest p else (False, p))"

definition stdin_chunks :: "rc_streams \<Rightarrow> spdy_event list \<Rightarrow> bytes list" where
  "stdin_chunks rc evs = (case rc_stdin rc of Some ch \<Rightarrow> channel_data ch evs | None \<Rightarrow> [])"

subsection \<open>Attach over SPDY\<close>

text \<open>The stdin of a container, and whether its write end is still there. The task that feeds it
  stops when it is gone or a write fails, and drops it at the end of a session with \<open>stdin_once\<close>.\<close>

record 'p stdin_pipe =
  sd_pipe :: 'p
  sd_open :: bool

fun attach_feed :: "(bytes \<Rightarrow> 'p \<Rightarrow> bool \<times> 'p) \<Rightarrow> bytes list \<Rightarrow> 'p stdin_pipe \<Rightarrow> 'p stdin_pipe" where
  "attach_feed write (chunk # rest) h =
     (if sd_open h then
        (let (good, p) = write chunk (sd_pipe h); h = h\<lparr>sd_pipe := p\<rparr> in if good then attach_feed write rest h else h)
      else h)"
| "attach_feed write [] h = h"

definition attach_stdin :: "(bytes \<Rightarrow> 'p \<Rightarrow> bool \<times> 'p) \<Rightarrow> bool \<Rightarrow> bytes list \<Rightarrow> 'p stdin_pipe \<Rightarrow> 'p stdin_pipe" where
  "attach_stdin write stdin_once chunks h =
     (let h = attach_feed write chunks h in if stdin_once then h\<lparr>sd_open := False\<rparr> else h)"

definition attach_target :: "rc_streams \<Rightarrow> u8 \<Rightarrow> bytes \<Rightarrow> spdy_act option" where
  "attach_target rc channel payload =
     map_option (\<lambda>sid. ActData sid False payload) (if channel = CH_STDERR then rc_stderr rc else rc_stdout rc)"

definition attach_streams :: "attach_session \<Rightarrow> arrival list \<Rightarrow> rc_streams" where
  "attach_streams x arrivals =
     collect_rc_streams (at_stdin x) (at_stdout x) (at_stderr x \<and> \<not> at_tty x) arrivals rc_none"

definition spdy_attach ::
  "'z stream_lib \<Rightarrow> ('d, 'i, 'w) spdy_env \<Rightarrow> (nat \<Rightarrow> bus_item list) \<Rightarrow> arrival list \<Rightarrow> string \<Rightarrow> sessions
   \<Rightarrow> ('d, 'i, 'w) spdy_conn \<times> 'z os_scheme
   \<Rightarrow> (u32, spdy_act, ('d, 'i, 'w) spdy_conn \<times> 'z os_scheme) io_run \<times> sessions" where
  "spdy_attach lib env bus arrivals token s cw =
     (let (x, s) = take_attach token s; lk = spdy_link env in
      case x of
        None \<Rightarrow> (put_all lk [ActGoaway 0] (io_start cw), s)
      | Some session \<Rightarrow>
          (let rc = attach_streams session arrivals in
           case subscribe_live (at_container_id session) s of
             None \<Rightarrow> (put_all lk (on_error rc (status_failure (sl_json lib) ''container not running'') @ [ActGoaway 0]) (io_start cw), s)
           | Some b \<Rightarrow>
               (put_all lk (on_error rc status_success @ [ActGoaway 0])
                  (attach_loop lk (attach_target rc) (bus b) (io_start cw)), s)))"

text \<open>Which pipe the stdin stream of an attach session feeds, if any.\<close>

definition attach_stdin_pipe :: "attach_session \<Rightarrow> arrival list \<Rightarrow> sessions \<Rightarrow> (nat \<times> nat) option" where
  "attach_stdin_pipe x arrivals s =
     (case (rc_stdin (attach_streams x arrivals), stdin_handle (at_container_id x) s) of
        (Some ch, Some h) \<Rightarrow> Some (ch, h)
      | _ \<Rightarrow> None)"

subsection \<open>Port forwarding over SPDY\<close>

text \<open>\<open>sp_feeds\<close> lists the tasks from a data stream to a connection, as channel and connection.\<close>

record ('cw) spf_run = "(u32, spdy_act, 'cw) io_run" +
  sp_errors :: "u16 \<Rightarrow> u32 option"
  sp_dials :: "(string \<times> u16) list"
  sp_feeds :: "(nat \<times> nat) list"

definition stream_port :: "headers \<Rightarrow> u16" where
  "stream_port hs = unwrap_or 0 (Option.bind (header hs HEADER_PORT) (\<lambda>p. map_option of_nat (parse_unsigned 16 p)))"

definition spf_accept ::
  "(json \<Rightarrow> string) \<Rightarrow> pf_lib \<Rightarrow> (u32, spdy_act, 'cw, 'g) link \<Rightarrow> string \<Rightarrow> nat \<Rightarrow> u32 \<Rightarrow> headers \<Rightarrow> 'cw spf_run \<Rightarrow> 'cw spf_run" where
  "spf_accept js lib lk host ch sid hs st =
     (let port = stream_port hs in
      if stream_type hs = Some ST_ERROR then st\<lparr>sp_errors := (sp_errors st)(port \<mapsto> sid)\<rparr>
      else
        (let err = unwrap_or sid (sp_errors st port); k = length (sp_dials st);
             st = st\<lparr>sp_dials := sp_dials st @ [(host, port)]\<rparr> in
         case pf_connect lib k host port of
           Inr reads \<Rightarrow> st\<lparr>io_pumps := io_pumps st @ [(sid, Some reads)], sp_feeds := sp_feeds st @ [(ch, k)]\<rparr>
         | Inl e \<Rightarrow>
             snd (put lk (ActData err True (status_failure js (''connect 127.0.0.1:'' @ dec (unat port) @ '': '' @ pf_show_io lib e))) st)))"

datatype 'g spf_turn = SpfAccept | SpfPump nat | SpfOther 'g

definition spf_step ::
  "(json \<Rightarrow> string) \<Rightarrow> pf_lib \<Rightarrow> (u32, spdy_act, 'cw, 'g) link \<Rightarrow> string \<Rightarrow> 'g spf_turn \<Rightarrow> arrival list \<times> 'cw spf_run
   \<Rightarrow> (arrival list \<times> 'cw spf_run) option" where
  "spf_step js lib lk host t ast =
     (case (t, ast) of
        (SpfAccept, Arrived ch sid hs # rest, st) \<Rightarrow> Some (rest, spf_accept js lib lk host ch sid hs st)
      | (SpfAccept, _, st) \<Rightarrow> None
      | (SpfPump i, arrivals, st) \<Rightarrow> map_option (Pair arrivals) (pump_turn lk i st)
      | (SpfOther g, arrivals, st) \<Rightarrow> Some (arrivals, st\<lparr>io_sink := lk_other lk g (io_sink st)\<rparr>))"

definition spf_start :: "'cw \<Rightarrow> 'cw spf_run" where
  "spf_start cw = \<lparr>io_sink = cw, io_log = [], io_pumps = [], sp_errors = (\<lambda>_. None), sp_dials = [], sp_feeds = []\<rparr>"

definition spdy_portforward ::
  "('d, 'i, 'w) spdy_env \<Rightarrow> string \<Rightarrow> sessions \<Rightarrow> ('d, 'i, 'w) spdy_conn \<times> 'z os_scheme
   \<Rightarrow> (string option \<times> (('d, 'i, 'w) spdy_conn \<times> 'z os_scheme) spf_run) \<times> sessions" where
  "spdy_portforward env token s cw =
     (let (x, s) = take_portforward token s in
      case x of
        None \<Rightarrow> ((None, snd (put (spdy_link env) (ActGoaway 0) (spf_start cw))), s)
      | Some session \<Rightarrow> ((Some (ps_host session), spf_start cw), s))"

end
