(* ===== verification/Streaming_Properties.thy ===== *)
theory Streaming_Properties
  imports Streaming
begin

section \<open>What the streaming sessions guarantee\<close>

text \<open>
  The two kinds of client connection satisfy the contract \<open>client_link\<close>, so the facts of
  \<open>Stream_Run\<close> hold of both: the process's output arrives complete and in order before the exit
  status, and every session ends. Then the order of forwarded bytes and of attached output.
\<close>

fun ws_demux :: "ws_message \<Rightarrow> (u8 \<times> bytes) option" where
  "ws_demux (WsBinary (c # bs)) = Some (c, bs)"
| "ws_demux _ = None"

fun spdy_demux :: "spdy_act \<Rightarrow> (u32 \<times> bytes) option" where
  "spdy_demux (ActData sid False bs) = Some (sid, bs)"
| "spdy_demux _ = None"

interpretation wsl: client_link "ws_link send" ws_demux for send
  by unfold_locales (simp add: ws_link_def ws_frame_def)

interpretation spl: client_link "spdy_link env" spdy_demux for env
  by unfold_locales (simp add: spdy_link_def)

subsection \<open>Exec\<close>

text \<open>C10. An exec session over a WebSocket, under every schedule of its tasks: what the client gets is
  first the process's output, on the stdout and the stderr channel the bytes of the pipes in
  their order and complete unless a send failed, and only then the frames that report the exit
  code and close the connection. A process without an exit code is reported as -1.\<close>

theorem exec_ws_delivers:
  assumes "ss_exec s token = Some x"
    and "exec_streaming (sl_crun lib) (ss_crun_bin s) (ss_crun_root s) (xs_container_id x) (xs_cmd x) (xs_tty x) = Inr h"
    and "exec_turns (ws_link send) (ws_closing (sl_json lib) proto) ts (fst (handle_exec lib send token s w)) = Some st"
  shows "delivers ws_demux (exec_pumps h) (ws_closing (sl_json lib) proto (exit_code (eh_wait h))) (xr_over st) (io_log st)"
proof -
  have "fst (handle_exec lib send token s w) = exec_start w (exec_pumps h) (eh_wait h)"
    using assms(1,2) by (simp add: handle_exec_def take_defs)
  moreover have "distinct (map fst (exec_pumps h))"
    by (simp add: exec_pumps_def channels split: option.splits)
  ultimately show ?thesis using wsl.exec_delivers assms(3) by metis
qed

text \<open>SPDY requires that a client opens every stream under a number of its own.\<close>

definition own_numbers :: "arrival list \<Rightarrow> bool" where
  "own_numbers arrivals \<longleftrightarrow>
     distinct (List.map_filter (\<lambda>a. case a of Arrived _ sid _ \<Rightarrow> Some sid | _ \<Rightarrow> None) arrivals)"

lemma own_numbersD:
  "own_numbers arrivals \<Longrightarrow> Arrived ch sid hs \<in> set arrivals \<Longrightarrow> Arrived ch' sid hs' \<in> set arrivals \<Longrightarrow> hs = hs'"
proof (induction arrivals)
  case (Cons a rest)
  have "sid \<in> set (List.map_filter (\<lambda>a. case a of Arrived _ sid _ \<Rightarrow> Some sid | _ \<Rightarrow> None) rest)"
    if "Arrived c sid h \<in> set rest" for c h
    using that by (force simp: List.map_filter_def image_iff)
  with Cons show ?case by (auto simp: own_numbers_def map_filter_simps split: arrival.splits)
qed simp

lemma collect_ids:
  "rc_stdout (collect_rc_streams a b c arrivals rc) = Some o' \<Longrightarrow>
     rc_stdout rc = Some o' \<or> (\<exists>ch hs. Arrived ch o' hs \<in> set arrivals \<and> stream_type hs = Some ST_STDOUT)"
  "rc_stderr (collect_rc_streams a b c arrivals rc) = Some e \<Longrightarrow>
     rc_stderr rc = Some e \<or> (\<exists>ch hs. Arrived ch e hs \<in> set arrivals \<and> stream_type hs = Some ST_STDERR)"
  by (induction a b c arrivals rc rule: collect_rc_streams.induct)
    (fastforce simp: rc_add_def split: if_splits option.splits)+

lemma streams_differ:
  assumes "own_numbers arrivals" "rc = collect_rc_streams a b c arrivals rc_none" "rc_stdout rc = Some i" "rc_stderr rc = Some j"
  shows "i \<noteq> j"
proof
  assume "i = j"
  with collect_ids [of a b c arrivals rc_none] assms(2-4)
  obtain ch hs ch' hs' where "Arrived ch i hs \<in> set arrivals" "stream_type hs = Some ST_STDOUT"
    "Arrived ch' i hs' \<in> set arrivals" "stream_type hs' = Some ST_STDERR"
    by (auto simp: rc_none_def)
  with own_numbersD [OF assms(1), of ch i hs ch' hs'] show False by (auto simp: stream_kinds)
qed

text \<open>The process of a session: on a terminal it has one stream, the master, and a socket to remove.\<close>

definition exec_process ::
  "'z stream_lib \<Rightarrow> sessions \<Rightarrow> string \<Rightarrow> exec_session \<Rightarrow> 'z os_scheme \<Rightarrow> exec_handle \<Rightarrow> fpath option \<Rightarrow> bool" where
  "exec_process lib s token x w h sock \<longleftrightarrow>
     (if xs_tty x
      then \<exists>c master w'. exec_tty (sl_crun lib) (ss_crun_bin s) (ss_crun_root s) (xs_container_id x) (xs_cmd x)
               (console_socket (ss_crun_root s) token) w = (Inr (Some (c, master)), w')
             \<and> h = \<lparr>eh_stdout = master, eh_stderr = None, eh_wait = ch_wait c\<rparr>
             \<and> sock = Some (console_socket (ss_crun_root s) token)
      else exec_streaming (sl_crun lib) (ss_crun_bin s) (ss_crun_root s) (xs_container_id x) (xs_cmd x) False = Inr h
           \<and> sock = None)"

lemma spdy_exec_started:
  assumes "ss_exec s token = Some x" "exec_process lib s token x (snd cw) h sock"
  shows "\<exists>cw'. spdy_exec lib env arrivals token s cw =
           (Some (exec_start cw' (spdy_pumps (session_streams x arrivals) h) (eh_wait h),
              spdy_closing (sl_json lib) (session_streams x arrivals) sock), snd (take_exec token s))"
proof (cases "xs_tty x")
  case True
  then obtain c master w' where tty: "exec_tty (sl_crun lib) (ss_crun_bin s) (ss_crun_root s) (xs_container_id x) (xs_cmd x)
        (console_socket (ss_crun_root s) token) (snd cw) = (Inr (Some (c, master)), w')"
      "h = \<lparr>eh_stdout = master, eh_stderr = None, eh_wait = ch_wait c\<rparr>" "sock = Some (console_socket (ss_crun_root s) token)"
    using assms(2) by (auto simp: exec_process_def)
  with True assms(1) show ?thesis
    by (intro exI [of _ "(fst cw, w')"])
      (simp add: spdy_exec_def take_defs Let_def spdy_pumps_def split: option.splits)
next
  case False
  with assms show ?thesis
    by (intro exI [of _ cw]) (simp add: exec_process_def spdy_exec_def take_defs Let_def)
qed

text \<open>C13. The same over SPDY, with or without a terminal, and with the connection's reader handling
  frames of the client in between: the data frames on the stdout and stderr streams carry the
  process's output in order and complete unless a send failed; only then follow the removal of the
  console socket, the exit status on the error stream and the GOAWAY.\<close>

theorem exec_spdy_delivers:
  assumes "ss_exec s token = Some x" "exec_process lib s token x (snd cw) h sock" "own_numbers arrivals"
    and "spdy_exec lib env arrivals token s cw = (Some (st0, closing), s')"
    and "exec_turns (spdy_link env) closing ts st0 = Some st"
  shows "delivers spdy_demux (spdy_pumps (session_streams x arrivals) h)
           (spdy_closing (sl_json lib) (session_streams x arrivals) sock (exit_code (eh_wait h))) (xr_over st) (io_log st)"
proof -
  have "distinct (map fst (spdy_pumps (session_streams x arrivals) h))"
    using streams_differ [OF assms(3)] by (auto simp: spdy_pumps_def session_streams_def split: option.splits)
  then show ?thesis
    using spdy_exec_started [OF assms(1,2), of env arrivals] assms(4,5) spl.exec_delivers by fastforce
qed

lemma turns_left_start: "turns_left (exec_start w ps code) = sum_list (map (\<lambda>(c, rs). Suc (length rs)) ps) + 2"
  by (simp add: turns_left_def exec_start_def o_def case_prod_unfold)


subsection \<open>Port forwarding\<close>

text \<open>The bytes written to a connection, and the bytes a client put on a channel.\<close>

definition written :: "nat \<Rightarrow> (nat \<times> bytes) list \<Rightarrow> bytes" where
  "written k ws = concat (map (\<lambda>(j, bs). if j = k then bs else []) ws)"

fun on_channel :: "u8 \<Rightarrow> ws_message \<Rightarrow> bytes" where
  "on_channel c (WsBinary (d # bs)) = (if d = c then bs else [])"
| "on_channel c _ = []"

definition payloads :: "u8 \<Rightarrow> ws_message list \<Rightarrow> bytes" where
  "payloads c msgs = concat (map (on_channel c) msgs)"

lemma written_simps [simp]:
  "written k [] = []" "written k (ws @ [(j, bs)]) = written k ws @ (if j = k then bs else [])"
  by (simp_all add: written_def)

lemma payloads_simps [simp]: "payloads c [] = []" "payloads c (ms @ [m]) = payloads c ms @ on_channel c m"
  by (simp_all add: payloads_def)

text \<open>\<open>past\<close> are the messages handled so far. Every open channel goes to a connection of its own, that
  was dialled for the port in the frame that opened the channel and has been sent exactly what
  the client put on the channel since, in its order.\<close>

definition forwards :: "string \<Rightarrow> ws_message list \<Rightarrow> 'w pf_run \<Rightarrow> u8 \<Rightarrow> nat \<Rightarrow> bool" where
  "forwards host past st c k \<longleftrightarrow>
     (\<exists>before lo hi rest after. past = before @ WsBinary (c # lo # hi # rest) # after
        \<and> k < length (pf_dials st) \<and> pf_dials st ! k = (host, le_u16 lo hi)
        \<and> written k (pf_wrote st) = rest @ payloads c after)"

definition pf_inv :: "string \<Rightarrow> ws_message list \<Rightarrow> 'w pf_run \<Rightarrow> bool" where
  "pf_inv host past st \<longleftrightarrow>
     (\<forall>c k. pf_writers st c = Some k \<longrightarrow> forwards host past st c k)
     \<and> inj_on (pf_writers st) (dom (pf_writers st))
     \<and> (\<forall>c. pf_writers st c \<noteq> None \<longrightarrow> c mod 2 \<noteq> 1)
     \<and> (\<forall>(k, bs) \<in> set (pf_wrote st). Some k \<in> range (pf_writers st))"

lemma pf_inv_start: "pf_inv host [] (pf_start msgs w)"
  by (simp add: pf_inv_def pf_start_def)

lemma forwards_more:
  assumes "forwards host past st c k" "pf_dials st' = pf_dials st @ ds"
    "written k (pf_wrote st') = written k (pf_wrote st) @ on_channel c m"
  shows "forwards host (past @ [m]) st' c k"
proof -
  obtain before lo hi rest after where "past = before @ WsBinary (c # lo # hi # rest) # after"
      "k < length (pf_dials st)" "pf_dials st ! k = (host, le_u16 lo hi)" "written k (pf_wrote st) = rest @ payloads c after"
    using assms(1) by (auto simp: forwards_def)
  then show ?thesis
    unfolding forwards_def using assms(2,3)
    by (intro exI [of _ before] exI [of _ lo] exI [of _ hi] exI [of _ rest] exI [of _ "after @ [m]"]) (simp add: nth_append)
qed

lemma pf_inv_keep:
  assumes "pf_inv host past st" "pf_writers st' = pf_writers st" "pf_dials st' = pf_dials st @ ds" "pf_wrote st' = pf_wrote st"
    "\<And>c. pf_writers st c \<noteq> None \<Longrightarrow> on_channel c m = []"
  shows "pf_inv host (past @ [m]) st'"
  using assms(1,2,4) forwards_more [OF _ assms(3), of host past _ _ m] assms(4,5)
  by (auto simp: pf_inv_def)

lemma pf_inv_fresh:
  assumes "pf_inv host past st" "length (pf_dials st) \<le> k"
  shows "written k (pf_wrote st) = []" "pf_writers st c \<noteq> Some k"
proof -
  show no: "pf_writers st c \<noteq> Some k" for c
    using assms unfolding pf_inv_def forwards_def by (meson linorder_not_le)
  have "(j, bs) \<in> set (pf_wrote st) \<Longrightarrow> j \<noteq> k" for j bs
    using assms(1) no by (fastforce simp: pf_inv_def)
  then show "written k (pf_wrote st) = []" by (auto simp: written_def)
qed

lemma pf_inv_write:
  assumes "pf_inv host past st" "pf_writers st c = Some k"
  shows "pf_inv host (past @ [WsBinary (c # bs)]) (st\<lparr>pf_wrote := pf_wrote st @ [(k, bs)]\<rparr>)"
proof -
  have "forwards host (past @ [WsBinary (c # bs)]) (st\<lparr>pf_wrote := pf_wrote st @ [(k, bs)]\<rparr>) d j"
    if "pf_writers st d = Some j" for d j
  proof (rule forwards_more [where st = st and ds = "[]"])
    show "forwards host past st d j" using assms(1) that by (simp add: pf_inv_def)
    have "c = d \<longleftrightarrow> k = j" using assms that by (auto simp: pf_inv_def inj_on_def dom_def)
    then show "written j (pf_wrote (st\<lparr>pf_wrote := pf_wrote st @ [(k, bs)]\<rparr>)) = written j (pf_wrote st) @ on_channel d (WsBinary (c # bs))"
      by simp
  qed simp
  moreover have "Some k \<in> range (pf_writers st)" using assms(2) by (metis rangeI)
  ultimately show ?thesis using assms(1) by (auto simp: pf_inv_def)
qed

lemma pf_inv_open:
  assumes "pf_inv host past st" "pf_writers st c = None" "c mod 2 \<noteq> 1"
  shows "pf_inv host (past @ [WsBinary (c # lo # hi # rest)]) (pf_open lib lk host c (le_u16 lo hi) rest st)"
proof (cases "pf_connect lib (length (pf_dials st)) host (le_u16 lo hi)")
  case (Inl e)
  show ?thesis
    by (rule pf_inv_keep [OF assms(1), where ds = "[(host, le_u16 lo hi)]"])
      (use Inl assms(2) in \<open>auto simp: pf_open_def put_def split_beta Let_def\<close>)
next
  case (Inr reads)
  let ?k = "length (pf_dials st)" and ?m = "WsBinary (c # lo # hi # rest)"
  let ?st = "pf_open lib lk host c (le_u16 lo hi) rest st"
  note fresh = pf_inv_fresh [OF assms(1), of ?k, OF order_refl]
  have st: "pf_dials ?st = pf_dials st @ [(host, le_u16 lo hi)]" "pf_writers ?st = (pf_writers st)(c \<mapsto> ?k)"
      "written j (pf_wrote ?st) = written j (pf_wrote st) @ (if j = ?k then rest else [])"
      "set (pf_wrote ?st) \<subseteq> set (pf_wrote st) \<union> {(?k, rest)}" for j
    using Inr by (auto simp: pf_open_def Let_def)
  have "forwards host (past @ [?m]) ?st d j" if "pf_writers ?st d = Some j" for d j
  proof (cases "d = c")
    case True
    with that st have "j = ?k" by simp
    then show ?thesis unfolding forwards_def
      using True st fresh(1) by (intro exI [of _ past] exI [of _ lo] exI [of _ hi] exI [of _ rest] exI [of _ "[]"]) simp
  next
    case False
    with that st have d: "pf_writers st d = Some j" by simp
    show ?thesis
      using d fresh(2) False st(3) [of j] assms(1)
      by (intro forwards_more [OF _ st(1)]) (auto simp: pf_inv_def)
  qed
  moreover have "inj_on (pf_writers ?st) (dom (pf_writers ?st))"
    using assms fresh(2) unfolding st(2) by (fastforce simp: pf_inv_def inj_on_def dom_def)
  moreover have "Some j \<in> range (pf_writers ?st)" if "(j, bs) \<in> set (pf_wrote ?st)" for j bs
  proof (cases "j = ?k")
    case True
    then show ?thesis unfolding st(2) by (metis fun_upd_same rangeI)
  next
    case False
    with that st(4) assms(1) have "Some j \<in> range (pf_writers st)" by (auto simp: pf_inv_def)
    then obtain d where "pf_writers st d = Some j" by auto
    with assms(2) have "pf_writers ?st d = Some j" unfolding st(2) by auto
    then show ?thesis by (metis rangeI)
  qed
  moreover have "d mod 2 \<noteq> 1" if "pf_writers ?st d \<noteq> None" for d
    using that assms unfolding st(2) by (auto simp: pf_inv_def split: if_splits)
  ultimately show ?thesis by (auto simp: pf_inv_def)
qed

lemma pf_inv_message:
  assumes "pf_inv host past st"
  shows "pf_inv host (past @ [m]) (pf_message lib lk host m st)"
proof (cases "(lib, lk, host, m, st)" rule: pf_message.cases)
  case (1 lib lk host channel payload st)
  then have inv: "pf_inv host past st" using assms by simp
  have odd: "pf_inv host (past @ [m]) st" if "pf_writers st channel = None"
    by (rule pf_inv_keep [OF inv, where ds = "[]"]) (use 1 that in auto)
  show ?thesis
  proof (cases "pf_writers st channel")
    case None
    then show ?thesis
      using 1 odd pf_inv_open [OF inv None] by (auto split: list.splits)
  next
    case (Some k)
    then show ?thesis using 1 pf_inv_write [OF inv Some] inv by (simp add: pf_inv_def)
  qed
qed (use assms in \<open>auto intro!: pf_inv_keep [where ds = "[]"]\<close>)

lemma pf_message_in: "pf_in (pf_message lib lk host m (st\<lparr>pf_in := rest\<rparr>)) = rest"
  by (cases "(lib, lk, host, m, st\<lparr>pf_in := rest\<rparr>)" rule: pf_message.cases)
    (auto simp: pf_open_def put_def split_beta Let_def split: option.splits list.splits sum.splits)

lemma pf_inv_steps:
  assumes "pf_steps lib lk host ts st = Some st'" "pf_inv host past st"
  shows "\<exists>more. pf_in st = map Some more @ pf_in st' \<and> pf_inv host (past @ more) st'"
  using assms
proof (induction ts arbitrary: st past)
  case (Cons t ts)
  then obtain st1 where t: "pf_step lib lk host t st = Some st1" and ts: "pf_steps lib lk host ts st1 = Some st'"
    by (auto simp: bind_eq_Some_conv)
  show ?case
  proof (cases t)
    case PfMessage
    then obtain m rest where m: "pf_in st = Some m # rest" "st1 = pf_message lib lk host m (st\<lparr>pf_in := rest\<rparr>)"
      using t by (auto simp: pf_step_def split: list.splits option.splits)
    have "pf_inv host past (st\<lparr>pf_in := rest\<rparr>)" using Cons.prems(2) by (simp add: pf_inv_def forwards_def)
    then have "pf_inv host (past @ [m]) st1" unfolding m(2) by (rule pf_inv_message)
    then obtain more where "pf_in st1 = map Some more @ pf_in st'" "pf_inv host ((past @ [m]) @ more) st'"
      using Cons.IH [OF ts] by blast
    moreover have "pf_in st1 = rest" unfolding m(2) by (rule pf_message_in)
    ultimately show ?thesis using m(1) by (intro exI [of _ "m # more"]) simp
  next
    case (PfPump i)
    then have turn: "pump_turn lk i st = Some st1" using t by (simp add: pf_step_def)
    have same: "pf_in st1 = pf_in st" "pf_writers st1 = pf_writers st" "pf_dials st1 = pf_dials st" "pf_wrote st1 = pf_wrote st"
      by (rule pump_turn_cases [OF turn], simp_all)+
    have "pf_inv host past st1" using Cons.prems(2) unfolding pf_inv_def forwards_def same .
    then show ?thesis using Cons.IH [OF ts] same(1) by auto
  qed
qed auto


text \<open>When a connect fails, the channel stays unopened: the next frame on it, which carries data of the
  client, is taken for another port header and its first two bytes are dialled.\<close>

theorem portforward_misreads_data:
  assumes "c mod 2 \<noteq> 1" "pf_connect lib 0 host (le_u16 lo hi) = Inl e"
    and "st = pf_message lib lk host (WsBinary (c # a # b # payload)) (pf_message lib lk host (WsBinary [c, lo, hi]) (pf_start [] w))"
  shows "pf_dials st = [(host, le_u16 lo hi), (host, le_u16 a b)]"
  unfolding assms(3) using assms(1,2)
  by (auto simp: pf_start_def pf_open_def put_def split_beta Let_def split: sum.splits)

subsection \<open>Attach\<close>

text \<open>The frames a subscriber is to be sent: those received before the bus closed, less the ones for
  a stream the client did not open.\<close>

fun bus_frames :: "(u8 \<Rightarrow> bytes \<Rightarrow> 'f option) \<Rightarrow> bus_item list \<Rightarrow> 'f list" where
  "bus_frames mk (BusFrame c bs # rest) = (case mk c bs of Some f \<Rightarrow> [f] | None \<Rightarrow> []) @ bus_frames mk rest"
| "bus_frames mk (BusLagged # rest) = bus_frames mk rest"
| "bus_frames mk _ = []"

definition relayed :: "'f list \<Rightarrow> 'f list \<Rightarrow> ('f \<times> bool) list \<Rightarrow> bool" where
  "relayed frames closing sent \<longleftrightarrow>
     (\<exists>lg fin. sent = lg @ fin \<and> prefix (map fst lg) frames \<and> (list_all snd lg \<longrightarrow> map fst lg = frames)
        \<and> map fst fin = closing)"

lemma attach_loop_relays:
  "\<exists>lg. io_log (attach_loop lk mk items st) = io_log st @ lg \<and> prefix (map fst lg) (bus_frames mk items)
        \<and> (list_all snd lg \<longrightarrow> map fst lg = bus_frames mk items)"
proof (induction lk mk items st rule: attach_loop.induct)
  case (1 lk mk c bs rest st)
  show ?case
  proof (cases "mk c bs")
    case None
    then show ?thesis using 1(1) by simp
  next
    case (Some f)
    obtain good w where p: "put lk f st = (good, st\<lparr>io_sink := w, io_log := io_log st @ [(f, good)]\<rparr>)"
      by (simp add: put_def split_beta Let_def)
    show ?thesis
    proof (cases good)
      case True
      then obtain lg where "io_log (attach_loop lk mk rest (st\<lparr>io_sink := w, io_log := io_log st @ [(f, True)]\<rparr>)) = io_log st @ (f, True) # lg"
          "prefix (map fst lg) (bus_frames mk rest)" "list_all snd lg \<longrightarrow> map fst lg = bus_frames mk rest"
        using 1(2) [OF Some p [symmetric] refl] p by auto
      then show ?thesis using Some p True by (intro exI [of _ "(f, True) # lg"]) simp
    next
      case False
      then show ?thesis using Some p by (intro exI [of _ "[(f, False)]"]) simp
    qed
  qed
qed auto

lemma put_all_io_log: "\<exists>fin. io_log (put_all lk fs st) = io_log st @ fin \<and> map fst fin = fs"
proof (induction fs arbitrary: st)
  case (Cons f fs)
  then show ?case using Cons [of "snd (put lk f st)"] by (auto simp: put_def split_beta Let_def)
qed simp

text \<open>An attach session over SPDY relays the container's live output: every frame received from
  the container goes to the client's stderr or stdout stream, in order and none left out unless a
  send failed, and when the container is gone the success status and the GOAWAY follow. Frames
  for a stream that the client did not open are dropped.\<close>

theorem attach_spdy_relays:
  assumes "ss_attach s token = Some x" "subscribe_live (at_container_id x) s = Some b"
  shows "relayed (bus_frames (attach_target (attach_streams x arrivals)) (bus b))
           (on_error (attach_streams x arrivals) status_success @ [ActGoaway 0])
           (io_log (fst (spdy_attach lib env bus arrivals token s cw)))"
proof -
  let ?rc = "attach_streams x arrivals" and ?lk = "spdy_link env"
  let ?st = "attach_loop ?lk (attach_target ?rc) (bus b) (io_start cw)"
  have st: "fst (spdy_attach lib env bus arrivals token s cw) = put_all ?lk (on_error ?rc status_success @ [ActGoaway 0]) ?st"
    using assms by (simp add: spdy_attach_def take_defs subscribe_live_def Let_def)
  obtain lg where "io_log ?st = lg" "prefix (map fst lg) (bus_frames (attach_target ?rc) (bus b))"
      "list_all snd lg \<longrightarrow> map fst lg = bus_frames (attach_target ?rc) (bus b)"
    using attach_loop_relays [of ?lk "attach_target ?rc" "bus b" "io_start cw"] by (auto simp: io_start_def)
  moreover obtain fin where "io_log (put_all ?lk (on_error ?rc status_success @ [ActGoaway 0]) ?st) = io_log ?st @ fin"
      "map fst fin = on_error ?rc status_success @ [ActGoaway 0]"
    using put_all_io_log by blast
  ultimately show ?thesis unfolding relayed_def st by metis
qed

text \<open>Closing the client's stdin ends the container's stdin exactly for \<open>stdin_once\<close>.\<close>

lemma attach_feed_open: "sd_open (attach_feed write chunks h) = sd_open h"
  by (induction chunks arbitrary: h) (auto simp: Let_def split: prod.splits)

lemma attach_stdin_eof: "sd_open h \<Longrightarrow> sd_open (attach_stdin write once chunks h) \<longleftrightarrow> \<not> once"
  by (simp add: attach_stdin_def attach_feed_open Let_def)

subsection \<open>An example\<close>

text \<open>A shell that prints two chunks, one line on stderr and exits with 3; a client whose sends succeed;
  a peer that refuses port 81.\<close>

definition sample_child :: child where
  "sample_child = \<lparr>ch_stdout = [Some [104, 105], Some [33]], ch_stderr = [Some [101]], ch_wait = Some 3\<rparr>"

definition sample_stream_lib :: "unit stream_lib" where
  "sample_stream_lib =
     \<lparr>sl_crun = \<lparr>ci_spawn = (\<lambda>_ _. Inr sample_child), ci_bind = (\<lambda>_. pret ()), ci_accept = Some (Inr ()),
                 ci_recvmsg = Inr [], ci_wait = (\<lambda>_. Inr (Some 0))\<rparr>,
      sl_json = (\<lambda>_. ''{}''), sl_show_io = (\<lambda>_. ''io'')\<rparr>"

definition sample_pending :: sessions where
  "sample_pending =
     (sessions_new [''run''])\<lparr>ss_exec := [''t'' \<mapsto> sample_exec],
        ss_attach := [''a'' \<mapsto> \<lparr>at_container_id = ''c1'', at_stdin = False, at_stdout = True, at_stderr = True, at_tty = False, at_stdin_once = False\<rparr>],
        ss_live := [''c1'' \<mapsto> 0]\<rparr>"

definition sample_send :: "ws_message \<Rightarrow> ws_message list \<Rightarrow> bool \<times> ws_message list" where
  "sample_send m w = (True, w @ [m])"

definition sample_turns :: "'g turn list" where
  "sample_turns = [PumpTurn 0, WaitTurn, PumpTurn 1, PumpTurn 0, PumpTurn 0, PumpTurn 1, EndTurn]"

definition sample_handle :: exec_handle where
  "sample_handle = \<lparr>eh_stdout = ch_stdout sample_child, eh_stderr = Some (ch_stderr sample_child), eh_wait = Some 3\<rparr>"

lemmas stream_samples = sample_child_def sample_stream_lib_def sample_pending_def sample_send_def sample_turns_def
  sample_handle_def sample_exec_def

lemmas stream_eval = exec_turn_def pump_turn_def put_def exec_start_def exec_streaming_def rbind_def exec_pumps_def
  channels ws_link_def ws_frame_def exit_code_def unwrap_or_def

theorem exec_ws_delivers_witness:
  "\<exists>st. exec_turns (ws_link sample_send) (ws_closing (\<lambda>_. ''{}'') ''v4.channel.k8s.io'') sample_turns
          (fst (handle_exec sample_stream_lib sample_send ''t'' sample_pending [])) = Some st
        \<and> xr_over st \<and> length (io_log st) = 5
        \<and> delivers ws_demux (exec_pumps sample_handle) (ws_closing (\<lambda>_. ''{}'') ''v4.channel.k8s.io'' 3) True (io_log st)"
proof -
  have x: "ss_exec sample_pending ''t'' = Some sample_exec" by (simp add: sample_pending_def)
  have h: "exec_streaming (sl_crun sample_stream_lib) (ss_crun_bin sample_pending) (ss_crun_root sample_pending)
      (xs_container_id sample_exec) (xs_cmd sample_exec) (xs_tty sample_exec) = Inr sample_handle"
    by (simp add: stream_samples exec_streaming_def rbind_def)
  have run: "\<exists>st. exec_turns (ws_link sample_send) (ws_closing (\<lambda>_. ''{}'') ''v4.channel.k8s.io'') sample_turns
          (fst (handle_exec sample_stream_lib sample_send ''t'' sample_pending [])) = Some st \<and> xr_over st \<and> length (io_log st) = 5"
    by (simp add: stream_samples stream_eval handle_exec_def take_defs ws_closing_def has_error_channel_def Let_def)
  then obtain st where st: "exec_turns (ws_link sample_send) (ws_closing (\<lambda>_. ''{}'') ''v4.channel.k8s.io'') sample_turns
          (fst (handle_exec sample_stream_lib sample_send ''t'' sample_pending [])) = Some st" "xr_over st" "length (io_log st) = 5"
    by blast
  have "sl_json sample_stream_lib = (\<lambda>_. ''{}'')" "exit_code (eh_wait sample_handle) = 3"
    by (simp_all add: stream_samples exit_code_def unwrap_or_def)
  then show ?thesis
    using exec_ws_delivers [OF x h, of sample_send "''v4.channel.k8s.io''" sample_turns "[]" st] st by auto
qed

definition sample_arrivals :: "arrival list" where
  "sample_arrivals =
     [Arrived 0 1 [(''streamtype'', ''error'')], Arrived 1 3 [(''streamtype'', ''stdin'')],
      Arrived 2 5 [(''streamtype'', ''stdout'')], Arrived 3 7 [(''streamtype'', ''stderr'')]]"

definition sample_cw :: "(unit, bool, bytes) spdy_conn \<times> os" where
  "sample_cw = (new_conn sample_env [], \<lparr>os_fs = [], os_sched = [], os_pid = 7, os_seq = 0\<rparr>)"

definition sample_rc :: rc_streams where
  "sample_rc = \<lparr>rc_error = Some 1, rc_stdout = Some 5, rc_stderr = Some 7, rc_stdin = Some 1\<rparr>"

lemma sample_session_streams: "session_streams sample_exec sample_arrivals = sample_rc"
  by code_simp

lemma sample_data_sent: "length bs < 100 \<Longrightarrow> fst (spdy_perform sample_env (ActData sid False bs) cw)"
  by (cases cw) (simp add: send_data_def spdy_write_def write_frame_def prog_simps sample_env_def ok_def Let_def)

lemma sample_run_ends:
  "\<exists>st. exec_turns (spdy_link sample_env) (spdy_closing (\<lambda>_. ''{}'') sample_rc None) sample_turns
          (exec_start sample_cw (spdy_pumps sample_rc sample_handle) (Some 3)) = Some st \<and> xr_over st"
  by (simp add: stream_samples stream_eval sample_rc_def spdy_pumps_def spdy_link_def Let_def split_beta put_all_log sample_data_sent)

theorem exec_spdy_delivers_witness:
  "\<exists>st. exec_turns (spdy_link sample_env) (spdy_closing (\<lambda>_. ''{}'') sample_rc None) sample_turns
          (fst (the (fst (spdy_exec sample_stream_lib sample_env sample_arrivals ''t'' sample_pending sample_cw)))) = Some st
        \<and> xr_over st
        \<and> delivers spdy_demux (spdy_pumps sample_rc sample_handle) (spdy_closing (\<lambda>_. ''{}'') sample_rc None 3) True (io_log st)"
proof -
  have x: "ss_exec sample_pending ''t'' = Some sample_exec" by (simp add: sample_pending_def)
  have p: "exec_process sample_stream_lib sample_pending ''t'' sample_exec (snd sample_cw) sample_handle None"
    by (simp add: exec_process_def stream_samples exec_streaming_def rbind_def)
  have n: "own_numbers sample_arrivals" by code_simp
  have js: "sl_json sample_stream_lib = (\<lambda>_. ''{}'')" by (simp add: stream_samples)
  have e: "spdy_exec sample_stream_lib sample_env sample_arrivals ''t'' sample_pending sample_cw =
      (Some (exec_start sample_cw (spdy_pumps sample_rc sample_handle) (Some 3), spdy_closing (\<lambda>_. ''{}'') sample_rc None), snd (take_exec ''t'' sample_pending))"
    using p x sample_session_streams
    by (simp add: spdy_exec_def take_defs exec_process_def js Let_def sample_exec_def sample_handle_def)
  obtain st where st: "exec_turns (spdy_link sample_env) (spdy_closing (\<lambda>_. ''{}'') sample_rc None) sample_turns
          (exec_start sample_cw (spdy_pumps sample_rc sample_handle) (Some 3)) = Some st" "xr_over st"
    using sample_run_ends by blast
  have "exit_code (eh_wait sample_handle) = 3" by (simp add: stream_samples exit_code_def unwrap_or_def)
  then show ?thesis
    using exec_spdy_delivers [OF x p n e st(1)] st e by (auto simp: js sample_session_streams)
qed


definition sample_pf_lib :: pf_lib where
  "sample_pf_lib = \<lparr>pf_connect = (\<lambda>k host port. if port = 81 then Inl NotFound else Inr [Some [50]]), pf_show_io = (\<lambda>_. ''refused'')\<rparr>"

definition sample_messages :: "ws_message option list" where
  "sample_messages = [Some (WsBinary [0, 80, 0, 71]), Some (WsBinary [1, 80, 0]), Some (WsBinary [2, 22, 0]), Some (WsBinary [0, 69]), Some (WsBinary [2, 9])]"


theorem portforward_misreads_data_witness:
  "pf_dials (pf_message sample_pf_lib (ws_link sample_send) ''h'' (WsBinary [0, 71, 69, 84])
      (pf_message sample_pf_lib (ws_link sample_send) ''h'' (WsBinary [0, 81, 0]) (pf_start [] []))) = [(''h'', 81), (''h'', 17735)]"
  using portforward_misreads_data [of 0 sample_pf_lib "''h''" 81 0 NotFound _ "ws_link sample_send" 71 69 "[84]" "[]", OF _ _ refl]
  by (simp add: sample_pf_lib_def le_u16_def)

theorem attach_spdy_relays_witness:
  "relayed [ActData 5 False [104], ActData 7 False [101], ActData 5 False [105]] [ActData 1 True status_success, ActGoaway 0]
     (io_log (fst (spdy_attach sample_stream_lib sample_env (\<lambda>_. [BusFrame 1 [104], BusLagged, BusFrame 2 [101], BusFrame 1 [105]])
        sample_arrivals ''a'' sample_pending sample_cw)))"
proof -
  let ?x = "\<lparr>at_container_id = ''c1'', at_stdin = False, at_stdout = True, at_stderr = True, at_tty = False, at_stdin_once = False\<rparr>"
  have rc: "attach_streams ?x sample_arrivals = sample_rc" by code_simp
  have "ss_attach sample_pending ''a'' = Some ?x" "subscribe_live (at_container_id ?x) sample_pending = Some 0"
    by (simp_all add: sample_pending_def subscribe_live_def)
  from attach_spdy_relays [OF this, of sample_arrivals "\<lambda>_. [BusFrame 1 [104], BusLagged, BusFrame 2 [101], BusFrame 1 [105]]"
      sample_stream_lib sample_env sample_cw]
  show ?thesis by (simp add: rc attach_target_def sample_rc_def channels on_error_def)
qed

subsection \<open>The form of tokens\<close>

text \<open>The registry after a history of operations, and what every pending token looks like.\<close>

fun sessions_after :: "(bytes \<Rightarrow> string) \<Rightarrow> session_op list \<Rightarrow> sessions \<Rightarrow> sessions" where
  "sessions_after sha [] s = s"
| "sessions_after sha (p # ps) s = sessions_after sha ps (snd (session_do sha p s))"

definition registry_typed :: "fpath \<Rightarrow> sessions \<Rightarrow> bool" where
  "registry_typed root s \<longleftrightarrow> ss_crun_root s = root \<and> (\<forall>t x. files s t x \<longrightarrow> wf_hex t)"

lemma registry_typed_do:
  assumes "sha_hex_ok sha" "registry_typed root s"
  shows "registry_typed root (snd (session_do sha p s))"
proof -
  have "wf_hex (next_token sha now s)" for now
    using assms(1) by (simp add: register_defs sha_hex_ok_def sha256_def)
  moreover have "files (snd (session_do sha p s)) t x \<Longrightarrow> files s t x \<or> (\<exists>now. t = next_token sha now s)" for t x
    by (cases "(sha, p, s)" rule: session_do.cases; cases x) (auto simp: take_defs register_defs split: if_splits)
  moreover have "ss_crun_root (snd (session_do sha p s)) = ss_crun_root s"
    by (cases "(sha, p, s)" rule: session_do.cases) (simp_all add: take_defs register_defs)
  ultimately show ?thesis using assms(2) unfolding registry_typed_def by metis
qed

lemma registry_typed_after:
  "sha_hex_ok sha \<Longrightarrow> registry_typed root s \<Longrightarrow> registry_typed root (sessions_after sha ps s)"
  by (induction ps arbitrary: s) (simp_all add: registry_typed_do)

lemma wf_hex_no_slash: "wf_hex t \<Longrightarrow> CHR ''/'' \<notin> set t"
proof -
  have "\<not> is_lower_hex (CHR ''/'')" by code_simp
  then show "wf_hex t \<Longrightarrow> CHR ''/'' \<notin> set t" by (auto simp: wf_hex_def list_all_iff)
qed

lemma console_socket_name: "wf_hex t \<Longrightarrow> console_socket root t = root @ [''xc'' @ take 12 t @ ''.sock'']"
proof -
  assume t: "wf_hex t"
  then have "CHR ''/'' \<notin> set (''xc'' @ take 12 t @ ''.sock'')" using wf_hex_no_slash by (auto dest: in_set_takeD)
  then show ?thesis
    by (simp add: console_socket_def fjoin_def components_def split_char_id is_absolute_def starts_with_def)
qed

text \<open>C37. The form of the registry: whatever has been registered and taken, every pending token of the
  three kinds is a 64-digit lower-case hexadecimal number, so it is one segment of a URL path; and
  the console socket that a session with such a token binds and removes is a file directly in
  the runtime's directory, never anywhere else.\<close>

theorem tokens_typed:
  assumes "sha_hex_ok sha" "files (sessions_after sha ps (sessions_new root)) t x"
  shows "wf_hex t \<and> CHR ''/'' \<notin> set t
         \<and> console_socket (ss_crun_root (sessions_after sha ps (sessions_new root))) t = root @ [''xc'' @ take 12 t @ ''.sock'']"
proof -
  have "registry_typed root (sessions_new root)"
    by (auto simp: registry_typed_def sessions_new_def elim: files.elims)
  then have typed: "registry_typed root (sessions_after sha ps (sessions_new root))"
    using registry_typed_after assms(1) by blast
  then have "wf_hex t" using assms(2) by (auto simp: registry_typed_def)
  then show ?thesis using console_socket_name wf_hex_no_slash typed by (simp add: registry_typed_def)
qed

theorem tokens_typed_witness:
  "console_socket (ss_crun_root (sessions_after sample_sha [Register 5 (SExec sample_exec)] (sessions_new [''run'', ''crun''])))
     (''35'' @ replicate 62 (CHR ''0'')) = [''run'', ''crun'', ''xc350000000000.sock'']"
proof -
  have "files (sessions_after sample_sha [Register 5 (SExec sample_exec)] (sessions_new [''run'', ''crun'']))
      (''35'' @ replicate 62 (CHR ''0'')) (SExec sample_exec)"
    by code_simp
  from tokens_typed [OF sample_sha_ok this] show ?thesis by (simp add: numeral_eq_Suc)
qed

end
