(* ===== verification/Cri_Exec.thy ===== *)
theory Cri_Exec
  imports Cri_Container Streaming_Properties
begin

section \<open>Exec, attach and port-forward requests\<close>

text \<open>
  The RPC half of the streaming: \<open>exec\<close>, \<open>attach\<close> and \<open>port_forward\<close> of \<open>crates/cri/src/server.rs\<close>
  register a session and answer with its one-time URL; \<open>exec_sync\<close> runs a command to its end or to
  its deadline. The state is the daemon's world together with the registry of \<open>Stream_Sessions\<close>.
  The small status handlers are here too.
\<close>

definition on_world :: "('d cri_os, 'e, 'a) prog \<Rightarrow> ('d cri_os \<times> sessions, 'e, 'a) prog" where
  "on_world m ws = (case m (fst ws) of (r, w) \<Rightarrow> (r, w, snd ws))"

definition on_sessions :: "(sessions \<Rightarrow> 'a \<times> sessions) \<Rightarrow> ('d cri_os \<times> sessions, 'e, 'a) prog" where
  "on_sessions f ws = (case f (snd ws) of (x, s) \<Rightarrow> (Inr x, fst ws, s))"

subsection \<open>Captured runs of crun\<close>

text \<open>\<open>run\<close>, \<open>exec\<close> and \<open>available\<close> of \<open>crates/runtime/src/crun.rs\<close>, which wait for the program and keep its output.\<close>

definition crun_run :: "fpath \<Rightarrow> fpath \<Rightarrow> string \<Rightarrow> ('d cri_os, 'e, proc_outcome) prog" where
  "crun_run root bundle i =
     run_crun [''--root'', path_display root, ''run'', ''--no-pivot'', ''--bundle'', path_display bundle, i]"

definition crun_exec :: "fpath \<Rightarrow> string \<Rightarrow> string list \<Rightarrow> ('d cri_os, 'e, proc_outcome) prog" where
  "crun_exec root i cmd = run_crun ([''--root'', path_display root, ''exec'', i] @ cmd)"

definition crun_available :: "('d cri_os, 'e, bool) prog" where
  "crun_available =
     pbind (run_crun [''--version'']) (\<lambda>r. pret (case r of ProcExit code _ _ \<Rightarrow> exit_success code | ProcError _ \<Rightarrow> False))"

subsection \<open>URLs of streaming sessions\<close>

record exec_request =
  xq_container_id :: string
  xq_cmd :: "string list"
  xq_tty :: bool
  xq_stdin :: bool
  xq_stdout :: bool
  xq_stderr :: bool

definition session_of_exec :: "exec_request \<Rightarrow> exec_session" where
  "session_of_exec req =
     \<lparr>xs_container_id = xq_container_id req, xs_cmd = xq_cmd req, xs_tty = xq_tty req, xs_stdin = xq_stdin req,
      xs_stdout = xq_stdout req, xs_stderr = xq_stderr req\<rparr>"

text \<open>\<open>now\<close> is the time in nanoseconds that goes into the token.\<close>

definition cri_exec ::
  "('d, 't, 'sec, 'b) cri_ctx \<Rightarrow> nat \<Rightarrow> exec_request \<Rightarrow> ('d cri_os \<times> sessions, rpc_status, string) prog" where
  "cri_exec cx now req =
     pseq (pguard (xq_cmd req \<noteq> []) (Status InvalidArgument (Msg ''exec cmd required'')))
     (pseq (on_world (require_container cx (xq_container_id req)))
     (pbind (on_sessions (register_exec (cx_sha cx) now (session_of_exec req))) (\<lambda>token.
        pret (cx_stream_base_url cx @ ''/exec/'' @ token))))"

record attach_request =
  aq_container_id :: string
  aq_stdin :: bool
  aq_stdout :: bool
  aq_stderr :: bool
  aq_tty :: bool

definition session_of_attach :: "attach_request \<Rightarrow> container_record \<Rightarrow> attach_session" where
  "session_of_attach req rec =
     \<lparr>at_container_id = aq_container_id req, at_stdin = aq_stdin req, at_stdout = aq_stdout req, at_stderr = aq_stderr req,
      at_tty = aq_tty req, at_stdin_once = ct_stdin_once rec\<rparr>"

definition cri_attach ::
  "('d, 't, 'sec, 'b) cri_ctx \<Rightarrow> nat \<Rightarrow> attach_request \<Rightarrow> ('d cri_os \<times> sessions, rpc_status, string) prog" where
  "cri_attach cx now req =
     pbind (on_world (require_container cx (aq_container_id req))) (\<lambda>rec.
     pbind (on_sessions (register_attach (cx_sha cx) now (session_of_attach req rec))) (\<lambda>token.
        pret (cx_stream_base_url cx @ ''/attach/'' @ token)))"

definition forward_host :: "sandbox_record \<Rightarrow> string" where
  "forward_host sb =
     (if sb_host_network sb then ''127.0.0.1''
      else case sb_ip sb of Some ip \<Rightarrow> if ip \<noteq> [] then ip else ''127.0.0.1'' | None \<Rightarrow> ''127.0.0.1'')"

definition port_forward ::
  "('d, 't, 'sec, 'b) cri_ctx \<Rightarrow> nat \<Rightarrow> string \<Rightarrow> ('d cri_os \<times> sessions, rpc_status, string) prog" where
  "port_forward cx now i =
     pbind (on_world (internal (get_sandbox cx i))) (\<lambda>r.
     pbind (plift (ok_or (Status NotFoundCode (Msg (''sandbox '' @ i @ '' not found''))) r)) (\<lambda>sb.
     pbind (on_sessions (register_portforward (cx_sha cx) now \<lparr>ps_pod_sandbox_id = i, ps_host = forward_host sb\<rparr>)) (\<lambda>token.
        pret (cx_stream_base_url cx @ ''/portforward/'' @ token))))"

subsection \<open>ExecSync\<close>

text \<open>What became of the started \<open>crun exec\<close>: its process number, the process number it wrote to the
  file, whether the deadline passed first, and how it ended. The waiting task does not panic.\<close>

record exec_child =
  ec_id :: "u32 option"
  ec_pid_file :: "bytes option"
  ec_late :: bool
  ec_end :: "io_error + int option \<times> bytes \<times> bytes"

record exec_sync_response =
  er_stdout :: bytes
  er_stderr :: bytes
  er_exit_code :: int

definition exec_sync_args :: "fpath \<Rightarrow> fpath \<Rightarrow> string \<Rightarrow> string list \<Rightarrow> string list" where
  "exec_sync_args root pid_file i cmd =
     [''--root'', path_display root, ''exec'', ''--pid-file'', path_display pid_file, i] @ cmd"

definition exec_pid_file :: "('d, 't, 'sec, 'b) cri_ctx \<Rightarrow> string \<Rightarrow> i64 \<Rightarrow> fpath" where
  "exec_pid_file cx i now = fjoin (cx_state_dir cx) (''exec-'' @ i @ ''-'' @ dec_int (sint now) @ ''.pid'')"

text \<open>A signal to a process group is a signal to the negative number.\<close>

definition pid_from_raw :: "int \<Rightarrow> int option" where
  "pid_from_raw n = (if n = 0 then None else Some n)"

definition send_kill :: "int option \<Rightarrow> ('d cri_os, 'e, unit) prog" where
  "send_kill pid = pmod (\<lambda>w. case pid of Some p \<Rightarrow> w\<lparr>cr_kills := cr_kills w @ [p]\<rparr> | None \<Rightarrow> w)"

definition exec_timed_out :: "fpath \<Rightarrow> exec_child \<Rightarrow> int \<Rightarrow> ('d, exec_sync_response) rpc" where
  "exec_timed_out pid_file c timeout' =
     pbind (attempt (read_to_string pid_file)) (\<lambda>r.
     pseq (send_kill (Option.bind (Option.bind (ok r) (\<lambda>t. parse_signed 32 (trim t))) pid_from_raw))
     (pseq (send_kill (map_option uminus (Option.bind (ec_id c) (\<lambda>g. pid_from_raw (sint g)))))
     (pseq (attempt (remove_file pid_file))
       (pfail (Status DeadlineExceeded (Msg (''exec timed out after '' @ dec_int timeout' @ ''s'')))))))"

definition exec_response :: "io_error + int option \<times> bytes \<times> bytes \<Rightarrow> ('d, exec_sync_response) rpc" where
  "exec_response r =
     plift (case r of
       Inl e \<Rightarrow> Inl (Status Internal (FromIo e))
     | Inr (code, out, err) \<Rightarrow> Inr \<lparr>er_stdout = out, er_stderr = err, er_exit_code = exit_code code\<rparr>)"

definition exec_sync ::
  "('d, 't, 'sec, 'b) cri_ctx \<Rightarrow> (string list \<Rightarrow> io_error + exec_child) \<Rightarrow> string \<Rightarrow> string list \<Rightarrow> int \<Rightarrow> ('d, exec_sync_response) rpc" where
  "exec_sync cx spawn i cmd timeout' =
     pseq (pguard (cmd \<noteq> []) (Status InvalidArgument (Msg ''exec cmd required'')))
     (pseq (require_container cx i)
     (pbind unix_nanos (\<lambda>now.
       (let pid_file = exec_pid_file cx i now in
        pbind (plift (map_err (\<lambda>e. Status Internal (FromIo e)) (spawn (exec_sync_args (crun_root cx) pid_file i cmd)))) (\<lambda>c.
        pseq (pmod (case ec_pid_file c of Some bs \<Rightarrow> set_node pid_file (File bs) | None \<Rightarrow> id))
        (pseq await
          (if 0 < timeout' then
             (if ec_late c then exec_timed_out pid_file c timeout'
              else pseq (attempt (remove_file pid_file)) (exec_response (ec_end c)))
           else
             pbind (exec_response (ec_end c)) (\<lambda>out. pseq (attempt (remove_file pid_file)) (pret out)))))))))"

subsection \<open>Version, status and configuration\<close>

definition CRI_RUNTIME_API_VERSION :: string where "CRI_RUNTIME_API_VERSION = ''0.1.0''"
definition CRI_API_VERSION :: string where "CRI_API_VERSION = ''v1''"
definition RUNTIME_NAME :: string where "RUNTIME_NAME = ''containerd-rs''"
definition CARGO_PKG_VERSION :: string where "CARGO_PKG_VERSION = ''0.4.0''"

record version_response =
  vr_version :: string
  vr_runtime_name :: string
  vr_runtime_version :: string
  vr_runtime_api_version :: string

definition cri_version :: "('d, version_response) rpc" where
  "cri_version =
     pret \<lparr>vr_version = CRI_RUNTIME_API_VERSION, vr_runtime_name = RUNTIME_NAME, vr_runtime_version = CARGO_PKG_VERSION,
           vr_runtime_api_version = CRI_API_VERSION\<rparr>"

record runtime_handler =
  rh_name :: string
  rh_recursive_read_only_mounts :: bool
  rh_user_namespaces :: bool

record status_response =
  sr_conditions :: "(string \<times> bool) list"
  sr_info :: "(string \<times> string) list"
  sr_handlers :: "runtime_handler list"

definition status_info :: "('d, 't, 'sec, 'b) cri_ctx \<Rightarrow> (json \<Rightarrow> string) \<Rightarrow> (string \<times> string) list" where
  "status_info cx js =
     [(''config'', js (JObj [(''sandboxImage'', JStr ''registry.k8s.io/pause:3.10''), (''cgroupDriver'', JStr ''cgroupfs''),
         (''snapshotter'', JStr ''overlayfs''), (''defaultRuntimeName'', JStr ''crun''),
         (''rootDir'', JStr (path_display (cx_snapshots_root cx))), (''stateDir'', JStr (path_display (cx_state_dir cx)))])),
      (''runtime'', js (JObj [(''name'', JStr ''containerd-rs''), (''version'', JStr CARGO_PKG_VERSION)]))]"

definition cri_status :: "('d, 't, 'sec, 'b) cri_ctx \<Rightarrow> (json \<Rightarrow> string) \<Rightarrow> bool \<Rightarrow> ('d, status_response) rpc" where
  "cri_status cx js verbose =
     pret \<lparr>sr_conditions = [(''RuntimeReady'', True), (''NetworkReady'', True)],
           sr_info = (if verbose then status_info cx js else []),
           sr_handlers = map (\<lambda>name. \<lparr>rh_name = name, rh_recursive_read_only_mounts = True, rh_user_namespaces = True\<rparr>) ['''', ''crun'']\<rparr>"

datatype cgroup_driver = Systemd | Cgroupfs

definition runtime_config :: "('d, cgroup_driver) rpc" where
  "runtime_config = pret Cgroupfs"

text \<open>The pod CIDR is logged and otherwise unused.\<close>

definition update_runtime_config :: "string option \<Rightarrow> ('d, unit) rpc" where
  "update_runtime_config pod_cidr = pret ()"

definition unimplemented :: "string \<Rightarrow> ('d, 'a) rpc" where
  "unimplemented what = pfail (Status Unimplemented (Msg what))"

definition stream_pod_sandboxes :: "('d, unit) rpc" where
  "stream_pod_sandboxes = unimplemented ''stream_pod_sandboxes not yet implemented''"

definition stream_containers :: "('d, unit) rpc" where
  "stream_containers = unimplemented ''stream_containers not yet implemented''"

definition stream_container_stats :: "('d, unit) rpc" where
  "stream_container_stats = unimplemented ''stream_container_stats not yet implemented''"

definition stream_pod_sandbox_stats :: "('d, unit) rpc" where
  "stream_pod_sandbox_stats = unimplemented ''stream_pod_sandbox_stats not yet implemented''"

definition stream_pod_sandbox_metrics :: "('d, unit) rpc" where
  "stream_pod_sandbox_metrics = unimplemented ''stream_pod_sandbox_metrics not yet implemented''"

definition stream_images :: "('d, unit) rpc" where
  "stream_images = unimplemented ''stream_images not yet implemented''"

definition unary_unimpl :: "string \<Rightarrow> ('d, unit) rpc" where
  "unary_unimpl m = unimplemented (m @ '' not yet implemented (see specs/001-rust-containerd/tasks.md)'')"

definition checkpoint_container :: "('d, unit) rpc" where
  "checkpoint_container = unary_unimpl ''checkpoint_container''"

definition update_pod_sandbox_resources :: "('d, unit) rpc" where
  "update_pod_sandbox_resources = unary_unimpl ''update_pod_sandbox_resources''"

text \<open>The event stream: what a subscriber receives, with lagged notices skipped, until the sender is
  gone.\<close>

datatype event_item = Event container_event | EventLagged | EventClosed

fun get_container_events :: "event_item list \<Rightarrow> container_event list" where
  "get_container_events (Event e # rest) = e # get_container_events rest"
| "get_container_events (EventLagged # rest) = get_container_events rest"
| "get_container_events _ = []"

end
