(* ===== verification/Cri_Pods.thy ===== *)
theory Cri_Pods
  imports Cri_Sample
begin

section \<open>Pod sandboxes and their records\<close>

text \<open>
  At most one sandbox of a pod is ready, a pod whose namespaces or network are not as asked never
  becomes a sandbox, and what stopping and removing a sandbox touch.
\<close>

subsection \<open>Demotion\<close>

definition demotes :: "sandbox_record \<Rightarrow> sandbox_record \<Rightarrow> bool" where
  "demotes rec other \<longleftrightarrow> sb_id other \<noteq> sb_id rec \<and> sb_state other = Ready \<and> same_pod other rec"

text \<open>The database takes every sandbox record that is only marked not ready.\<close>

definition can_demote :: "('d, 't, 'sec, 'b) cri_ctx \<Rightarrow> 'd \<Rightarrow> bool" where
  "can_demote cx d \<longleftrightarrow>
     (\<forall>i r u. sandbox_in cx i d = Inr (Some r) \<longrightarrow> fst (put_sandbox cx i (r\<lparr>sb_state := NotReady\<rparr>) u) = Inr ())"

definition demoted_to :: "sandbox_record \<Rightarrow> sandbox_record list \<Rightarrow> string \<Rightarrow> meta_error + sandbox_record option
    \<Rightarrow> meta_error + sandbox_record option" where
  "demoted_to rec rs j x =
     (case x of
        Inr (Some r) \<Rightarrow> if demotes rec r \<and> r \<in> set rs \<and> sb_id r = j then Inr (Some (r\<lparr>sb_state := NotReady\<rparr>)) else x
      | _ \<Rightarrow> x)"

lemma demote_loop:
  assumes ok: "ctx_ok cx" and "distinct (map sb_id rs)"
    and "\<And>r u. r \<in> set rs \<Longrightarrow> fst (put_sandbox cx (sb_id r) (r\<lparr>sb_state := NotReady\<rparr>) u) = Inr ()"
    and "\<And>r. r \<in> set rs \<Longrightarrow> sandbox_in cx (sb_id r) (cr_db u) = Inr (Some r)"
  shows "\<exists>u'. piter (demote_one cx rec) rs u = (Inr (), u')
    \<and> (\<forall>j. sandbox_in cx j (cr_db u') = demoted_to rec rs j (sandbox_in cx j (cr_db u)))"
  using assms(2,3,4)
proof (induction rs arbitrary: u)
  case Nil
  then show ?case by (auto simp: prog_simps demoted_to_def split: sum.splits option.splits)
next
  case (Cons r rs)
  have rin: "sandbox_in cx (sb_id r) (cr_db u) = Inr (Some r)" using Cons.prems(3) by simp
  show ?case
  proof (cases "demotes rec r")
    case False
    then have one: "demote_one cx rec r u = (Inr (), u)" by (auto simp: demote_one_def demotes_def prog_simps)
    from Cons.IH [of u] Cons.prems obtain u' where u': "piter (demote_one cx rec) rs u = (Inr (), u')"
      "\<And>j. sandbox_in cx j (cr_db u') = demoted_to rec rs j (sandbox_in cx j (cr_db u))" by auto
    have "demoted_to rec rs j x = demoted_to rec (r # rs) j x" for j x
      using False by (auto simp: demoted_to_def split: sum.splits option.splits)
    with u' one show ?thesis by (simp add: prog_simps)
  next
    case True
    obtain x u1 where put: "put_sandbox cx (sb_id r) (r\<lparr>sb_state := NotReady\<rparr>) u = (x, u1)" by fastforce
    have "x = Inr ()" using Cons.prems(2) [of r u] put by simp
    with ok put obtain d where u1: "u1 = u\<lparr>cr_db := d\<rparr>"
      and d: "\<And>j. sandbox_in cx j d = (if j = sb_id r then Inr (Some (r\<lparr>sb_state := NotReady\<rparr>)) else sandbox_in cx j (cr_db u))"
      by (cases rule: put_sandbox_cases) auto
    from True put have one: "demote_one cx rec r u = (Inr (), u1)" by (simp add: demote_one_def demotes_def prog_simps)
    have "sandbox_in cx (sb_id r') (cr_db u1) = Inr (Some r')" if "r' \<in> set rs" for r'
    proof -
      have "sb_id r \<notin> sb_id ` set rs" using Cons.prems(1) by simp
      then have "sb_id r' \<noteq> sb_id r" using that by (metis imageI)
      with that Cons.prems(3) show ?thesis by (auto simp: u1 d)
    qed
    with Cons.IH [of u1] Cons.prems obtain u' where u': "piter (demote_one cx rec) rs u1 = (Inr (), u')"
      "\<And>j. sandbox_in cx j (cr_db u') = demoted_to rec rs j (sandbox_in cx j (cr_db u1))" by auto
    have "demoted_to rec rs j (sandbox_in cx j d) = demoted_to rec (r # rs) j (sandbox_in cx j (cr_db u))" for j
      using True rin Cons.prems(1) by (auto simp: d demoted_to_def demotes_def split: sum.splits option.splits)
    with u' one u1 show ?thesis by (simp add: prog_simps)
  qed
qed

subsection \<open>How a run of a pod sandbox ends\<close>

definition pod_seed :: "pod_sandbox_config \<Rightarrow> string" where
  "pod_seed config = (let meta = pod_metadata config in pm_namespace meta @ ''/'' @ pm_name meta @ ''/'' @ pm_uid meta)"

definition pod_userns :: "pod_sandbox_config \<Rightarrow> rpc_status + bool \<times> (u32 \<times> u32 \<times> u32) list \<times> (u32 \<times> u32 \<times> u32) list" where
  "pod_userns config = userns_of (Option.bind (ns_options config) no_userns_options)"

lemma pod_network_Inr:
  "pod_network cx i h pms w = (Inr net, w') \<Longrightarrow> fst net = (if h then ''host'' else path_display (netns_path (cx_cni cx) i))"
  by (auto simp: pod_network_def prog_simps split: if_splits sum.splits prod.splits)

lemma run_pod_sandbox_Inr:
  assumes "run_pod_sandbox cx (Some config) h w = (Inr i, w')"
  obtains w1 w2 userns net resolv holder created where "aside w w1"
    "demote_others cx (new_sandbox_record config h i userns net resolv holder created) w1 = (Inr (), w2)"
    "put_sandbox cx i (new_sandbox_record config h i userns net resolv holder created) w2 = (Inr (), w')"
    "pod_userns config = Inr userns"
    "fst net = (if shares_host config no_network then ''host'' else path_display (netns_path (cx_cni cx) i))"
proof -
  from assms obtain a b userns net c resolv d holder e created f g where
    1: "gen_id cx (pod_seed config) w = (Inr i :: rpc_status + _, a)"
    and 2: "pwhen (pod_cgroup config \<noteq> []) (pseq (attempt (ensure_pod_cgroup (pod_cgroup config))) (pret ())) a = (Inr () :: rpc_status + _, b)"
    and 3: "pod_userns config = Inr userns"
    and 4: "pod_network cx i (shares_host config no_network) (map pod_port (psc_port_mappings config)) b = (Inr net, c)"
    and 5: "write_sandbox_resolv_conf cx i (psc_dns_config config) c = (Inr resolv :: rpc_status + _, d)"
    and 6: "holder_for cx i (shares_pod config no_pid \<or> shares_pod config no_ipc) d = (Inr holder, e)"
    and 7: "unix_nanos e = (Inr created :: rpc_status + _, f)"
    and 8: "demote_others cx (new_sandbox_record config h i userns net resolv holder created) f = (Inr (), g)"
    and 9: "put_sandbox cx i (new_sandbox_record config h i userns net resolv holder created) g = (Inr (), w')"
    unfolding run_pod_sandbox_def Let_def pod_seed_def pod_userns_def
    by (auto simp: prog_Inr)
  have cg: "steps aside (pwhen x (pseq (attempt (ensure_pod_cgroup y)) (pret ())))" for x y
    unfolding ensure_pod_cgroup_def by (auto intro!: aside_rules aside_misc)
  have "aside w f"
    using stepsD [OF aside_misc(1) 1] stepsD [OF cg 2] stepsD [OF aside_misc(5) 4] stepsD [OF aside_misc(4) 5]
      stepsD [OF aside_misc(6) 6] stepsD [OF aside_calls(13) 7] by (meson asd.order_trans)
  with 3 8 9 pod_network_Inr [OF 4] that show thesis by blast
qed

lemma new_sandbox_fields [simp]:
  "sb_id (new_sandbox_record config h i userns net resolv holder created) = i"
  "sb_state (new_sandbox_record config h i userns net resolv holder created) = Ready"
  "sb_netns_path (new_sandbox_record config h i userns net resolv holder created) = Some (fst net)"
  "sb_userns_uid_mappings (new_sandbox_record config h i userns net resolv holder created) = fst (snd userns)"
  "sb_userns_gid_mappings (new_sandbox_record config h i userns net resolv holder created) = snd (snd userns)"
  by (simp_all add: new_sandbox_record_def Let_def split: prod.splits)

definition of_pod :: "pod_sandbox_config \<Rightarrow> sandbox_record \<Rightarrow> bool" where
  "of_pod config r \<longleftrightarrow>
     sb_name r = pm_name (pod_metadata config) \<and> sb_k8s_namespace r = pm_namespace (pod_metadata config) \<and> sb_uid r = pm_uid (pod_metadata config)"

lemma of_pod_new:
  "of_pod config (new_sandbox_record config h i userns net resolv holder created)"
  "same_pod r (new_sandbox_record config h i userns net resolv holder created) \<longleftrightarrow> of_pod config r"
  by (simp_all add: of_pod_def same_pod_def new_sandbox_record_def Let_def split: prod.splits)

lemma run_pod_sandbox_demotes:
  assumes ok: "ctx_ok cx" and keyed: "keyed_by sb_id (\<lambda>i. sandbox_in cx i (cr_db w))"
    and ls: "list_sandboxes cx w = (Inr existing, w)" and demote: "can_demote cx (cr_db w)"
    and run: "run_pod_sandbox cx (Some config) h w = (Inr i, w')"
  shows "(\<exists>rec. sandbox_in cx i (cr_db w') = Inr (Some rec) \<and> sb_id rec = i \<and> sb_state rec = Ready \<and> of_pod config rec)
    \<and> (\<forall>j r. j \<noteq> i \<and> sandbox_in cx j (cr_db w') = Inr (Some r) \<and> of_pod config r \<longrightarrow> sb_state r = NotReady)
    \<and> (\<forall>j r. j \<noteq> i \<and> sandbox_in cx j (cr_db w) = Inr (Some r) \<and> \<not> of_pod config r \<longrightarrow> sandbox_in cx j (cr_db w') = Inr (Some r))
    \<and> (\<forall>j r. j \<noteq> i \<and> sandbox_in cx j (cr_db w') = Inr (Some r) \<and> sb_state r = Ready \<longrightarrow> sandbox_in cx j (cr_db w) = Inr (Some r))"
proof -
  from run obtain w1 w2 userns net resolv holder created where w1: "aside w w1"
    and dem: "demote_others cx (new_sandbox_record config h i userns net resolv holder created) w1 = (Inr (), w2)"
    and put: "put_sandbox cx i (new_sandbox_record config h i userns net resolv holder created) w2 = (Inr (), w')"
    by (rule run_pod_sandbox_Inr)
  define rec where "rec = new_sandbox_record config h i userns net resolv holder created"
  have rec: "sb_id rec = i" "sb_state rec = Ready" "\<And>r. same_pod r rec \<longleftrightarrow> of_pod config r" "of_pod config rec"
    by (simp_all add: rec_def of_pod_new)
  have db: "cr_db w1 = cr_db w" using w1 by (rule aside_db)
  from ls have sl: "store_list (cx_redb cx) (cx_des_sandbox cx) Sandbox (cx_namespace cx) (cr_db w) = Inr existing"
    by (simp add: list_sandboxes_def)
  note li = sbx.lst_keyed [OF ok sl keyed] and mem = sbx.lst_mem [OF ok sl]
  have "\<exists>u'. piter (demote_one cx rec) existing w1 = (Inr (), u')
    \<and> (\<forall>j. sandbox_in cx j (cr_db u') = demoted_to rec existing j (sandbox_in cx j (cr_db w1)))"
    by (rule demote_loop [OF ok]) (use li demote in \<open>auto simp: db can_demote_def\<close>)
  moreover have "list_sandboxes cx w1 = (Inr existing, w1)" using sl by (simp add: list_sandboxes_def db)
  ultimately have dems: "\<And>j. sandbox_in cx j (cr_db w2) = demoted_to rec existing j (sandbox_in cx j (cr_db w))"
    using dem by (auto simp: demote_others_def prog_simps rec_def [symmetric] db)
  have fin: "sandbox_in cx j (cr_db w') = (if j = i then Inr (Some rec) else demoted_to rec existing j (sandbox_in cx j (cr_db w)))" for j
    using ok put [folded rec_def] by (cases rule: put_sandbox_cases) (auto simp: dems)
  have "sb_state r = NotReady" if "j \<noteq> i" "sandbox_in cx j (cr_db w') = Inr (Some r)" "of_pod config r" for j r
  proof -
    from that fin [of j] obtain r0 where r0: "sandbox_in cx j (cr_db w) = Inr (Some r0)"
      and r: "r = (if demotes rec r0 \<and> r0 \<in> set existing \<and> sb_id r0 = j then r0\<lparr>sb_state := NotReady\<rparr> else r0)"
      by (auto simp: demoted_to_def split: sum.splits option.splits if_splits)
    have "sb_id r0 = j" "r0 \<in> set existing" using keyed r0 mem by (auto simp: keyed_by_def)
    moreover have "of_pod config r0" using that(3) r by (auto simp: of_pod_def split: if_splits)
    ultimately show ?thesis using r rec that(1) by (cases "sb_state r0") (auto simp: demotes_def)
  qed
  moreover have "sandbox_in cx j (cr_db w') = Inr (Some r)" if "j \<noteq> i" "sandbox_in cx j (cr_db w) = Inr (Some r)" "\<not> of_pod config r" for j r
    using that fin [of j] rec by (simp add: demoted_to_def demotes_def)
  moreover have "sandbox_in cx j (cr_db w) = Inr (Some r)" if "j \<noteq> i" "sandbox_in cx j (cr_db w') = Inr (Some r)" "sb_state r = Ready" for j r
    using that fin [of j] by (cases "sandbox_in cx j (cr_db w)") (auto simp: demoted_to_def split: option.splits if_splits)
  moreover have "\<exists>rec. sandbox_in cx i (cr_db w') = Inr (Some rec) \<and> sb_id rec = i \<and> sb_state rec = Ready \<and> of_pod config rec"
    using fin [of i] rec by simp
  ultimately show ?thesis by blast
qed


subsection \<open>Failures\<close>

lemma validate_userns_map_Inr:
  "validate_userns_map m = Inr ms \<Longrightarrow> \<exists>x. m = [x] \<and> cim_container_id x = 0 \<and> ms = [(0, cim_host_id x, cim_length x)]"
  by (cases m) (auto simp: validate_userns_map_def split: if_splits)

lemma validate_userns_map_Inl: "validate_userns_map m = Inl e \<Longrightarrow> \<exists>t. e = Status InvalidArgument (Msg t)"
  by (auto simp: validate_userns_map_def split: if_splits)

lemma userns_of_Inl: "userns_of u = Inl e \<Longrightarrow> \<exists>t. e = Status InvalidArgument (Msg t)"
  by (auto simp: userns_of_def rbind_def validate_userns_map_Inl split: option.splits if_splits sum.splits)

lemma userns_of_pod:
  assumes "userns_of (Some u) = Inr (b, us, gs)" "un_mode u = POD"
  shows "\<exists>x y. un_uids u = [x] \<and> un_gids u = [y] \<and> us = [(0, cim_host_id x, cim_length x)] \<and> gs = [(0, cim_host_id y, cim_length y)]"
proof -
  from assms have "validate_userns_map (un_uids u) = Inr us" "validate_userns_map (un_gids u) = Inr gs"
    by (auto simp: userns_of_def)
  then show ?thesis by (auto dest!: validate_userns_map_Inr)
qed

lemma pod_network_Inl:
  "pod_network cx i h pms w = (Inl e, w') \<Longrightarrow> \<not> h \<and> (\<exists>ce. e = Status Unavailable (FromCni ce))"
  by (auto simp: pod_network_def prog_simps split: if_splits sum.splits prod.splits)

lemma not_failing:
  "write_sandbox_resolv_conf cx i dns w \<noteq> (Inl e, w')" "holder_for cx i sh w \<noteq> (Inl e, w')" "unix_nanos w \<noteq> (Inl e, w')"
  "gen_id cx s w \<noteq> (Inl e, w')"
  by (auto simp: write_sandbox_resolv_conf_def holder_for_def gen_id_def unix_nanos_def or_default_def Let_def prog_eq split: sum.splits if_splits)

lemma demote_others_fine: "demote_others cx rec w \<noteq> (Inl e, w')"
proof -
  have "\<exists>u'. piter (demote_one cx rec) rs u = (Inr (), u')" for rs u
    by (induction rs arbitrary: u) (auto simp: demote_one_def prog_simps)
  then show ?thesis by (auto simp: demote_others_def prog_eq split: sum.splits) (metis Inl_Inr_False prod.inject)+
qed

text \<open>The pod's control group is made with no plugin run.\<close>

lemma calls_kept_files: "steps calls_kept (create_dir p)" "steps calls_kept (write_at p n bs)"
  by (simp_all add: steps_def calls_kept_def create_dir_def write_at_def syscall_def Let_def split: option.splits node.splits)

lemma calls_kept_write: "steps calls_kept (write_from p pos buf)"
proof (rule stepsI)
  show "calls_kept w (snd (write_from p pos buf w))" for w
  proof (induction p pos buf w rule: write_from.induct)
    case (1 p pos buf w)
    obtain r w1 where w1: "write_at p pos buf w = (r, w1)" by fastforce
    have "calls_kept w w1" using calls_kept_files(2) w1 by (rule stepsD)
    with 1 [OF _ w1 [symmetric]] w1 show ?case
      by (subst write_from.simps) (auto split: sum.splits intro: ck.order_trans ck.order_refl)
  qed
qed

lemma calls_kept_cgroup: "steps calls_kept (ensure_pod_cgroup cg)"
  unfolding ensure_pod_cgroup_def ensure_pod_cgroup_at_def or_default_def read_to_string_def fs_write_def Let_def
  by (auto intro!: ck.steps_rules calls_kept_files calls_kept_write calls_kept_syscalls split: sum.splits)

text \<open>What comes before the namespaces are looked at.\<close>

lemma run_pod_sandbox_start:
  assumes "run_pod_sandbox cx (Some config) h w = (r, w')"
  obtains i b where "aside w b" "cw_calls b = cw_calls w"
    "pbind (plift (pod_userns config)) (\<lambda>userns.
      pbind (pod_network cx i (shares_host config no_network) (map pod_port (psc_port_mappings config))) (\<lambda>net.
      pbind (write_sandbox_resolv_conf cx i (psc_dns_config config)) (\<lambda>resolv.
      pbind (holder_for cx i (shares_pod config no_pid \<or> shares_pod config no_ipc)) (\<lambda>holder.
      pbind unix_nanos (\<lambda>created.
      pseq (demote_others cx (new_sandbox_record config h i userns net resolv holder created))
        (pseq (internal (put_sandbox cx i (new_sandbox_record config h i userns net resolv holder created))) (pret i))))))) b
     = (r, w')"
proof -
  let ?cg = "pwhen (pod_cgroup config \<noteq> []) (pseq (attempt (ensure_pod_cgroup (pod_cgroup config))) (pret ()))"
  obtain i a where 1: "gen_id cx (pod_seed config) w = (Inr i :: rpc_status + _, a)" "cw_calls a = cw_calls w"
    by (simp add: gen_id_def unix_nanos_def prog_simps)
  obtain b where 2: "?cg a = (Inr () :: rpc_status + _, b)"
    by (cases "pod_cgroup config = []") (simp_all add: prog_simps)
  have cg: "steps aside ?cg" and ck: "steps calls_kept ?cg"
    unfolding ensure_pod_cgroup_def by (auto intro!: aside_rules aside_misc)
      (auto intro!: ck.steps_rules calls_kept_cgroup [unfolded ensure_pod_cgroup_def])
  have "aside w b" using stepsD [OF aside_misc(1) 1(1)] stepsD [OF cg 2] by (meson asd.order_trans)
  moreover have "cw_calls b = cw_calls w" using stepsD [OF ck 2] 1(2) by (simp add: calls_kept_def)
  ultimately show thesis
    using that assms 1(1) 2 unfolding run_pod_sandbox_def Let_def pod_seed_def pod_userns_def
    by (simp add: prog_simps)
qed

text \<open>No ready sandbox appears: every ready record of the second world was there before.\<close>

definition ready_from :: "('d, 't, 'sec, 'b) cri_ctx \<Rightarrow> 'd cri_os \<Rightarrow> 'd cri_os \<Rightarrow> bool" where
  "ready_from cx w w' \<longleftrightarrow>
     (\<forall>j r. sandbox_in cx j (cr_db w') = Inr (Some r) \<and> sb_state r = Ready \<longrightarrow> sandbox_in cx j (cr_db w) = Inr (Some r))"

interpretation rdf: step_order "ready_from cx" for cx
  by unfold_locales (auto simp: ready_from_def)

lemma ready_from_aside: "aside w w' \<Longrightarrow> ready_from cx w w'"
  by (simp add: ready_from_def aside_def)

lemma ready_from_demote: "ctx_ok cx \<Longrightarrow> steps (ready_from cx) (demote_others cx rec)"
proof -
  assume ok: "ctx_ok cx"
  have "ready_from cx u (snd (put_sandbox cx (sb_id r) (r\<lparr>sb_state := NotReady\<rparr>) u))" for r u
  proof -
    obtain x u' where put: "put_sandbox cx (sb_id r) (r\<lparr>sb_state := NotReady\<rparr>) u = (x, u')" by fastforce
    from ok put show ?thesis by (cases rule: put_sandbox_cases) (auto simp: put ready_from_def split: if_splits)
  qed
  then have "steps (ready_from cx) (put_sandbox cx (sb_id r) (r\<lparr>sb_state := NotReady\<rparr>))" for r by (simp add: steps_def)
  moreover have "steps (ready_from cx) (list_sandboxes cx)"
    by (simp add: steps_def list_sandboxes_def ready_from_def)
  ultimately show ?thesis
    unfolding demote_others_def demote_one_def by (auto intro!: rdf.steps_rules split: sum.splits)
qed

lemma run_pod_sandbox_Inl:
  assumes ok: "ctx_ok cx" and run: "run_pod_sandbox cx (Some config) h w = (Inl e, w')"
  obtains (userns) "pod_userns config = Inl e" "aside w w'" "cw_calls w' = cw_calls w"
    | (network) ce where "\<not> shares_host config no_network" "e = Status Unavailable (FromCni ce)" "aside w w'"
    | (store) me where "e = Status Internal (FromMeta me)" "ready_from cx w w'"
proof -
  from run obtain i b where b: "aside w b" "cw_calls b = cw_calls w"
    and rest: "pbind (plift (pod_userns config)) (\<lambda>userns.
      pbind (pod_network cx i (shares_host config no_network) (map pod_port (psc_port_mappings config))) (\<lambda>net.
      pbind (write_sandbox_resolv_conf cx i (psc_dns_config config)) (\<lambda>resolv.
      pbind (holder_for cx i (shares_pod config no_pid \<or> shares_pod config no_ipc)) (\<lambda>holder.
      pbind unix_nanos (\<lambda>created.
      pseq (demote_others cx (new_sandbox_record config h i userns net resolv holder created))
        (pseq (internal (put_sandbox cx i (new_sandbox_record config h i userns net resolv holder created))) (pret i))))))) b
     = (Inl e, w')" by (rule run_pod_sandbox_start)
  from rest consider "pod_userns config = Inl e" "w' = b"
    | "pod_network cx i (shares_host config no_network) (map pod_port (psc_port_mappings config)) b = (Inl e, w')"
    | userns net c resolv d holder e1 created f g me where "pod_userns config = Inr userns"
      "pod_network cx i (shares_host config no_network) (map pod_port (psc_port_mappings config)) b = (Inr net, c)"
      "write_sandbox_resolv_conf cx i (psc_dns_config config) c = (Inr resolv :: rpc_status + _, d)"
      "holder_for cx i (shares_pod config no_pid \<or> shares_pod config no_ipc) d = (Inr holder, e1)"
      "unix_nanos e1 = (Inr created :: rpc_status + _, f)"
      "demote_others cx (new_sandbox_record config h i userns net resolv holder created) f = (Inr (), g)"
      "put_sandbox cx i (new_sandbox_record config h i userns net resolv holder created) g = (Inl me, w')"
      "e = Status Internal (FromMeta me)"
    by (auto simp: prog_eq internal_def not_failing demote_others_fine split: sum.splits prod.splits)
  then show thesis
  proof cases
    case 1
    with b userns show thesis by simp
  next
    case 2
    have "aside w w'" using b(1) stepsD [OF aside_misc(5) 2] by (rule asd.order_trans)
    with pod_network_Inl [OF 2] network show thesis by blast
  next
    case 3
    have "aside w f"
      using b(1) stepsD [OF aside_misc(5) 3(2)] stepsD [OF aside_misc(4) 3(3)] stepsD [OF aside_misc(6) 3(4)] stepsD [OF aside_calls(13) 3(5)]
      by (meson asd.order_trans)
    moreover have "ready_from cx f g" by (rule stepsD [OF ready_from_demote [OF ok] 3(6)])
    moreover have "w' = g" using ok 3(7) by (cases rule: put_sandbox_cases) auto
    ultimately have "ready_from cx w w'" by (auto intro: rdf.order_trans ready_from_aside)
    with 3(8) store show thesis by blast
  qed
qed

text \<open>C16. A pod sandbox fails closed. When \<open>RunPodSandbox\<close> returns an error no ready sandbox
  has appeared, and the error says which step refused: the user-namespace request was not
  acceptable (invalid argument, and no network plugin ran), the network could not be set up for a
  pod that does not use the host's (unavailable), or the record could not be stored (internal). On
  success the stored sandbox has the network the pod asked for, and a pod that asks for its own
  user namespace has exactly one mapping of user ids and one of group ids, both from id 0.\<close>

theorem pod_sandbox_fails_closed:
  assumes ok: "ctx_ok cx" and run: "run_pod_sandbox cx (Some config) h w = (r, w')"
  shows "case r of
      Inl e \<Rightarrow> ready_from cx w w'
        \<and> ((pod_userns config = Inl e \<and> (\<exists>t. e = Status InvalidArgument (Msg t)) \<and> aside w w' \<and> cw_calls w' = cw_calls w)
           \<or> (shares_host config no_network = False \<and> (\<exists>ce. e = Status Unavailable (FromCni ce)) \<and> aside w w')
           \<or> (\<exists>me. e = Status Internal (FromMeta me)))
    | Inr i \<Rightarrow> \<exists>rec. sandbox_in cx i (cr_db w') = Inr (Some rec)
        \<and> sb_netns_path rec = Some (if shares_host config no_network then ''host'' else path_display (netns_path (cx_cni cx) i))
        \<and> (\<forall>u. Option.bind (ns_options config) no_userns_options = Some u \<and> un_mode u = POD \<longrightarrow>
            (\<exists>x y. un_uids u = [x] \<and> un_gids u = [y] \<and> sb_userns_uid_mappings rec = [(0, cim_host_id x, cim_length x)]
              \<and> sb_userns_gid_mappings rec = [(0, cim_host_id y, cim_length y)]))"
proof (cases r)
  case (Inl e)
  with run have "run_pod_sandbox cx (Some config) h w = (Inl e, w')" by simp
  with ok show ?thesis
    by (cases rule: run_pod_sandbox_Inl)
      (use Inl in \<open>auto simp: pod_userns_def intro: ready_from_aside dest: userns_of_Inl\<close>)
next
  case (Inr i)
  with run have "run_pod_sandbox cx (Some config) h w = (Inr i, w')" by simp
  then obtain w1 w2 userns net resolv holder created where
    put: "put_sandbox cx i (new_sandbox_record config h i userns net resolv holder created) w2 = (Inr (), w')"
    and us: "pod_userns config = Inr userns"
    and net: "fst net = (if shares_host config no_network then ''host'' else path_display (netns_path (cx_cni cx) i))"
    by (rule run_pod_sandbox_Inr)
  have stored: "sandbox_in cx i (cr_db w') = Inr (Some (new_sandbox_record config h i userns net resolv holder created))"
    using ok put by (cases rule: put_sandbox_cases) auto
  obtain b us gs where "userns = (b, us, gs)" by (cases userns)
  with stored us net Inr show ?thesis
    by (auto simp: pod_userns_def dest!: userns_of_pod)
qed

subsection \<open>StopPodSandbox and RemovePodSandbox\<close>

definition holder_kill :: "sandbox_record \<Rightarrow> int list" where
  "holder_kill rec = (case sb_pid_holder_pid rec of Some pid \<Rightarrow> if pid = 0 then [] else [pid] | None \<Rightarrow> [])"

lemma holder_kill_run:
  "(case sb_pid_holder_pid rec of Some holder \<Rightarrow> kill_holder holder | None \<Rightarrow> pret ()) w
     = (Inr (), w\<lparr>cr_kills := cr_kills w @ holder_kill rec\<rparr>)"
  by (auto simp: kill_holder_def prog_simps holder_kill_def split: option.splits)

lemma stop_pod_sandbox_run:
  assumes ok: "ctx_ok cx" and c: "sandbox_in cx i (cr_db w) = Inr (Some rec)" and run: "stop_pod_sandbox cx i w = (Inr (), w')"
  shows "(\<forall>j. sandbox_in cx j (cr_db w') =
      (if j = i then Inr (Some (rec\<lparr>sb_state := NotReady, sb_pid_holder_pid := None\<rparr>)) else sandbox_in cx j (cr_db w)))
    \<and> same_containers cx (cr_db w) (cr_db w') \<and> cr_crun_calls w' = cr_crun_calls w \<and> cw_calls w' = cw_calls w
    \<and> cr_kills w' = cr_kills w @ holder_kill rec"
proof -
  from run c have put: "put_sandbox cx i (rec\<lparr>sb_state := NotReady, sb_pid_holder_pid := None\<rparr>)
      (w\<lparr>cr_kills := cr_kills w @ holder_kill rec\<rparr>) = (Inr (), w')"
    unfolding stop_pod_sandbox_def
    by (simp add: pbind_run pseq_run get_run pret_run internal_Inr holder_kill_run internal_run)
      (simp add: prog_simps holder_kill_run prod_eq_iff)
  from ok put show ?thesis by (cases rule: put_sandbox_cases) (auto simp: same_containers_def)
qed

lemma aside_teardown: "steps aside (pwhen b (pseq (attempt (cni_teardown cdc c i n)) (pret ())))"
  by (auto intro!: aside_rules aside_cni_chains)

lemma remove_pod_sandbox_run:
  assumes ok: "ctx_ok cx" and c: "sandbox_in cx i (cr_db w) = Inr (Some rec)" and run: "remove_pod_sandbox cx i w = (Inr (), w')"
  shows "(\<forall>j. sandbox_in cx j (cr_db w') = (if j = i then Inr None else sandbox_in cx j (cr_db w)))
    \<and> same_containers cx (cr_db w) (cr_db w') \<and> cr_crun_calls w' = cr_crun_calls w \<and> cr_kills w' = cr_kills w @ holder_kill rec"
proof -
  let ?td = "pwhen (case sb_netns_path rec of Some p \<Rightarrow> p \<noteq> ''host'' | None \<Rightarrow> False)
    (pseq (attempt (cni_teardown (cx_cni_codec cx) (cx_cni cx) i i)) (pret ()))"
  obtain x w1 where td: "?td w = (x :: rpc_status + _, w1)" by fastforce
  have w1: "aside w w1" by (rule stepsD [OF aside_teardown td])
  have x: "x = Inr ()" using td by (auto simp: pwhen_def prog_simps split: if_splits)
  obtain y where del: "delete_record cx Sandbox i (w1\<lparr>cr_kills := cr_kills w1 @ holder_kill rec\<rparr>) = (Inr y, w')"
    using run c td [unfolded x] unfolding remove_pod_sandbox_def
    by (auto simp: pbind_run pseq_run attempt_run get_run pret_run holder_kill_run split: prod.splits sum.splits)
  from ok del show ?thesis using w1 by (cases rule: delete_record_cases) (auto simp: same_containers_def aside_def)
qed


subsection \<open>A pod on the host's network\<close>

definition sample_pod :: "user_namespace option \<Rightarrow> pod_sandbox_config" where
  "sample_pod userns =
     \<lparr>psc_metadata = Some \<lparr>pm_name = ''web'', pm_uid = ''u1'', pm_namespace = ''default'', pm_attempt = 1\<rparr>, psc_hostname = ''web'',
      psc_log_directory = '''', psc_dns_config = None, psc_port_mappings = [], psc_labels = [], psc_annotations = [],
      psc_linux = Some \<lparr>ls_cgroup_parent = '''',
        ls_namespace_options = Some \<lparr>no_network = NODE, no_pid = NODE, no_ipc = NODE, no_target_id = '''', no_userns_options = userns\<rparr>,
        ls_sysctls = []\<rparr>\<rparr>"

definition sample_sandbox :: "string \<Rightarrow> string \<Rightarrow> sandbox_state \<Rightarrow> sandbox_record" where
  "sample_sandbox i uid st =
     (new_sandbox_record (sample_pod None) '''' i (False, [], []) (''host'', ''192.0.2.1'') None None 0)\<lparr>sb_uid := uid, sb_state := st\<rparr>"

definition sample_sandboxes :: "sandbox_record list" where
  "sample_sandboxes = [sample_sandbox ''old'' ''u1'' Ready, sample_sandbox ''old'' ''u1'' NotReady, sample_sandbox ''other'' ''u2'' Ready,
     sample_sandbox ''other'' ''u2'' NotReady]"

definition sample_id :: string where
  "sample_id = ''30'' @ replicate 62 (CHR ''0'')"

definition sample_new :: sandbox_record where
  "sample_new = new_sandbox_record (sample_pod None) '''' sample_id (False, [], []) (''host'', ''192.0.2.1'') None None 1"

definition sample_pods :: "(mem_db, mem_db, string, unit) cri_ctx" where
  "sample_pods = sample_ctx (sample_sandboxes @ [sample_new]) [] []"

text \<open>One ready sandbox of the pod and one of another pod, and no directory can be made.\<close>

definition sample_two :: "mem_db cri_os" where
  "sample_two = (sample_world (sample_db [(''k8s.io/old'', [0]), (''k8s.io/other'', [2])] [] []) [] [])\<lparr>os_sched := [IoFail]\<rparr>"

lemma sample_pods_ok: "ctx_ok sample_pods"
  by (simp add: sample_pods_def sample_sandboxes_def sample_ctx_ok)

lemma sample_gen_id:
  assumes "cr_reads w = 0" "cr_clock w 0 = 0"
  shows "gen_id sample_pods ''default/web/u1'' w = (Inr sample_id, w\<lparr>cr_reads := 1\<rparr>)"
proof -
  have "str_bytes (''default/web/u1'' @ ''/'' @ dec_int (sint (0 :: i64))) = str_bytes ''default/web/u1/0''"
    by code_simp
  moreover have "sample_sha (str_bytes ''default/web/u1/0'') = sample_id" by code_simp
  ultimately show ?thesis using assms by (simp add: gen_id_def unix_nanos_def prog_simps sample_pods_def sample_ctx_def sha256_def)
qed

lemma sample_sandbox_in:
  "sandbox_in sample_pods j (sample_db [(''k8s.io/old'', [0]), (''k8s.io/other'', [2])] [] [])
     = Inr (if j = ''old'' then Some (sample_sandbox ''old'' ''u1'' Ready)
            else if j = ''other'' then Some (sample_sandbox ''other'' ''u2'' Ready) else None)"
  by (simp add: sample_pods_def sample_reads mem_get sample_db_def sample_des_def sample_sandboxes_def)


lemma sample_sandbox_eq:
  "sample_sandbox i u s = sample_sandbox i' u' s' \<longleftrightarrow> i = i' \<and> u = u' \<and> s = s'"
  by (auto simp: sample_sandbox_def new_sandbox_record_def Let_def)

lemma sample_fields [simp]:
  "sb_id (sample_sandbox i u s) = i" "sb_state (sample_sandbox i u s) = s" "(sample_sandbox i u s)\<lparr>sb_state := t\<rparr> = sample_sandbox i u t"
  "of_pod (sample_pod v) (sample_sandbox i u s) \<longleftrightarrow> u = ''u1''" "sb_id sample_new = sample_id" "sb_pid_holder_pid (sample_sandbox i u s) = None"
  "(sample_sandbox i u s)\<lparr>sb_pid_holder_pid := None\<rparr> = sample_sandbox i u s" "sb_netns_path (sample_sandbox i u s) = Some ''host''"
  by (simp_all add: sample_sandbox_def sample_new_def new_sandbox_record_def of_pod_def pod_metadata_def sample_pod_def Let_def)

lemma sample_id_fresh: "sample_id \<noteq> ''old''" "sample_id \<noteq> ''other''"
  by (simp_all add: sample_id_def)

lemma sample_new_neq: "sample_sandbox ''old'' u s \<noteq> sample_new" "sample_sandbox ''other'' u s \<noteq> sample_new"
  using sample_id_fresh sample_fields(1,5) by metis+

lemma sample_ser_pods:
  "sample_ser (sample_sandboxes @ [sample_new]) (sample_sandbox ''old'' ''u1'' NotReady) = Inr [1]"
  "sample_ser (sample_sandboxes @ [sample_new]) (sample_sandbox ''other'' ''u2'' NotReady) = Inr [3]"
  "sample_ser (sample_sandboxes @ [sample_new]) sample_new = Inr [4]"
  by (simp_all add: sample_ser_def sample_sandboxes_def sample_sandbox_eq sample_new_neq)

lemma sample_sandbox_put:
  "sample_ser (sample_sandboxes @ [sample_new]) r = Inr bs \<Longrightarrow> put_sandbox sample_pods i r u
     = (Inr (), u\<lparr>cr_db := (cr_db u)(''sandboxes'' := AList.update (''k8s.io/'' @ i) bs (cr_db u ''sandboxes''))\<rparr>)"
  by (simp add: put_sandbox_def db_step_def sample_pods_def sample_ctx_def mem_put)

lemma sample_list:
  assumes "cr_db u = sample_db [(''k8s.io/old'', [0]), (''k8s.io/other'', [2])] [] []"
  shows "list_sandboxes sample_pods u = (Inr [sample_sandbox ''old'' ''u1'' Ready, sample_sandbox ''other'' ''u2'' Ready], u)"
  using assms by (simp add: list_sandboxes_def sample_pods_def sample_ctx_def store_list_def mem_redb_def sample_db_def starts_with_def
      sample_des_def sample_sandboxes_def)

text \<open>The run on the host's network, and the run whose user-namespace request has no mapping.\<close>

lemma sample_resolv:
  assumes "os_sched u = [IoFail]"
  shows "write_sandbox_resolv_conf sample_pods sample_id None u = (Inr None, u\<lparr>os_sched := []\<rparr>)"
proof -
  have "fjoin (fjoin [''run''] ''k8s.io'') sample_id = [''run'', ''k8s.io'', sample_id]" by code_simp
  with assms show ?thesis
    by (simp add: write_sandbox_resolv_conf_def create_dir_all_def sample_pods_def sample_ctx_def prog_simps ensure_dir_def syscall_def
        next_event_def tick_def Let_def)
qed

lemma sample_pod_facts:
  "shares_host (sample_pod v) no_network" "\<not> shares_pod (sample_pod v) no_pid" "\<not> shares_pod (sample_pod v) no_ipc"
  "pod_cgroup (sample_pod v) = []" "Option.bind (ns_options (sample_pod v)) no_userns_options = v" "psc_port_mappings (sample_pod v) = []"
  "psc_dns_config (sample_pod v) = None" "pm_namespace (pod_metadata (sample_pod v)) = ''default''"
  "pm_name (pod_metadata (sample_pod v)) = ''web''" "pm_uid (pod_metadata (sample_pod v)) = ''u1''"
  by (simp_all add: sample_pod_def pod_metadata_def pod_cgroup_def ns_options_def shares_host_def shares_pod_def mode_is_def)

lemma sample_two_world:
  "os_sched sample_two = [IoFail]" "cr_reads sample_two = 0" "cr_clock sample_two n = of_nat n" "cr_events sample_two = []"
  "cr_db sample_two = sample_db [(''k8s.io/old'', [0]), (''k8s.io/other'', [2])] [] []"
  by (simp_all add: sample_two_def sample_world_def)

lemma sample_run:
  "\<exists>w'. run_pod_sandbox sample_pods (Some (sample_pod None)) '''' sample_two = (Inr sample_id, w')
    \<and> cr_db w' = sample_db [(''k8s.io/old'', [1]), (''k8s.io/other'', [2]), (''k8s.io/'' @ sample_id, [4])] [] []"
proof -
  have same: "same_pod (sample_sandbox i u s) sample_new \<longleftrightarrow> u = ''u1''" for i u s
    by (simp add: sample_new_def of_pod_new)
  have ip: "cx_host_ip sample_pods = ''192.0.2.1''" by (simp add: sample_pods_def sample_ctx_def)
  note puts = sample_ser_pods [THEN sample_sandbox_put]
  have dem: "demote_others sample_pods sample_new u = (Inr (), u\<lparr>cr_db := sample_db [(''k8s.io/old'', [1]), (''k8s.io/other'', [2])] [] []\<rparr>)"
    if "cr_db u = sample_db [(''k8s.io/old'', [0]), (''k8s.io/other'', [2])] [] []" for u
    using that sample_list [OF that]
    by (simp add: demote_others_def prog_simps demote_one_def same puts sample_id_fresh sample_id_fresh [symmetric])
      (simp add: sample_db_def fun_eq_iff)
  show ?thesis
    by (simp add: run_pod_sandbox_def prog_simps sample_pod_facts sample_gen_id sample_two_world userns_of_def pod_network_def ip
        sample_resolv holder_for_def unix_nanos_def sample_new_def [symmetric] dem puts)
      (simp add: sample_db_def fun_eq_iff sample_id_fresh [symmetric])
qed

lemma sample_two_in:
  "sandbox_in sample_pods j (cr_db sample_two)
     = Inr (if j = ''old'' then Some (sample_sandbox ''old'' ''u1'' Ready)
            else if j = ''other'' then Some (sample_sandbox ''other'' ''u2'' Ready) else None)"
  by (simp add: sample_two_world sample_sandbox_in)

lemma sample_two_demotes: "can_demote sample_pods (cr_db sample_two)"
  by (auto simp: can_demote_def sample_two_in sample_ser_pods [THEN sample_sandbox_put] split: if_splits)


theorem pod_sandbox_fails_closed_witness:
  "\<exists>w'. run_pod_sandbox sample_pods (Some (sample_pod (Some \<lparr>un_mode = POD, un_uids = [], un_gids = []\<rparr>))) '''' sample_two
      = (Inl (Status InvalidArgument (Msg ''user namespace requires exactly one uid/gid mapping'')), w')
    \<and> ready_from sample_pods sample_two w'"
proof -
  let ?u = "\<lparr>un_mode = POD, un_uids = [], un_gids = []\<rparr> :: user_namespace"
  let ?e = "Status InvalidArgument (Msg ''user namespace requires exactly one uid/gid mapping'')"
  obtain w' where run: "run_pod_sandbox sample_pods (Some (sample_pod (Some ?u))) '''' sample_two = (Inl ?e, w')"
    by (simp add: run_pod_sandbox_def prog_simps sample_pod_facts sample_gen_id sample_two_world userns_of_def validate_userns_map_def)
  from pod_sandbox_fails_closed [OF sample_pods_ok run] run show ?thesis by auto
qed


end
