(* ===== verification/Cri_Exec_Properties.thy ===== *)
theory Cri_Exec_Properties
  imports Cri_Exec Cri_Pods
begin

section \<open>Requests and the sessions they start\<close>

text \<open>
  The requests of \<open>Cri_Exec\<close> together with the sessions of \<open>Streaming\<close>: the URL of an answer leads
  to the session that was asked for, a port-forward session dials its own pod only, and a
  synchronous exec keeps its deadline.
\<close>

subsection \<open>Exec\<close>

lemma on_world_eq: "on_world m (w, s) = (fst (m w), snd (m w), s)"
  by (simp add: on_world_def split_beta)

lemma on_sessions_eq: "on_sessions f (w, s) = (Inr (fst (f s)), w, snd (f s))"
  by (simp add: on_sessions_def split_beta)

lemmas stream_prog = on_world_eq on_sessions_eq prog_simps split_beta

lemma require_container_cases:
  "fst (require_container cx i w) =
     (case get_container cx i w of
        (Inl e, _) \<Rightarrow> Inl (Status Internal (FromMeta e))
      | (Inr None, _) \<Rightarrow> Inl (container_not_found i)
      | (Inr (Some rec), _) \<Rightarrow> Inr rec)"
  by (auto simp: require_container_def internal_def prog_simps ok_or_def split: prod.splits sum.splits option.splits)

text \<open>C34. Exec answers with a URL that works: on success the command is not empty, the container is known,
  and the URL is the server's base followed by a token under which exactly the requested session
  (container, command, terminal and streams) waits; a request to that path reaches the exec endpoint
  with that token, whose session then takes it. On an error no session is left behind.\<close>

theorem exec_url_serves_session:
  assumes "cri_exec cx now req (w, s) = (r, w', s')"
  shows "case r of
           Inl e \<Rightarrow> s' = s \<and> (xq_cmd req = [] \<or> (\<forall>rec. fst (get_container cx (xq_container_id req) w) \<noteq> Inr (Some rec)))
         | Inr url \<Rightarrow> \<exists>token. url = cx_stream_base_url cx @ ''/exec/'' @ token
             \<and> xq_cmd req \<noteq> [] \<and> (\<exists>rec. fst (get_container cx (xq_container_id req) w) = Inr (Some rec))
             \<and> router ws [''exec'', token] hs = Some (exec_entry ws token hs)
             \<and> fst (take_exec token s') = Some (session_of_exec req)
             \<and> fst (take_exec token (snd (take_exec token s'))) = None"
proof (cases "xq_cmd req = []")
  case True
  then show ?thesis using assms by (auto simp: cri_exec_def stream_prog)
next
  case cmd: False
  show ?thesis
  proof (cases "fst (require_container cx (xq_container_id req) w)")
    case (Inl e)
    then have "r = Inl e \<and> s' = s" using assms cmd by (auto simp: cri_exec_def stream_prog)
    moreover have "fst (get_container cx (xq_container_id req) w) \<noteq> Inr (Some rec)" for rec
      using Inl require_container_cases [of cx "xq_container_id req" w] by (auto split: prod.splits)
    ultimately show ?thesis by simp
  next
    case (Inr rec)
    obtain token s1 where reg: "register_exec (cx_sha cx) now (session_of_exec req) s = (token, s1)"
      by (cases "register_exec (cx_sha cx) now (session_of_exec req) s")
    with Inr assms cmd have "r = Inr (cx_stream_base_url cx @ ''/exec/'' @ token)" "s' = s1"
      by (auto simp: cri_exec_def stream_prog)
    moreover have "fst (get_container cx (xq_container_id req) w) = Inr (Some rec)"
      using Inr require_container_cases [of cx "xq_container_id req" w] by (auto split: prod.splits sum.splits option.splits)
    ultimately show ?thesis
      using ext.redeem_registered [OF reg] ext.redeem_twice [of token s1] cmd by auto
  qed
qed

subsection \<open>Port forwarding\<close>

lemma pf_open_dials: "pf_dials (pf_open lib lk host c port rest st) = pf_dials st @ [(host, port)]"
  by (auto simp: pf_open_def put_def split_beta Let_def split: sum.splits)

lemma pf_message_dials:
  "\<forall>d \<in> set (pf_dials st). fst d = host \<Longrightarrow> d \<in> set (pf_dials (pf_message lib lk host m st)) \<Longrightarrow> fst d = host"
  by (cases "(lib, lk, host, m, st)" rule: pf_message.cases)
    (auto simp: pf_open_dials split: if_splits option.splits list.splits)

lemma pf_steps_dials:
  "pf_steps lib lk host ts st = Some st' \<Longrightarrow> \<forall>d \<in> set (pf_dials st). fst d = host \<Longrightarrow> \<forall>d \<in> set (pf_dials st'). fst d = host"
proof (induction ts arbitrary: st)
  case (Cons t ts)
  then obtain st1 where t: "pf_step lib lk host t st = Some st1" and ts: "pf_steps lib lk host ts st1 = Some st'"
    by (auto simp: bind_eq_Some_conv)
  have "\<forall>d \<in> set (pf_dials st1). fst d = host"
  proof (cases t)
    case PfMessage
    then obtain m rest where "st1 = pf_message lib lk host m (st\<lparr>pf_in := rest\<rparr>)"
      using t by (auto simp: pf_step_def split: list.splits option.splits)
    then show ?thesis using pf_message_dials [of "st\<lparr>pf_in := rest\<rparr>" host _ lib lk m] Cons.prems(2) by auto
  next
    case (PfPump i)
    then have turn: "pump_turn lk i st = Some st1" using t by (simp add: pf_step_def)
    have "pf_dials st1 = pf_dials st" by (rule pump_turn_cases [OF turn], simp_all)
    then show ?thesis using Cons.prems(2) by simp
  qed
  then show ?case using Cons.IH [OF ts] by blast
qed simp

text \<open>A port-forward session reaches its pod and nothing else: after a successful PortForward the
  token of the URL opens a session in which every connection, whatever frames the client sends and
  however the tasks are scheduled, is dialled at the address of the sandbox: 127.0.0.1 for a pod on
  the host network, otherwise the address recorded for the pod.\<close>

theorem port_forward_reaches_pod:
  assumes "port_forward cx now i (w, s) = (Inr url, w', s')"
    and "url = cx_stream_base_url cx @ ''/portforward/'' @ token"
    and "fst (handle_portforward token s' msgs v) = Some (host, st0)"
    and "pf_steps lib lk host ts st0 = Some st"
  shows "\<exists>sb. fst (get_sandbox cx i w) = Inr (Some sb) \<and> (\<forall>d \<in> set (pf_dials st). fst d = forward_host sb)
           \<and> (sb_host_network sb \<longrightarrow> forward_host sb = ''127.0.0.1'')
           \<and> (\<not> sb_host_network sb \<longrightarrow> (\<forall>ip. sb_ip sb = Some ip \<and> ip \<noteq> [] \<longrightarrow> forward_host sb = ip))"
proof -
  obtain sb where sb: "fst (get_sandbox cx i w) = Inr (Some sb)"
      "register_portforward (cx_sha cx) now \<lparr>ps_pod_sandbox_id = i, ps_host = forward_host sb\<rparr> s = (token, s')"
    using assms(1,2)
    by (auto simp: port_forward_def internal_def stream_prog ok_or_def split: sum.splits option.splits)
  then have "host = forward_host sb" "st0 = pf_start msgs v"
    using pft.redeem_registered [OF sb(2)] assms(3) by (auto simp: handle_portforward_def split_beta)
  then have "\<forall>d \<in> set (pf_dials st). fst d = forward_host sb"
    using pf_steps_dials [OF assms(4)] by (simp add: pf_start_def)
  with sb(1) show ?thesis by (auto simp: forward_host_def)
qed

subsection \<open>ExecSync\<close>

lemma await_keeps [simp]:
  "os_sched (snd (await w)) = os_sched w" "os_fs (snd (await w)) = os_fs w" "cr_kills (snd (await w)) = cr_kills w"
  "fst (await w) = Inr ()"
  by (simp_all add: await_def prog_simps split: list.splits)

lemma exec_timed_out_kills:
  assumes "os_sched w = []" "lookup w pid_file = Some (File bs)" "from_utf8 bs = Some t" "parse_signed 32 (trim t) = Some pid" "pid \<noteq> 0"
    and "ec_id c = Some g" "g \<noteq> 0"
  shows "\<exists>w'. exec_timed_out pid_file c timeout' w = (Inl (Status DeadlineExceeded (Msg (''exec timed out after '' @ dec_int timeout' @ ''s''))), w')
           \<and> cr_kills w' = cr_kills w @ [pid, - sint g] \<and> lookup w' pid_file = None"
proof -
  have "sint g \<noteq> 0" using assms(7) by (metis signed_eq_0_iff)
  with assms show ?thesis
    by (auto simp: exec_timed_out_def prog_simps read_to_string_def read_file_def syscall_def next_event_def tick_def lookup_def
        ok_or_def ok_def pid_from_raw_def send_kill_def remove_file_def del_node_def delete_conv')
qed


subsection \<open>Examples\<close>

definition sample_exec_request :: exec_request where
  "sample_exec_request = \<lparr>xq_container_id = ''c1'', xq_cmd = [''sh''], xq_tty = False, xq_stdin = True, xq_stdout = True, xq_stderr = True\<rparr>"

definition sample_exec_ctx :: "(mem_db, mem_db, string, unit) cri_ctx" where
  "sample_exec_ctx = sample_ctx [] [sample_container Running] []"

definition sample_exec_world :: "mem_db cri_os" where
  "sample_exec_world = sample_world (sample_db [] [(''k8s.io/c1'', [0])] []) [] []"

lemma sample_exec_container: "fst (get_container sample_exec_ctx ''c1'' sample_exec_world) = Inr (Some (sample_container Running))"
proof -
  have "container_in sample_exec_ctx ''c1'' (cr_db sample_exec_world) = Inr (Some (sample_container Running))"
    by (simp add: sample_exec_ctx_def sample_exec_world_def sample_world_def sample_reads mem_get sample_db_def sample_des_def)
  then show ?thesis by (simp add: get_run)
qed

theorem exec_url_serves_session_witness:
  "\<exists>url w' s'. cri_exec sample_exec_ctx 5 sample_exec_request (sample_exec_world, sessions_new [''run'', ''crun'']) = (Inr url, w', s')
     \<and> (\<exists>token. url = ''http://127.0.0.1:10010/exec/'' @ token \<and> fst (take_exec token s') = Some (session_of_exec sample_exec_request))"
proof -
  obtain r w' s' where run: "cri_exec sample_exec_ctx 5 sample_exec_request (sample_exec_world, sessions_new [''run'', ''crun'']) = (r, w', s')"
    by (cases "cri_exec sample_exec_ctx 5 sample_exec_request (sample_exec_world, sessions_new [''run'', ''crun''])") auto
  have req: "xq_cmd sample_exec_request \<noteq> []" "fst (get_container sample_exec_ctx (xq_container_id sample_exec_request) sample_exec_world) = Inr (Some (sample_container Running))"
    using sample_exec_container by (simp_all add: sample_exec_request_def)
  have base: "cx_stream_base_url sample_exec_ctx = ''http://127.0.0.1:10010''" by (simp add: sample_exec_ctx_def sample_ctx_def)
  show ?thesis
    using exec_url_serves_session [OF run, of "\<lambda>_. Inr ()" "[]"] req base run by (cases r) auto
qed


definition sample_net_pod :: sandbox_record where
  "sample_net_pod = (sample_sandbox ''p1'' ''u1'' Ready)\<lparr>sb_host_network := False, sb_ip := Some ''10.0.0.7''\<rparr>"

definition sample_net_ctx :: "(mem_db, mem_db, string, unit) cri_ctx" where
  "sample_net_ctx = sample_ctx [sample_net_pod] [] []"

definition sample_net_world :: "mem_db cri_os" where
  "sample_net_world = sample_world (sample_db [(''k8s.io/p1'', [0])] [] []) [] []"

theorem port_forward_reaches_pod_witness:
  "\<exists>url w' s' token host st0 st.
     port_forward sample_net_ctx 5 ''p1'' (sample_net_world, sessions_new [''run'']) = (Inr url, w', s')
     \<and> fst (handle_portforward token s' [Some (WsBinary [0, 80, 0])] []) = Some (host, st0)
     \<and> pf_steps sample_pf_lib (ws_link sample_send) host [PfMessage] st0 = Some st
     \<and> pf_dials st = [(''10.0.0.7'', 80)] \<and> (\<forall>d \<in> set (pf_dials st). fst d = forward_host sample_net_pod)"
proof -
  have db: "sandbox_in sample_net_ctx ''p1'' (cr_db sample_net_world) = Inr (Some sample_net_pod)"
    by (simp add: sample_net_ctx_def sample_net_world_def sample_world_def sample_reads mem_get sample_db_def sample_des_def)
  have fh: "forward_host sample_net_pod = ''10.0.0.7''" by (simp add: forward_host_def sample_net_pod_def)
  obtain token s' where reg: "register_portforward (cx_sha sample_net_ctx) 5 \<lparr>ps_pod_sandbox_id = ''p1'', ps_host = ''10.0.0.7''\<rparr> (sessions_new [''run'']) = (token, s')"
    by (cases "register_portforward (cx_sha sample_net_ctx) 5 \<lparr>ps_pod_sandbox_id = ''p1'', ps_host = ''10.0.0.7''\<rparr> (sessions_new [''run''])")
  have run: "port_forward sample_net_ctx 5 ''p1'' (sample_net_world, sessions_new [''run''])
      = (Inr (cx_stream_base_url sample_net_ctx @ ''/portforward/'' @ token), sample_net_world, s')"
    using db reg by (simp add: port_forward_def internal_def stream_prog get_run map_err_def ok_or_def fh)
  have h: "fst (handle_portforward token s' [Some (WsBinary [0, 80, 0])] []) = Some (''10.0.0.7'', pf_start [Some (WsBinary [0, 80, 0])] [])"
    using pft.redeem_registered [OF reg] by (simp add: handle_portforward_def split_beta)
  obtain st where st: "pf_steps sample_pf_lib (ws_link sample_send) ''10.0.0.7'' [PfMessage] (pf_start [Some (WsBinary [0, 80, 0])] []) = Some st"
      "pf_dials st = [(''10.0.0.7'', 80)]"
    by (simp add: sample_pf_lib_def pf_step_def pf_start_def pf_open_def le_u16_def Let_def)
  from port_forward_reaches_pod [OF run refl h st(1)]
  have "\<forall>d \<in> set (pf_dials st). fst d = forward_host sample_net_pod" using db by (auto simp: get_run)
  with run h st show ?thesis by blast
qed

end
