(* ===== verification/Cri_Stats.thy ===== *)
theory Cri_Stats
  imports Cri_Container Cri_Images Spdy_Mux
begin

section \<open>Statistics and metrics\<close>

text \<open>
  The handlers of \<open>crates/cri/src/server.rs\<close> that report resource usage: a container's sample
  (\<open>crun events --stats\<close>), the pod's control group, the metric families and the space the images
  take. A sample that fails is reported as zero and never drops the entry.
\<close>

record cpu_usage =
  cu_timestamp :: i64
  cu_usage_core_nano_seconds :: u64

record memory_usage =
  mu_timestamp :: i64
  mu_working_set_bytes :: u64
  mu_usage_bytes :: u64
  mu_rss_bytes :: "u64 option"

record container_stats_msg =
  cs_id :: string
  cs_name :: string
  cs_attempt :: u32
  cs_labels :: str_map
  cs_annotations :: str_map
  cs_cpu :: cpu_usage
  cs_memory :: memory_usage

record pod_stats_msg =
  pst_id :: string
  pst_metadata :: pod_sandbox_metadata
  pst_labels :: str_map
  pst_annotations :: str_map
  pst_cpu :: cpu_usage
  pst_memory :: memory_usage
  pst_containers :: "container_stats_msg list"

subsection \<open>Containers\<close>

definition stats_args :: "fpath \<Rightarrow> string \<Rightarrow> string list" where
  "stats_args root i = [''--root'', path_display root, ''events'', ''--stats'', i]"

definition crun_stats :: "fpath \<Rightarrow> string \<Rightarrow> ('d cri_os, 'e, proc_outcome) prog" where
  "crun_stats root i = run_crun (stats_args root i)"

text \<open>Indexing a JSON value: null for a missing key.\<close>

definition j_at :: "json \<Rightarrow> string \<Rightarrow> json" where
  "j_at v k = unwrap_or JNull (j_get k v)"

definition usage_of :: "json \<Rightarrow> u64 \<times> u64" where
  "usage_of v =
     (let data = j_at v ''data'' in
      (unwrap_or 0 (as_u64 (j_at (j_at (j_at data ''cpu'') ''usage'') ''total'')),
       unwrap_or 0 (as_u64 (j_at (j_at (j_at data ''memory'') ''usage'') ''usage''))))"

definition sample_usage :: "('d, 't, 'sec, 'b) cri_ctx \<Rightarrow> string \<Rightarrow> ('d cri_os, 'e, u64 \<times> u64) prog" where
  "sample_usage cx i =
     pbind (crun_stats (crun_root cx) i) (\<lambda>out.
     pseq await
     (pret (case out of
        ProcExit code sout _ \<Rightarrow>
          if exit_success code then (case cx_json cx sout of Some v \<Rightarrow> usage_of v | None \<Rightarrow> (0, 0)) else (0, 0)
      | ProcError _ \<Rightarrow> (0, 0))))"

definition container_stats_for ::
  "('d, 't, 'sec, 'b) cri_ctx \<Rightarrow> container_record \<Rightarrow> ('d cri_os, 'e, container_stats_msg option) prog" where
  "container_stats_for cx rec =
     (if ct_state rec \<noteq> Running then pret None
      else
        pbind (sample_usage cx (ct_id rec)) (\<lambda>(cpu_total, mem_usage).
        pbind unix_nanos (\<lambda>ts.
          pret (Some
            \<lparr>cs_id = ct_id rec, cs_name = ct_name rec, cs_attempt = ct_attempt rec, cs_labels = ct_labels rec,
             cs_annotations = ct_annotations rec,
             cs_cpu = \<lparr>cu_timestamp = ts, cu_usage_core_nano_seconds = cpu_total\<rparr>,
             cs_memory = \<lparr>mu_timestamp = ts, mu_working_set_bytes = mem_usage, mu_usage_bytes = mem_usage, mu_rss_bytes = None\<rparr>\<rparr>))))"

definition container_stats :: "('d, 't, 'sec, 'b) cri_ctx \<Rightarrow> string \<Rightarrow> ('d, container_stats_msg option) rpc" where
  "container_stats cx i = pbind (require_container cx i) (container_stats_for cx)"

record container_stats_filter =
  csf_id :: string
  csf_pod_sandbox_id :: string
  csf_label_selector :: str_map

definition stats_keep :: "container_stats_filter option \<Rightarrow> container_record \<Rightarrow> bool" where
  "stats_keep filt rec =
     (case filt of
        None \<Rightarrow> True
      | Some f \<Rightarrow>
          (csf_id f = [] \<or> csf_id f = ct_id rec)
          \<and> (csf_pod_sandbox_id f = [] \<or> csf_pod_sandbox_id f = ct_sandbox_id rec)
          \<and> labels_match (csf_label_selector f) (ct_labels rec))"

definition push_stats ::
  "('d, 't, 'sec, 'b) cri_ctx \<Rightarrow> container_stats_msg list \<Rightarrow> container_record \<Rightarrow> ('d cri_os, 'e, container_stats_msg list) prog" where
  "push_stats cx acc rec =
     pbind (container_stats_for cx rec) (\<lambda>s. pret (case s of Some x \<Rightarrow> acc @ [x] | None \<Rightarrow> acc))"

definition list_container_stats ::
  "('d, 't, 'sec, 'b) cri_ctx \<Rightarrow> container_stats_filter option \<Rightarrow> ('d, container_stats_msg list) rpc" where
  "list_container_stats cx filt =
     pbind (internal (list_container_records cx)) (\<lambda>records.
       pfold (\<lambda>acc rec. if stats_keep filt rec then push_stats cx acc rec else pret acc) [] records)"

subsection \<open>Pods\<close>

definition CGROUP_FS :: fpath where "CGROUP_FS = [''sys'', ''fs'', ''cgroup'']"

definition no_stats :: cgroup_stats where
  "no_stats =
     \<lparr>cg_cpu_usage_nanos = 0, cg_memory_current_bytes = 0, cg_memory_anon_bytes = 0, cg_io_rbytes = 0, cg_io_wbytes = 0,
      cg_oom_kill = 0\<rparr>"

definition pod_cgroup_stats :: "sandbox_record \<Rightarrow> ('z os_scheme, 'e, cgroup_stats) prog" where
  "pod_cgroup_stats sb =
     (if sb_cgroup_parent sb = [] then pret no_stats
      else read_stats (fjoin CGROUP_FS (trim_start_matches (CHR ''/'') (sb_cgroup_parent sb))))"

definition pod_sandbox_stats_for ::
  "('d, 't, 'sec, 'b) cri_ctx \<Rightarrow> sandbox_record \<Rightarrow> ('d cri_os, 'e, pod_stats_msg) prog" where
  "pod_sandbox_stats_for cx sb =
     pbind unix_nanos (\<lambda>ts.
     pbind (pod_cgroup_stats sb) (\<lambda>cg.
     pbind (attempt (list_container_records cx)) (\<lambda>recs.
     pbind (case recs of
              Inl _ \<Rightarrow> pret []
            | Inr rs \<Rightarrow> pfold (push_stats cx) [] (filter (\<lambda>r. ct_sandbox_id r = sb_id sb) rs)) (\<lambda>containers.
       pret
         \<lparr>pst_id = sb_id sb, pst_metadata = sandbox_metadata sb, pst_labels = sb_labels sb, pst_annotations = sb_annotations sb,
          pst_cpu = \<lparr>cu_timestamp = ts, cu_usage_core_nano_seconds = cg_cpu_usage_nanos cg\<rparr>,
          pst_memory = \<lparr>mu_timestamp = ts, mu_working_set_bytes = cg_memory_current_bytes cg,
                        mu_usage_bytes = cg_memory_current_bytes cg, mu_rss_bytes = Some (cg_memory_anon_bytes cg)\<rparr>,
          pst_containers = containers\<rparr>))))"

definition pod_sandbox_stats :: "('d, 't, 'sec, 'b) cri_ctx \<Rightarrow> string \<Rightarrow> ('d, pod_stats_msg) rpc" where
  "pod_sandbox_stats cx i =
     pbind (internal (get_sandbox cx i)) (\<lambda>r.
     pbind (plift (ok_or (Status NotFoundCode (Msg (''sandbox '' @ i @ '' not found''))) r)) (pod_sandbox_stats_for cx))"

text \<open>The filter of a list of pods keeps by identifier only.\<close>

definition list_pod_sandbox_stats :: "('d, 't, 'sec, 'b) cri_ctx \<Rightarrow> string option \<Rightarrow> ('d, pod_stats_msg list) rpc" where
  "list_pod_sandbox_stats cx filt =
     pbind (internal (list_sandboxes cx)) (\<lambda>sandboxes.
       pfold (\<lambda>acc sb.
           if (case filt of None \<Rightarrow> True | Some i \<Rightarrow> i = [] \<or> i = sb_id sb)
           then pbind (pod_sandbox_stats_for cx sb) (\<lambda>s. pret (acc @ [s])) else pret acc) [] sandboxes)"

subsection \<open>Metrics\<close>

record metric_descriptor =
  md_name :: string
  md_help :: string
  md_label_keys :: "string list"

definition metric_descriptors :: "metric_descriptor list" where
  "metric_descriptors =
     [\<lparr>md_name = ''container_cpu_usage_seconds_total'', md_help = ''Cumulative CPU time consumed, in nanoseconds.'', md_label_keys = []\<rparr>,
      \<lparr>md_name = ''container_memory_working_set_bytes'', md_help = ''Current memory working set, in bytes.'', md_label_keys = []\<rparr>]"

datatype metric_type = Counter | Gauge

record metric =
  mt_name :: string
  mt_timestamp :: i64
  mt_type :: metric_type
  mt_label_values :: "string list"
  mt_value :: u64

definition new_metric :: "string \<Rightarrow> metric_type \<Rightarrow> u64 \<Rightarrow> i64 \<Rightarrow> metric" where
  "new_metric name ty v ts = \<lparr>mt_name = name, mt_timestamp = ts, mt_type = ty, mt_label_values = [], mt_value = v\<rparr>"

definition pod_sandbox_metrics_for :: "sandbox_record \<Rightarrow> ('d cri_os, 'e, string \<times> metric list) prog" where
  "pod_sandbox_metrics_for sb =
     pbind unix_nanos (\<lambda>ts.
     pbind (pod_cgroup_stats sb) (\<lambda>cg.
       pret (sb_id sb,
             [new_metric ''container_cpu_usage_seconds_total'' Counter (cg_cpu_usage_nanos cg) ts,
              new_metric ''container_memory_working_set_bytes'' Gauge (cg_memory_current_bytes cg) ts])))"

definition list_metric_descriptors :: "('d, metric_descriptor list) rpc" where
  "list_metric_descriptors = pret metric_descriptors"

definition list_pod_sandbox_metrics :: "('d, 't, 'sec, 'b) cri_ctx \<Rightarrow> ('d, (string \<times> metric list) list) rpc" where
  "list_pod_sandbox_metrics cx = pbind (internal (list_sandboxes cx)) (pmap pod_sandbox_metrics_for)"

subsection \<open>The space of the images\<close>

text \<open>The recursion over a directory, with a bound on its depth: entries that cannot be read and files
  whose size cannot be read are skipped.\<close>

fun dir_size_from :: "nat \<Rightarrow> fpath \<Rightarrow> ('z os_scheme, 'e, u64) prog" where
  "dir_size_from 0 p = pret 0"
| "dir_size_from (Suc n) p =
     pbind (attempt (read_dir p)) (\<lambda>r.
       case r of
         Inl _ \<Rightarrow> pret 0
       | Inr entries \<Rightarrow>
           pfold (\<lambda>total' (q, node).
               pbind (attempt sync_handle) (\<lambda>entry.
                 case (entry, node) of
                   (Inl _, _) \<Rightarrow> pret total'
                 | (Inr _, Dir) \<Rightarrow> pbind (dir_size_from n q) (\<lambda>k. pret (total' + k))
                 | (Inr _, File bs) \<Rightarrow>
                     pbind (attempt sync_handle) (\<lambda>meta.
                       pret (case meta of Inr _ \<Rightarrow> total' + of_nat (length bs) | Inl _ \<Rightarrow> total')))) 0 entries)"

text \<open>No path is deeper than the longest one.\<close>

definition dir_size :: "fpath \<Rightarrow> ('z os_scheme, 'e, u64) prog" where
  "dir_size p w = dir_size_from (Suc (fs_depth (os_fs w))) p w"

record filesystem_usage =
  fu_timestamp :: i64
  fu_mountpoint :: string
  fu_used_bytes :: u64

definition image_fs_info :: "('d, 't, 'sec, 'b) cri_ctx \<Rightarrow> ('d, filesystem_usage list) rpc" where
  "image_fs_info cx =
     pbind (with_err (\<lambda>e. Status Internal (FromContent e)) (total_size (cx_content cx))) (\<lambda>blobs.
     pbind (dir_size (cx_snapshots_root cx)) (\<lambda>snaps.
     pbind unix_nanos (\<lambda>ts.
       pret [\<lparr>fu_timestamp = ts, fu_mountpoint = path_display (cx_snapshots_root cx), fu_used_bytes = blobs + snaps\<rparr>])))"

end
