(* ===== verification/Cri_Stats_Properties.thy ===== *)
theory Cri_Stats_Properties
  imports Cri_Stats Cri_Pods
begin

section \<open>What the statistics report\<close>

text \<open>
  Every running container that a filter keeps has an entry, whatever became of its sample; the size
  of a directory is the sum over the files below it; and the numbers of a pod never wrap around.
\<close>

subsection \<open>Container statistics\<close>

text \<open>An entry that names its container, whatever its numbers are.\<close>

definition describes :: "container_record \<Rightarrow> container_stats_msg \<Rightarrow> bool" where
  "describes rec s \<longleftrightarrow>
     cs_id s = ct_id rec \<and> cs_name s = ct_name rec \<and> cs_attempt s = ct_attempt rec \<and> cs_labels s = ct_labels rec
     \<and> cs_annotations s = ct_annotations rec"

lemma push_stats_runs:
  "\<exists>new w'. push_stats cx acc rec w = (Inr (acc @ new), w')
            \<and> list_all2 describes (if ct_state rec = Running then [rec] else []) new"
  by (auto simp: push_stats_def container_stats_for_def sample_usage_def crun_stats_def run_crun_def await_def unix_nanos_def
      describes_def prog_simps split_beta)

lemma push_stats_fold:
  "\<exists>new w'. pfold (\<lambda>acc rec. if keep rec then push_stats cx acc rec else pret acc) acc recs w = (Inr (acc @ new) :: 'e + _, w')
            \<and> list_all2 describes (filter (\<lambda>r. keep r \<and> ct_state r = Running) recs) new"
proof (induction recs arbitrary: acc w)
  case (Cons rec recs)
  show ?case
  proof (cases "keep rec")
    case True
    obtain new w1 where one: "push_stats cx acc rec w = (Inr (acc @ new) :: 'e + _, w1)"
        "list_all2 describes (if ct_state rec = Running then [rec] else []) new"
      using push_stats_runs [of cx acc rec w] by blast
    obtain new' w2 where more: "pfold (\<lambda>acc rec. if keep rec then push_stats cx acc rec else pret acc) (acc @ new) recs w1 = (Inr ((acc @ new) @ new') :: 'e + _, w2)"
        "list_all2 describes (filter (\<lambda>r. keep r \<and> ct_state r = Running) recs) new'"
      using Cons.IH [of "acc @ new" w1] by blast
    have "list_all2 describes ((if ct_state rec = Running then [rec] else []) @ filter (\<lambda>r. keep r \<and> ct_state r = Running) recs) (new @ new')"
      using one(2) more(2) by (rule list_all2_appendI)
    then show ?thesis
      using one(1) more(1) True by (intro exI [of _ "new @ new'"] exI [of _ w2]) (auto simp: prog_simps split: if_splits)
  next
    case False
    then show ?thesis using Cons.IH [of acc w] by (simp add: prog_simps)
  qed
qed (simp add: prog_simps)

text \<open>ListContainerStats reports every running container that the filter keeps, once, in the order
  of the records, with its identity and labels; no failure of the sampling and no change made while
  it runs drops or adds an entry, and the call itself does not fail.\<close>

theorem list_container_stats_complete:
  assumes "list_container_records cx w = (Inr recs, w1)"
  shows "\<exists>stats w'. list_container_stats cx filt w = (Inr stats, w')
           \<and> list_all2 describes (filter (\<lambda>r. stats_keep filt r \<and> ct_state r = Running) recs) stats"
proof -
  obtain stats w' where "pfold (\<lambda>acc rec. if stats_keep filt rec then push_stats cx acc rec else pret acc) [] recs w1
        = ((Inr ([] @ stats) :: rpc_status + _), w')"
      "list_all2 describes (filter (\<lambda>r. stats_keep filt r \<and> ct_state r = Running) recs) stats"
    using push_stats_fold [of "stats_keep filt" cx "[]" recs w1] by blast
  then show ?thesis
    using assms by (auto simp: list_container_stats_def internal_def prog_simps)
qed

subsection \<open>The size of a directory\<close>

text \<open>A file system in which every path has one node and lies in a directory, and the bytes of the
  files below a path.\<close>

definition tree_fs :: "fsys \<Rightarrow> bool" where
  "tree_fs fs \<longleftrightarrow>
     distinct (map fst fs) \<and> (\<forall>(q, n) \<in> set fs. q \<noteq> [] \<and> (butlast q = [] \<or> (butlast q, Dir) \<in> set fs))"

fun node_bytes :: "node \<Rightarrow> nat" where
  "node_bytes (File bs) = length bs"
| "node_bytes Dir = 0"

definition bytes_below :: "fsys \<Rightarrow> fpath \<Rightarrow> nat" where
  "bytes_below fs p = (\<Sum>(q, n) \<in> {x \<in> set fs. below p (fst x) \<and> fst x \<noteq> p}. node_bytes n)"

lemma tree_fs_unique: "tree_fs fs \<Longrightarrow> (q, m) \<in> set fs \<Longrightarrow> (q, n) \<in> set fs \<Longrightarrow> m = n"
  by (auto simp: tree_fs_def dest: eq_key_imp_eq_value)

lemma tree_fs_ancestor: "tree_fs fs \<Longrightarrow> (p @ r, n) \<in> set fs \<Longrightarrow> r \<noteq> [] \<Longrightarrow> p \<noteq> [] \<Longrightarrow> (p, Dir) \<in> set fs"
proof (induction r arbitrary: n rule: rev_induct)
  case (snoc x r)
  then have "(p @ r, Dir) \<in> set fs"
    by (auto simp: tree_fs_def butlast_append simp flip: append_assoc)
  with snoc show ?case by (cases "r = []") auto
qed simp

definition child_tree :: "fsys \<Rightarrow> fpath \<times> node \<Rightarrow> (fpath \<times> node) set" where
  "child_tree fs e = {x \<in> set fs. below (fst e) (fst x)}"

lemma child_tree_bytes:
  assumes "tree_fs fs" "(c, n) \<in> set fs"
  shows "(\<Sum>(q, n) \<in> child_tree fs (c, n). node_bytes n) = (case n of File bs \<Rightarrow> length bs | Dir \<Rightarrow> bytes_below fs c)"
proof -
  have split: "child_tree fs (c, n) = insert (c, n) {x \<in> set fs. below c (fst x) \<and> fst x \<noteq> c}"
    using assms tree_fs_unique [OF assms(1)] by (auto simp: child_tree_def)
  have "{x \<in> set fs. below c (fst x) \<and> fst x \<noteq> c} = {}" if "n = File bs" for bs
  proof (rule ccontr)
    assume "{x \<in> set fs. below c (fst x) \<and> fst x \<noteq> c} \<noteq> {}"
    then obtain r m where "(c @ r, m) \<in> set fs" "r \<noteq> []" by (auto simp: below_iff)
    moreover have "c \<noteq> []" using assms by (auto simp: tree_fs_def)
    ultimately have "(c, Dir) \<in> set fs" using tree_fs_ancestor [OF assms(1)] by blast
    with tree_fs_unique [OF assms(1) assms(2)] that show False by blast
  qed
  moreover have "(\<Sum>(q, n) \<in> child_tree fs (c, n). node_bytes n)
      = node_bytes n + (\<Sum>(q, n) \<in> {x \<in> set fs. below c (fst x) \<and> fst x \<noteq> c}. node_bytes n)"
    unfolding split by (subst sum.insert) auto
  ultimately show ?thesis unfolding bytes_below_def by (cases n) auto
qed

lemma bytes_below_children:
  assumes "tree_fs fs"
  shows "bytes_below fs p = (\<Sum>(c, n) \<in> set (dir_entries p fs). case n of File bs \<Rightarrow> length bs | Dir \<Rightarrow> bytes_below fs c)"
proof -
  let ?E = "set (dir_entries p fs)"
  have E: "(c, n) \<in> ?E \<longleftrightarrow> (c, n) \<in> set fs \<and> (\<exists>x. c = p @ [x])" for c n
    by (auto simp: dir_entries_def) (metis append_butlast_last_id)
  have cover: "{x \<in> set fs. below p (fst x) \<and> fst x \<noteq> p} = (\<Union>e \<in> ?E. child_tree fs e)"
  proof (intro equalityI subsetI)
    fix x assume x: "x \<in> {x \<in> set fs. below p (fst x) \<and> fst x \<noteq> p}"
    then obtain y r n where q: "x = (p @ y # r, n)" "(p @ y # r, n) \<in> set fs"
      by (cases x, auto simp: below_iff) (metis list.exhaust)
    then have "\<exists>m. (p @ [y], m) \<in> set fs"
      using tree_fs_ancestor [OF assms, of "p @ [y]" r n] by (cases "r = []") auto
    then obtain m where "(p @ [y], m) \<in> ?E" using E by auto
    with q show "x \<in> (\<Union>e \<in> ?E. child_tree fs e)"
      by (intro UN_I [of "(p @ [y], m)"]) (auto simp: child_tree_def below_iff)
  next
    fix x assume "x \<in> (\<Union>e \<in> ?E. child_tree fs e)"
    then obtain c n where "(c, n) \<in> ?E" "x \<in> set fs" "below c (fst x)" by (auto simp: child_tree_def)
    then show "x \<in> {x \<in> set fs. below p (fst x) \<and> fst x \<noteq> p}" using E by (auto simp: below_iff)
  qed
  have disj: "\<forall>e \<in> ?E. \<forall>f \<in> ?E. e \<noteq> f \<longrightarrow> child_tree fs e \<inter> child_tree fs f = {}"
  proof (intro ballI impI equals0I)
    fix e f x assume ef: "e \<in> ?E" "f \<in> ?E" "e \<noteq> f" and x: "x \<in> child_tree fs e \<inter> child_tree fs f"
    obtain c n d m where p: "e = (c, n)" "f = (d, m)" by (cases e; cases f)
    then obtain y z where "c = p @ [y]" "d = p @ [z]" "(c, n) \<in> set fs" "(d, m) \<in> set fs" using ef(1,2) E by auto
    moreover have "below c (fst x)" "below d (fst x)" using x p by (auto simp: child_tree_def)
    ultimately show False using p ef(3) tree_fs_unique [OF assms, of c n m] by (auto simp: below_iff)
  qed
  have "bytes_below fs p = (\<Sum>e \<in> ?E. \<Sum>(q, n) \<in> child_tree fs e. node_bytes n)"
    unfolding bytes_below_def cover
    by (rule sum.UNION_disjoint) (use disj in \<open>auto simp: child_tree_def\<close>)
  also have "\<dots> = (\<Sum>(c, n) \<in> ?E. case n of File bs \<Rightarrow> length bs | Dir \<Rightarrow> bytes_below fs c)"
    by (rule sum.cong) (auto simp: child_tree_bytes [OF assms] E)
  finally show ?thesis .
qed

text \<open>The walk, when every call succeeds.\<close>

lemma quiet_sync: "os_sched w = [] \<Longrightarrow> sync_handle w = (Inr (), w)"
  by (simp add: sync_handle_def syscall_def next_event_def tick_def)

lemma quiet_read_dir: "os_sched w = [] \<Longrightarrow> lookup w p = Some Dir \<Longrightarrow> read_dir p w = (Inr (dir_entries p (os_fs w)), w)"
  by (simp add: read_dir_def syscall_def next_event_def tick_def lookup_def)

lemma dir_size_walk:
  fixes w :: "'z os_scheme"
  assumes "os_sched w = []" "tree_fs (os_fs w)"
  shows "lookup w p = Some Dir \<Longrightarrow> fs_depth (os_fs w) < n + length p \<Longrightarrow>
         dir_size_from n p w = (Inr (of_nat (bytes_below (os_fs w) p)) :: 'e + u64, w)"
proof (induction n arbitrary: p)
  case 0
  then have "(p, Dir) \<in> set (os_fs w)" by (simp add: lookup_def map_of_SomeD)
  with 0 fs_depth_le show ?case by force
next
  case (Suc n)
  let ?size = "\<lambda>(c, n). case n of File bs \<Rightarrow> length bs | Dir \<Rightarrow> bytes_below (os_fs w) c"
  let ?f = "\<lambda>total' (q, node). (pbind :: _ \<Rightarrow> _ \<Rightarrow> ('z os_scheme, 'e, u64) prog) (attempt sync_handle) (\<lambda>entry.
                 case (entry, node) of
                   (Inl _, _) \<Rightarrow> pret total'
                 | (Inr _, Dir) \<Rightarrow> pbind (dir_size_from n q) (\<lambda>k. pret (total' + k))
                 | (Inr _, File bs) \<Rightarrow>
                     pbind (attempt sync_handle) (\<lambda>meta.
                       pret (case meta of Inr _ \<Rightarrow> total' + of_nat (length bs) | Inl _ \<Rightarrow> total')))"
  have one: "?f k e w = (Inr (k + of_nat (?size e)), w)" if "e \<in> set (dir_entries p (os_fs w))" for e k
  proof (cases e)
    case (Pair c nd)
    with that have c: "(c, nd) \<in> set (os_fs w)" "length c = Suc (length p)"
      by (auto simp: dir_entries_def)
    then have "lookup w c = Some nd" using assms(2) by (simp add: lookup_def tree_fs_def)
    then show ?thesis
      using Pair c Suc.IH [of c] Suc.prems(2) assms(1) by (cases nd) (simp_all add: prog_simps quiet_sync)
  qed
  have fold: "pfold ?f k es w = (Inr (k + of_nat (sum_list (map ?size es))), w)" if "set es \<subseteq> set (dir_entries p (os_fs w))" for es k
    using that one by (induction es arbitrary: k) (simp_all add: prog_simps add.assoc)
  have "distinct (dir_entries p (os_fs w))"
    using assms(2) by (auto simp: tree_fs_def dir_entries_def distinct_map)
  then have "sum_list (map ?size (dir_entries p (os_fs w))) = bytes_below (os_fs w) p"
    by (simp add: bytes_below_children [OF assms(2), of p] sum_list_distinct_conv_sum_set)
  then show ?case
    using fold [of "dir_entries p (os_fs w)" 0] quiet_read_dir [OF assms(1) Suc.prems(1)] by (simp add: prog_simps)
qed

text \<open>What ImageFsInfo adds up for the snapshots: when no call fails, the size of a directory is the
  sum of the lengths of all regular files below it, at whatever depth, at the width of 64 bits;
  the bound on the recursion is never reached.\<close>

theorem dir_size_exact:
  assumes "os_sched w = []" "tree_fs (os_fs w)" "lookup w p = Some Dir"
  shows "dir_size p w = (Inr (of_nat (bytes_below (os_fs w) p)), w)"
  unfolding dir_size_def by (rule dir_size_walk [OF assms]) simp

subsection \<open>Bounds of the pod's numbers\<close>

lemma saturating_mul_unat: "unat (saturating_mul a b) = min (unat a * unat b) (2 ^ 64 - 1)"
proof (cases "unat a * unat b < 2 ^ 64")
  case True
  then show ?thesis by (simp add: saturating_mul_def unat_word_ariths)
next
  case False
  have "unat (- 1 :: u64) = 2 ^ 64 - 1" by (simp add: unsigned_minus_1_eq_mask mask_eq_exp_minus_1)
  with False show ?thesis by (simp add: saturating_mul_def)
qed

definition text_at :: "'z os_scheme \<Rightarrow> fpath \<Rightarrow> string" where
  "text_at w p = (case lookup w p of Some (File bs) \<Rightarrow> unwrap_or [] (from_utf8 bs) | _ \<Rightarrow> [])"

lemma quiet_read: "os_sched w = [] \<Longrightarrow> or_default [] (read_to_string p) w = (Inr (text_at w p), w)"
  by (auto simp: or_default_def read_to_string_def read_file_def syscall_def next_event_def tick_def text_at_def prog_simps
      unwrap_or_def ok_or_def lookup_def split: option.splits node.splits)

text \<open>C39. The CPU time of a pod never wraps around: for a pod with a control group, when no call
  fails, it is a thousand times the microseconds in the group's \<open>cpu.stat\<close>, or the largest 64-bit
  number when that is smaller; a missing file or entry counts as zero. The memory numbers are the
  parsed files.\<close>

theorem pod_numbers_bounded:
  assumes "os_sched w = []" "sb_cgroup_parent sb \<noteq> []"
    and "dir = fjoin CGROUP_FS (trim_start_matches (CHR ''/'') (sb_cgroup_parent sb))"
  shows "\<exists>cg. pod_cgroup_stats sb w = (Inr cg, w)
     \<and> unat (cg_cpu_usage_nanos cg)
         = min (1000 * unat (unwrap_or 0 (parse_flat_keyed (text_at w (fjoin dir ''cpu.stat'')) ''usage_usec''))) (2 ^ 64 - 1)
     \<and> cg_memory_current_bytes cg = unwrap_or 0 (parse_u64 (trim (text_at w (fjoin dir ''memory.current''))))"
  using assms
  by (simp add: pod_cgroup_stats_def read_stats_def read_flat_keyed_def read_single_def prog_simps quiet_read saturating_mul_unat
      mult.commute)

subsection \<open>Examples\<close>

text \<open>A running container whose sample fails, and a small tree.\<close>

theorem list_container_stats_complete_witness:
  "\<exists>s w'. list_container_stats (sample_ctx [] [sample_container Running, sample_container Exited] []) None
            (sample_world (sample_db [] [(''k8s.io/c1'', [0]), (''k8s.io/c2'', [1])] []) [] [ProcError NotFound]) = (Inr [s], w')
          \<and> describes (sample_container Running) s"
proof -
  let ?cx = "sample_ctx [] [sample_container Running, sample_container Exited] []"
  let ?w = "sample_world (sample_db [] [(''k8s.io/c1'', [0]), (''k8s.io/c2'', [1])] []) [] [ProcError NotFound]"
  have "list_container_records ?cx ?w = (Inr [sample_container Running, sample_container Exited], ?w)"
    by (simp add: list_container_records_def sample_ctx_def sample_world_def store_list_def mem_redb_def sample_db_def
        starts_with_def sample_des_def rbind_def map_err_def)
  from list_container_stats_complete [OF this, of None]
  obtain stats w' where "list_container_stats ?cx None ?w = (Inr stats, w')" "list_all2 describes [sample_container Running] stats"
    by (auto simp: stats_keep_def sample_container_def)
  then show ?thesis by (auto simp: list_all2_Cons1)
qed

definition sample_tree :: fsys where
  "sample_tree = [([''snap''], Dir), ([''snap'', ''a''], Dir), ([''snap'', ''a'', ''f''], File [1, 2, 3]), ([''snap'', ''g''], File [4])]"

theorem dir_size_exact_witness:
  "dir_size [''snap''] \<lparr>os_fs = sample_tree, os_sched = [], os_pid = 1, os_seq = 0\<rparr>
     = (Inr 4, \<lparr>os_fs = sample_tree, os_sched = [], os_pid = 1, os_seq = 0\<rparr>)"
proof -
  have t: "tree_fs sample_tree" by (simp add: tree_fs_def sample_tree_def)
  have "{x \<in> set sample_tree. below [''snap''] (fst x) \<and> fst x \<noteq> [''snap'']}
      = {([''snap'', ''a''], Dir), ([''snap'', ''a'', ''f''], File [1, 2, 3]), ([''snap'', ''g''], File [4])}"
    by (auto simp: sample_tree_def below_def)
  then have "bytes_below sample_tree [''snap''] = 4" by (simp add: bytes_below_def)
  then show ?thesis
    using dir_size_exact [of "\<lparr>os_fs = sample_tree, os_sched = [], os_pid = 1, os_seq = 0\<rparr>" "[''snap'']"] t
    by (simp add: lookup_def sample_tree_def)
qed

definition sample_pod :: sandbox_record where
  "sample_pod = (sample_sandbox ''p1'' ''u1'' Ready)\<lparr>sb_cgroup_parent := ''/kubepods/p1''\<rparr>"

definition sample_busy :: os where
  "sample_busy =
     \<lparr>os_fs = [([''sys'', ''fs'', ''cgroup'', ''kubepods'', ''p1'', ''cpu.stat''], File (str_bytes ''usage_usec 18446744073709552''))],
      os_sched = [], os_pid = 1, os_seq = 0\<rparr>"

lemma sample_busy_text:
  "text_at sample_busy (fjoin (fjoin CGROUP_FS (trim_start_matches (CHR ''/'') (sb_cgroup_parent sample_pod))) ''cpu.stat'')
     = ''usage_usec 18446744073709552''"
  by code_simp

lemma sample_busy_usec: "parse_flat_keyed ''usage_usec 18446744073709552'' ''usage_usec'' = Some 18446744073709552"
proof -
  have "str_lines ''usage_usec 18446744073709552'' = [''usage_usec 18446744073709552'']" by code_simp
  moreover have "split_whitespace ''usage_usec 18446744073709552'' = [''usage_usec'', ''18446744073709552'']" by code_simp
  moreover have "parse_u64 ''18446744073709552'' = Some 18446744073709552"
    by (simp add: parse_u64_def parse_unsigned_def parse_nat_def digit_val_def)
  ultimately show ?thesis by (simp add: parse_flat_keyed_def)
qed

theorem pod_numbers_bounded_witness:
  "\<exists>cg. pod_cgroup_stats sample_pod sample_busy = (Inr cg, sample_busy) \<and> unat (cg_cpu_usage_nanos cg) = 2 ^ 64 - 1"
proof -
  have "os_sched sample_busy = []" "sb_cgroup_parent sample_pod \<noteq> []" by (simp_all add: sample_busy_def sample_pod_def)
  from pod_numbers_bounded [OF this refl] show ?thesis
    unfolding sample_busy_text sample_busy_usec by (auto simp: unwrap_or_def)
qed

end
