(* ===== verification/Cri_Supervise.thy ===== *)
theory Cri_Supervise
  imports Cri_Sample Cri_Logs Stream_Sessions Crun_Io
begin

section \<open>Supervision of a running container\<close>

text \<open>
  \<open>supervise_container\<close>, \<open>supervise_tty\<close> and \<open>reopen_container_log\<close> of \<open>crates/cri/src/server.rs\<close>. Log
  rotation makes the identity of files matter: a path leads to a file, a file keeps its bytes when
  it is renamed, and an open handle is a file with a position. A \<open>LogHandle\<close> is a numbered slot
  that holds an open file or nothing; the pumps write through the slot, so a reopen that replaces
  its content redirects them. \<open>lw_fails\<close> says which of the coming calls on log files fail, a write
  after how many bytes. Making the directory of the log is left out: paths have no parents here.
  The stdin pipe of a container gets the number of its log slot.
\<close>

record log_world =
  lw_paths :: "fpath \<Rightarrow> nat option"
  lw_data :: "nat \<Rightarrow> bytes"
  lw_next :: nat
  lw_slots :: "nat \<Rightarrow> (nat \<times> nat) option"
  lw_next_slot :: nat
  lw_fails :: "nat option list"

definition lw_fault :: "log_world \<Rightarrow> nat option" where
  "lw_fault lw = (case lw_fails lw of [] \<Rightarrow> None | b # _ \<Rightarrow> b)"

definition lw_tick :: "log_world \<Rightarrow> log_world" where
  "lw_tick lw = lw\<lparr>lw_fails := tl (lw_fails lw)\<rparr>"

text \<open>\<open>File::create\<close>: an existing file is emptied, otherwise a new one is made.\<close>

definition log_create :: "fpath \<Rightarrow> (log_world, io_error, nat \<times> nat) prog" where
  "log_create p lw =
     (if lw_fault lw \<noteq> None then (Inl Fault, lw_tick lw)
      else case lw_paths lw p of
             Some f \<Rightarrow> (Inr (f, 0), (lw_tick lw)\<lparr>lw_data := (lw_data lw)(f := [])\<rparr>)
           | None \<Rightarrow>
               (Inr (lw_next lw, 0),
                (lw_tick lw)\<lparr>lw_paths := (lw_paths lw)(p \<mapsto> lw_next lw), lw_data := (lw_data lw)(lw_next lw := []),
                             lw_next := Suc (lw_next lw)\<rparr>))"

text \<open>A write of all the bytes through an open file, at its position; a failing one may have written some.\<close>

definition file_write :: "nat \<times> nat \<Rightarrow> bytes \<Rightarrow> log_world \<Rightarrow> (nat \<times> nat) \<times> log_world" where
  "file_write h bs lw =
     (case h of (f, pos) \<Rightarrow>
        let bs = (case lw_fault lw of None \<Rightarrow> bs | Some k \<Rightarrow> take k bs) in
        ((f, pos + length bs), (lw_tick lw)\<lparr>lw_data := (lw_data lw)(f := splice pos bs (lw_data lw f))\<rparr>))"

definition slot_write :: "nat \<Rightarrow> bytes \<Rightarrow> log_world \<Rightarrow> log_world" where
  "slot_write n bs lw =
     (case lw_slots lw n of
        None \<Rightarrow> lw
      | Some h \<Rightarrow> (case file_write h bs lw of (h, lw) \<Rightarrow> lw\<lparr>lw_slots := (lw_slots lw)(n \<mapsto> h)\<rparr>))"

text \<open>What the kubelet does before it asks for a reopen.\<close>

definition rotate :: "fpath \<Rightarrow> fpath \<Rightarrow> log_world \<Rightarrow> log_world" where
  "rotate p q lw = lw\<lparr>lw_paths := (lw_paths lw)(p := None, q := lw_paths lw p)\<rparr>"

subsection \<open>The supervisor of a container without a terminal\<close>

text \<open>A read of a pipe with the time stamp of its log lines; no bytes is the end.\<close>

definition pump_chunk :: "u8 \<Rightarrow> string \<Rightarrow> nat \<Rightarrow> bytes \<times> bytes \<Rightarrow> log_world \<times> (u8 \<times> bytes) list \<Rightarrow> log_world \<times> (u8 \<times> bytes) list" where
  "pump_chunk channel name n rd st =
     (case (rd, st) of ((ts, chunk), (lw, live)) \<Rightarrow>
        (slot_write n (cri_log_line ts name chunk) lw, live @ [(channel, chunk)]))"

text \<open>Starting: the spawn, the log file and the handles of the registry. \<open>None\<close> is a failed spawn, whose
  message goes to the log.\<close>

definition supervise_start ::
  "'z crun_io \<Rightarrow> (io_error \<Rightarrow> string) \<Rightarrow> bytes \<Rightarrow> fpath \<Rightarrow> supervision \<Rightarrow> sessions \<times> log_world \<Rightarrow> child option \<times> sessions \<times> log_world" where
  "supervise_start lib show ts root sv st =
     (case (ci_spawn lib DEFAULT_BIN (run_args root sv), st) of
        (Inl e, s, lw) \<Rightarrow>
          (case log_create (sv_log_path sv) lw of
             (Inl _, lw) \<Rightarrow> (None, s, lw)
           | (Inr h, lw) \<Rightarrow> (None, s, snd (file_write h (cri_log_line ts ''stderr'' (str_bytes (''crun spawn: '' @ show e))) lw)))
      | (Inr c, s, lw) \<Rightarrow>
          (case log_create (sv_log_path sv) lw of
             (r, lw) \<Rightarrow>
               (let n = lw_next_slot lw;
                    lw = lw\<lparr>lw_slots := (lw_slots lw)(n := ok r), lw_next_slot := Suc n\<rparr>;
                    s = register_log (sv_id sv) n s;
                    s = (if sv_stdin_open sv then register_stdin (sv_id sv) n s else s) in
                (Some c, s, lw))))"

text \<open>The end: the code of the process, once both pumps have ended, and the handles dropped.\<close>

definition supervise_code :: "child option \<Rightarrow> int" where
  "supervise_code c = (case c of None \<Rightarrow> - 1 | Some c \<Rightarrow> exit_code (ch_wait c))"

definition drop_handles :: "string \<Rightarrow> sessions \<Rightarrow> sessions" where
  "drop_handles i s = close_stdin i (close_log i (close_live i s))"

subsection \<open>The supervisor of a container with a terminal\<close>

text \<open>The log file is the task's own: no handle is registered. The loop reads the master until its end.\<close>

fun tty_pump :: "(bytes \<times> bytes) list \<Rightarrow> (nat \<times> nat) option \<Rightarrow> log_world \<times> (u8 \<times> bytes) list \<Rightarrow> (nat \<times> nat) option \<times> log_world \<times> (u8 \<times> bytes) list" where
  "tty_pump ((ts, chunk) # rest) h (lw, live) =
     (if chunk = [] then (h, lw, live)
      else case h of
             None \<Rightarrow> tty_pump rest None (lw, live @ [(1, chunk)])
           | Some f \<Rightarrow>
               (case file_write f (cri_log_line ts ''stdout'' chunk) lw of
                  (f, lw) \<Rightarrow> tty_pump rest (Some f) (lw, live @ [(1, chunk)])))"
| "tty_pump [] h st = (h, st)"

text \<open>How far the start has come: \<open>TtyWaiting\<close> is the wait for a \<open>crun\<close> that never connects.\<close>

datatype tty_start = TtyFailed | TtyWaiting | TtyRunning reads "(nat \<times> nat) option"

definition supervise_tty_start ::
  "'z crun_io \<Rightarrow> (io_error \<Rightarrow> string) \<Rightarrow> bytes \<Rightarrow> fpath \<Rightarrow> supervision \<Rightarrow> 'z os_scheme \<times> log_world
   \<Rightarrow> tty_start \<times> 'z os_scheme \<times> log_world" where
  "supervise_tty_start lib show ts root sv st =
     (case (run_tty lib DEFAULT_BIN root (sv_bundle_dir sv) (sv_id sv) (sv_bundle_dir sv @ [''console.sock'']) (sv_no_pivot sv) (fst st), snd st) of
        ((Inl e, w), lw) \<Rightarrow>
          (case log_create (sv_log_path sv) lw of
             (Inl _, lw) \<Rightarrow> (TtyFailed, w, lw)
           | (Inr h, lw) \<Rightarrow> (TtyFailed, w, snd (file_write h (cri_log_line ts ''stderr'' (str_bytes (''crun run --tty: '' @ show e))) lw)))
      | ((Inr None, w), lw) \<Rightarrow> (TtyWaiting, w, lw)
      | ((Inr (Some master), w), lw) \<Rightarrow>
          (case log_create (sv_log_path sv) lw of (r, lw) \<Rightarrow> (TtyRunning master (ok r), w, lw)))"

text \<open>After the end of the master the container is deleted by force. The exit code of a terminal
  container is not known: 0, or -1 when it could not be started. A wait has no end and no code.\<close>

definition supervise_tty_end ::
  "fpath \<Rightarrow> string \<Rightarrow> tty_start \<Rightarrow> ('d cri_os, 'e, int option) prog" where
  "supervise_tty_end root i r =
     (case r of
        TtyFailed \<Rightarrow> pret (Some (- 1))
      | TtyWaiting \<Rightarrow> pret None
      | TtyRunning _ _ \<Rightarrow> pbind (crun_delete root i) (\<lambda>_. pret (Some 0)))"

subsection \<open>ReopenContainerLog\<close>

definition reopen_container_log ::
  "('d, 't, 'sec, 'b) cri_ctx \<Rightarrow> string \<Rightarrow> 'd cri_os \<times> sessions \<times> log_world \<Rightarrow> (rpc_status + unit) \<times> 'd cri_os \<times> sessions \<times> log_world" where
  "reopen_container_log cx i st =
     (case st of (w, s, lw) \<Rightarrow>
      case require_container cx i w of
        (Inl e, w) \<Rightarrow> (Inl e, w, s, lw)
      | (Inr rec, w) \<Rightarrow>
          if ct_state rec \<noteq> Running then (Inl (Status FailedPrecondition (Msg ''container is not running'')), w, s, lw)
          else
            (case log_create (container_log_path (bundle_new (cx_state_dir cx) (cx_namespace cx) i) (ct_log_path rec)) lw of
               (Inl e, lw) \<Rightarrow> (Inl (Status Internal (FromIo e)), w, s, lw)
             | (Inr f, lw) \<Rightarrow>
                 (case log_handle i s of
                    Some n \<Rightarrow> (Inr (), w, s, lw\<lparr>lw_slots := (lw_slots lw)(n \<mapsto> f)\<rparr>)
                  | None \<Rightarrow> (Inr (), w, s, lw))))"

subsection \<open>Rotation\<close>

text \<open>The chunks of both pipes in the order the pumps handle them, and their lines.\<close>

fun feed_log :: "nat \<Rightarrow> (u8 \<times> string \<times> bytes \<times> bytes) list \<Rightarrow> log_world \<times> (u8 \<times> bytes) list \<Rightarrow> log_world \<times> (u8 \<times> bytes) list" where
  "feed_log n [] st = st"
| "feed_log n ((channel, name, rd) # rest) st = feed_log n rest (pump_chunk channel name n rd st)"

definition lines_of :: "(u8 \<times> string \<times> bytes \<times> bytes) list \<Rightarrow> bytes" where
  "lines_of cs = concat (map (\<lambda>(_, name, ts, chunk). cri_log_line ts name chunk) cs)"

lemma splice_end: "pos = length xs \<Longrightarrow> splice pos bs xs = xs @ bs"
  by (simp add: splice_def)

lemma feed_log_appends:
  assumes "lw_slots lw n = Some (f, length (lw_data lw f))" "lw_fails lw = []"
  shows "\<exists>lw' live'. feed_log n cs (lw, live) = (lw', live') \<and> lw_data lw' = (lw_data lw)(f := lw_data lw f @ lines_of cs)
           \<and> lw_slots lw' = (lw_slots lw)(n \<mapsto> (f, length (lw_data lw f @ lines_of cs)))
           \<and> lw_paths lw' = lw_paths lw \<and> lw_next lw' = lw_next lw \<and> lw_fails lw' = []
           \<and> live' = live @ map (\<lambda>(c, _, _, chunk). (c, chunk)) cs"
  using assms
proof (induction cs arbitrary: lw live)
  case Nil
  then show ?case by (auto simp: lines_of_def)
next
  case (Cons x cs)
  obtain c name ts chunk where x: "x = (c, name, ts, chunk)" by (cases x)
  let ?l = "cri_log_line ts name chunk"
  let ?lw = "slot_write n ?l lw"
  have one: "lw_data ?lw = (lw_data lw)(f := lw_data lw f @ ?l)" "lw_slots ?lw = (lw_slots lw)(n \<mapsto> (f, length (lw_data lw f @ ?l)))"
      "lw_paths ?lw = lw_paths lw" "lw_next ?lw = lw_next lw" "lw_fails ?lw = []"
    using Cons.prems by (simp_all add: slot_write_def file_write_def lw_fault_def lw_tick_def splice_end Let_def)
  have pre: "lw_slots ?lw n = Some (f, length (lw_data ?lw f))" using one by simp
  show ?case
    using Cons.IH [OF pre one(5), of "live @ [(c, chunk)]"] one x
    by (auto simp: pump_chunk_def lines_of_def fun_eq_iff)
qed


text \<open>The supervisor of a terminal container holds its log file itself: after rotation and a reopen that
  reports success its lines still go to the renamed file, and the new file stays empty.\<close>

theorem tty_log_misses_reopen:
  assumes "fst (require_container cx i w) = Inr rec" "ct_state rec = Running" "log_handle i s = None"
    and "p = container_log_path (bundle_new (cx_state_dir cx) (cx_namespace cx) i) (ct_log_path rec)" "q \<noteq> p"
    and "lw_paths lw p = Some f" "lw_fails lw = []" "f < lw_next lw"
    and "reopen_container_log cx i (w, s, rotate p q lw) = (r, w1, s1, lw1)"
    and "tty_pump [(ts, chunk)] (Some (f, length (lw_data lw f))) (lw1, []) = (h, lw2, live)" "chunk \<noteq> []"
  shows "r = Inr () \<and> lw_paths lw2 q = Some f \<and> lw_data lw2 f = lw_data lw f @ cri_log_line ts ''stdout'' chunk
         \<and> (\<exists>g. lw_paths lw2 p = Some g \<and> lw_data lw2 g = [])"
  using assms
  by (auto simp: reopen_container_log_def rotate_def log_create_def file_write_def lw_fault_def lw_tick_def splice_end Let_def
      split: prod.splits)

subsection \<open>An example\<close>

definition sample_log_path :: fpath where
  "sample_log_path = [''run'', ''k8s.io'', ''c1'', ''container.log'']"

definition sample_log_world :: log_world where
  "sample_log_world =
     \<lparr>lw_paths = [sample_log_path \<mapsto> 0], lw_data = (\<lambda>_. []), lw_next = 1, lw_slots = [0 \<mapsto> (0, 0)], lw_next_slot = 1, lw_fails = []\<rparr>"

definition sample_log_sessions :: sessions where
  "sample_log_sessions = register_log ''c1'' 0 (sessions_new [''run'', ''crun''])"

definition sample_log_ctx :: "(mem_db, mem_db, string, unit) cri_ctx" where
  "sample_log_ctx = sample_ctx [] [sample_container Running] []"

definition sample_log_os :: "mem_db cri_os" where
  "sample_log_os = sample_world (sample_db [] [(''k8s.io/c1'', [0])] []) [] []"


end
