(* ===== verification/Cri_Lifecycle.thy ===== *)
theory Cri_Lifecycle
  imports Cri_Sample
begin

section \<open>The life of a container\<close>

text \<open>
  The state that a container's record holds only moves forward: \<open>Created\<close>, \<open>Running\<close>,
  \<open>Unknown\<close>, \<open>Exited\<close>. The handlers wait in several places, and other tasks may change
  the database there, so each handler is shown to move the state forward provided that the
  others do (\<open>calm\<close>). \<open>Cri_Stop\<close> shows the exception, \<open>UpdateContainerResources\<close>;
  \<open>Cri_System\<close> adds restarts.
\<close>

definition moves :: "('d, 't, 'sec, 'b) cri_ctx \<Rightarrow> string \<Rightarrow> 'd \<Rightarrow> 'd \<Rightarrow> bool" where
  "moves cx i d d' \<longleftrightarrow>
     (\<forall>r'. container_in cx i d' = Inr (Some r') \<longrightarrow>
        (\<exists>r. container_in cx i d = Inr (Some r) \<and> ct_state r \<le> ct_state r'))"

definition calm :: "('d, 't, 'sec, 'b) cri_ctx \<Rightarrow> string \<Rightarrow> ('d \<Rightarrow> 'd) list \<Rightarrow> bool" where
  "calm cx i fs \<longleftrightarrow> list_all (\<lambda>f. \<forall>d. moves cx i d (f d)) fs"

definition lifecycle :: "('d, 't, 'sec, 'b) cri_ctx \<Rightarrow> string \<Rightarrow> 'd cri_os \<Rightarrow> 'd cri_os \<Rightarrow> bool" where
  "lifecycle cx i w w' \<longleftrightarrow> (calm cx i (cr_env w) \<longrightarrow> calm cx i (cr_env w') \<and> moves cx i (cr_db w) (cr_db w'))"

lemma moves_refl [simp]: "moves cx i d d"
  by (auto simp: moves_def)

lemma moves_trans: "moves cx i d d' \<Longrightarrow> moves cx i d' d'' \<Longrightarrow> moves cx i d d''"
  unfolding moves_def by (meson order_trans)

interpretation lfc: step_order "lifecycle cx i" for cx i
proof
  fix s t u
  show "lifecycle cx i s s" by (simp add: lifecycle_def)
  assume "lifecycle cx i s t" "lifecycle cx i t u"
  then show "lifecycle cx i s u" by (auto simp: lifecycle_def intro: moves_trans)
qed

lemma records_kept_lifecycle: "records_kept w w' \<Longrightarrow> lifecycle cx i w w'"
  by (simp add: records_kept_def lifecycle_def)

lemma lifecycle_records: "steps records_kept m \<Longrightarrow> steps (lifecycle cx i) m"
  by (erule steps_weaken) (rule records_kept_lifecycle)

lemmas lifecycle_aside = lifecycle_records [OF aside_records]

lemma lifecycle_await: "steps (lifecycle cx i) await"
  by (auto simp: steps_def await_def prog_simps lifecycle_def calm_def split: list.splits)

lemmas lifecycle_calls = records_kept_calls [THEN lifecycle_records] records_kept_crun [THEN lifecycle_records]
  aside_calls [THEN lifecycle_aside]

lemmas lifecycle_rules = lfc.steps_rules lifecycle_await lifecycle_calls

text \<open>A read, and then a write of what was read, moved forward.\<close>

definition reads :: "('d, 't, 'sec, 'b) cri_ctx \<Rightarrow> string \<Rightarrow> container_record \<Rightarrow> 'd cri_os \<Rightarrow> bool" where
  "reads cx j rec w \<longleftrightarrow> container_in cx j (cr_db w) = Inr (Some rec)"

lemma reads_kept: "records_kept w w' \<Longrightarrow> reads cx j rec w \<Longrightarrow> reads cx j rec w'"
  by (simp add: records_kept_def reads_def)

lemma reads_then:
  assumes "steps records_kept m" "\<And>x. steps_if (reads cx j rec) (lifecycle cx i) (f x)"
  shows "steps_if (reads cx j rec) (lifecycle cx i) (pbind m f)"
  by (rule lfc.steps_if_keep [where Q = records_kept, OF assms(1) _ _ assms(2)]) (auto intro: records_kept_lifecycle reads_kept)

lemma reads_then_seq:
  "steps records_kept m \<Longrightarrow> steps_if (reads cx j rec) (lifecycle cx i) n \<Longrightarrow> steps_if (reads cx j rec) (lifecycle cx i) (pseq m n)"
  unfolding pseq_def by (rule reads_then)

lemma put_moves:
  assumes "ctx_ok cx" "ct_state rec \<le> ct_state r'"
  shows "steps_if (reads cx j rec) (lifecycle cx i) (put_container cx j r')"
proof (rule steps_ifI)
  fix w x w' assume rd: "reads cx j rec w" and run: "put_container cx j r' w = (x, w')"
  from assms(1) run show "lifecycle cx i w w'"
  proof (cases rule: put_container_cases)
    case (puts d)
    then show ?thesis using rd assms(2) by (auto simp: lifecycle_def moves_def reads_def)
  qed (simp add: lifecycle_def)
qed

lemma reads_internal: "steps_if P R m \<Longrightarrow> steps_if P R (internal m)"
  by (simp add: steps_if_def internal_def prog_simps)

lemma reads_attempt: "steps_if P R m \<Longrightarrow> steps_if P R (attempt m)"
  by (simp add: steps_if_def prog_simps)

lemma reads_last: "steps_if P (lifecycle cx i) m \<Longrightarrow> steps (lifecycle cx i) n \<Longrightarrow> steps_if P (lifecycle cx i) (pseq m n)"
  unfolding pseq_def by (rule lfc.steps_if_pbind) (auto simp: steps_def)

lemma lifecycle_get:
  assumes "\<And>rec. steps_if (reads cx j rec) (lifecycle cx i) (f (Some rec))" "steps (lifecycle cx i) (f None)"
  shows "steps (lifecycle cx i) (pbind (internal (get_container cx j)) f)"
proof (rule stepsI)
  show "lifecycle cx i w (snd (pbind (internal (get_container cx j)) f w))" for w
    using assms by (cases "container_in cx j (cr_db w)")
      (auto simp: prog_simps steps_def steps_if_def reads_def lfc.order_refl split: option.splits, metis not_None_eq)
qed

lemma lifecycle_attempt_get:
  assumes "\<And>rec. steps_if (reads cx j rec) (lifecycle cx i) (f (Inr (Some rec)))" "steps (lifecycle cx i) (f (Inr None))"
    "\<And>e. steps (lifecycle cx i) (f (Inl e))"
  shows "steps (lifecycle cx i) (pbind (attempt (get_container cx j)) f)"
proof (rule stepsI)
  show "lifecycle cx i w (snd (pbind (attempt (get_container cx j)) f w))" for w
    using assms by (cases "container_in cx j (cr_db w)")
      (auto simp: prog_simps steps_def steps_if_def reads_def split: option.splits, metis not_None_eq)
qed

lemmas reads_rules = reads_then reads_then_seq put_moves reads_internal reads_attempt reads_last

subsection \<open>The handlers\<close>

lemma lifecycle_wait: "steps (lifecycle cx i) (wait_registered n root j)"
  by (induction n) (auto intro!: lifecycle_rules split: proc_outcome.splits)

lemma lifecycle_poll: "steps (lifecycle cx i) (poll_exited cx n j)"
  by (induction n) (auto intro!: lifecycle_rules)

lemma lifecycle_require:
  assumes "\<And>rec. steps_if (reads cx j rec) (lifecycle cx i) (f rec)"
  shows "steps (lifecycle cx i) (pbind (require_container cx j) f)"
proof -
  have "pbind (require_container cx j) f
      = pbind (internal (get_container cx j)) (\<lambda>r. pbind (plift (ok_or (container_not_found j) r)) f)"
    unfolding require_container_def by (auto simp: fun_eq_iff prog_simps split: sum.splits prod.splits)
  moreover have "steps (lifecycle cx i) (pbind (internal (get_container cx j))
      (\<lambda>r. pbind (plift (ok_or (container_not_found j) r)) f))"
    using assms by (intro lifecycle_get) (auto simp: steps_if_def steps_def prog_simps lfc.order_refl)
  ultimately show ?thesis by simp
qed

lemma reads_guard:
  "(b \<Longrightarrow> steps_if P (lifecycle cx i) m) \<Longrightarrow> steps_if P (lifecycle cx i) (pseq (pguard b e) m)"
  by (cases b) (auto simp: steps_if_def prog_simps lfc.order_refl)

lemma lifecycle_start:
  assumes "ctx_ok cx"
  shows "steps (lifecycle cx i) (start_container cx j)"
proof -
  have put: "steps_if (reads cx j rec) (lifecycle cx i) (pseq (internal (put_container cx j (rec\<lparr>ct_state := Running,
      ct_started_at := t, ct_crun_root := cr, ct_bundle_dir := bd\<rparr>))) k)"
    if "ct_state rec = Created" "steps (lifecycle cx i) k" for rec t cr bd and k :: "('a cri_os, rpc_status, 'q) prog"
    using that by (intro reads_last reads_internal put_moves assms) auto
  show ?thesis
    unfolding start_container_def Let_def
    by (intro lifecycle_require reads_guard reads_then_seq reads_then put lifecycle_rules lifecycle_wait
        aside_records aside_rules aside_create_dir_all aside_container)
qed

lemma lifecycle_supervise_exit:
  assumes "ctx_ok cx"
  shows "steps (lifecycle cx i) (supervise_exit cx j code)"
  unfolding supervise_exit_def
  by (rule lifecycle_attempt_get)
    (auto intro!: reads_last reads_then reads_attempt put_moves lifecycle_rules aside_records aside_rules assms)

lemma lifecycle_force_exit:
  assumes "ctx_ok cx"
  shows "steps (lifecycle cx i) (force_exit cx j)"
  unfolding force_exit_def
  by (rule lifecycle_attempt_get)
    (auto intro!: reads_then reads_internal put_moves lifecycle_rules aside_records aside_rules assms
      intro: lfc.steps_pret [THEN steps_steps_if])

lemma lifecycle_stop:
  assumes "ctx_ok cx"
  shows "steps (lifecycle cx i) (stop_container cx j t)"
  unfolding stop_container_def escalate_def
  by (auto intro!: lifecycle_rules lifecycle_poll lifecycle_force_exit assms
      records_kept_calls [THEN records_kept_internal, THEN lifecycle_records] split: option.splits)

lemma lifecycle_delete:
  assumes "ctx_ok cx"
  shows "steps (lifecycle cx i) (delete_record cx k j)"
proof (rule stepsI)
  fix w
  obtain x w' where run: "delete_record cx k j w = (x, w')" by fastforce
  from assms run show "lifecycle cx i w (snd (delete_record cx k j w))"
    by (cases rule: delete_record_cases) (auto simp: prog_simps run lifecycle_def moves_def)
qed

lemma lifecycle_internal: "steps (lifecycle cx i) m \<Longrightarrow> steps (lifecycle cx i) (internal m)"
  by (simp add: internal_def lfc.steps_with_err)

lemma lifecycle_remove:
  assumes "ctx_ok cx"
  shows "steps (lifecycle cx i) (remove_container cx j)"
  unfolding remove_container_def
  by (auto intro!: lifecycle_rules lifecycle_internal lifecycle_delete assms aside_container [THEN lifecycle_aside])

lemma lifecycle_put_sandbox:
  assumes "ctx_ok cx"
  shows "steps (lifecycle cx i) (put_sandbox cx j r)"
proof (rule stepsI)
  fix w
  obtain x w' where run: "put_sandbox cx j r w = (x, w')" by fastforce
  from assms run show "lifecycle cx i w (snd (put_sandbox cx j r w))"
    by (cases rule: put_sandbox_cases) (auto simp: run lifecycle_def moves_def same_containers_def)
qed

lemma lifecycle_put_image:
  assumes "ctx_ok cx"
  shows "steps (lifecycle cx i) (put_image cx j r)"
proof (rule stepsI)
  fix w
  obtain x w' where run: "put_image cx j r w = (x, w')" by fastforce
  from assms run show "lifecycle cx i w (snd (put_image cx j r w))"
    by (cases rule: put_image_cases) (auto simp: run lifecycle_def moves_def same_containers_def)
qed

lemmas lifecycle_stores = lifecycle_put_sandbox lifecycle_put_image lifecycle_delete lifecycle_internal

lemma lifecycle_sandboxes:
  assumes "ctx_ok cx"
  shows "steps (lifecycle cx i) (run_pod_sandbox cx c h)" "steps (lifecycle cx i) (stop_pod_sandbox cx j)"
    "steps (lifecycle cx i) (remove_pod_sandbox cx j)"
proof -
  have others: "steps (lifecycle cx i) (demote_others cx rec)" for rec
    unfolding demote_others_def demote_one_def
    by (auto intro!: lifecycle_rules lifecycle_stores assms split: sum.splits)
  show "steps (lifecycle cx i) (run_pod_sandbox cx c h)"
    unfolding run_pod_sandbox_def Let_def ensure_pod_cgroup_def
    by (auto intro!: lifecycle_rules lifecycle_stores others assms aside_misc [THEN lifecycle_aside] split: prod.splits)
  show "steps (lifecycle cx i) (stop_pod_sandbox cx j)"
    unfolding stop_pod_sandbox_def by (auto intro!: lifecycle_rules lifecycle_stores assms split: option.splits)
  show "steps (lifecycle cx i) (remove_pod_sandbox cx j)"
    unfolding remove_pod_sandbox_def
    by (auto intro!: lifecycle_rules lifecycle_stores assms aside_cni_chains [THEN lifecycle_aside] split: option.splits sum.splits)
qed

lemma lifecycle_images:
  assumes "ctx_ok cx"
  shows "unpack_aside lib \<Longrightarrow> steps (lifecycle cx i) (pull_image cx lib de cp im au)"
    and "steps (lifecycle cx i) (remove_image cx im)"
proof -
  show "steps (lifecycle cx i) (pull_image cx lib de cp im au)" if "unpack_aside lib"
    unfolding pull_image_def Let_def
    by (auto intro!: lifecycle_rules lifecycle_stores assms aside_pull [OF that, THEN lifecycle_aside]
        aside_resolve_auth [THEN lifecycle_aside] split: option.splits)
  show "steps (lifecycle cx i) (remove_image cx im)"
    unfolding remove_image_def svc_find_image_def
    by (auto intro!: lifecycle_rules lifecycle_stores assms aside_blobs [THEN lifecycle_aside] split: option.splits)
qed

text \<open>Creation writes one record, under the identifier it drew.\<close>

lemma lifecycle_create_with_id:
  assumes "ctx_ok cx" "tools_aside cx" "k \<noteq> i"
  shows "steps (lifecycle cx i) (create_with_id cx sb sid cf k)"
proof -
  have "steps (lifecycle cx i) (put_container cx k rec)" for rec
  proof (rule stepsI)
    fix w
    obtain x w' where run: "put_container cx k rec w = (x, w')" by fastforce
    from assms(1) run show "lifecycle cx i w (snd (put_container cx k rec w))"
      by (cases rule: put_container_cases) (use assms(3) in \<open>auto simp: run lifecycle_def moves_def\<close>)
  qed
  then show ?thesis
    unfolding create_with_id_def host_selinux_enabled_def find_image_def Let_def
    by (auto intro!: lifecycle_rules lifecycle_internal aside_container [THEN lifecycle_aside]
        aside_make_bundle [THEN lifecycle_aside] assms)
qed

definition next_id :: "('d, 't, 'sec, 'b) cri_ctx \<Rightarrow> string \<Rightarrow> 'd cri_os \<Rightarrow> string" where
  "next_id cx seed w = hex (sha256 (cx_sha cx) (str_bytes (seed @ ''/'' @ dec_int (sint (cr_clock w (cr_reads w))))))"

lemma gen_id_run: "gen_id cx seed w = (Inr (next_id cx seed w), w\<lparr>cr_reads := Suc (cr_reads w)\<rparr>)"
  by (simp add: gen_id_def next_id_def unix_nanos_def prog_simps)

lemma lifecycle_create:
  assumes "ctx_ok cx" "tools_aside cx" "create_container cx sid (Some cf) w = (r, w')"
    and "next_id cx (container_seed sid cf) w \<noteq> i"
  shows "lifecycle cx i w w'"
proof (cases "sandbox_in cx sid (cr_db w)")
  case (Inr sb)
  show ?thesis
  proof (cases sb)
    case (Some s)
    let ?u = "w\<lparr>cr_reads := Suc (cr_reads w)\<rparr>"
    have "create_with_id cx s sid cf (next_id cx (container_seed sid cf) w) ?u = (r, w')"
      using assms(3) Inr Some by (simp add: create_container_def require_sandbox_def prog_simps gen_id_run)
    then have "lifecycle cx i ?u w'" using lifecycle_create_with_id [OF assms(1,2,4)] stepsD by metis
    then show ?thesis by (simp add: lifecycle_def)
  qed (use assms(3) Inr in \<open>auto simp: create_container_def require_sandbox_def prog_simps lfc.order_refl\<close>)
qed (use assms(3) in \<open>auto simp: create_container_def require_sandbox_def prog_simps lfc.order_refl\<close>)

subsection \<open>Sequences of requests\<close>

text \<open>One request or the end of a container's process, as seen by container \<open>i\<close>: a creation draws
  another identifier.\<close>

inductive life_step :: "('d, 't, 'sec, 'b) cri_ctx \<Rightarrow> string \<Rightarrow> 'd cri_os \<Rightarrow> 'd cri_os \<Rightarrow> bool" for cx i where
  ls_start: "start_container cx j w = (r, w') \<Longrightarrow> life_step cx i w w'"
| ls_exit: "(supervise_exit cx j code :: ('d, unit) rpc) w = (r', w') \<Longrightarrow> life_step cx i w w'"
| ls_stop: "stop_container cx j t w = (r', w') \<Longrightarrow> life_step cx i w w'"
| ls_remove: "remove_container cx j w = (r', w') \<Longrightarrow> life_step cx i w w'"
| ls_create: "create_container cx sid (Some cf) w = (r'', w') \<Longrightarrow> next_id cx (container_seed sid cf) w \<noteq> i \<Longrightarrow> life_step cx i w w'"
| ls_run_pod: "run_pod_sandbox cx c h w = (r'', w') \<Longrightarrow> life_step cx i w w'"
| ls_stop_pod: "stop_pod_sandbox cx j w = (r', w') \<Longrightarrow> life_step cx i w w'"
| ls_remove_pod: "remove_pod_sandbox cx j w = (r', w') \<Longrightarrow> life_step cx i w w'"
| ls_pull: "pull_image cx lib de cp im au w = (r'', w') \<Longrightarrow> unpack_aside lib \<Longrightarrow> life_step cx i w w'"
| ls_remove_image: "remove_image cx im w = (r', w') \<Longrightarrow> life_step cx i w w'"

lemma life_step_lifecycle:
  assumes "ctx_ok cx" "tools_aside cx" "life_step cx i w w'"
  shows "lifecycle cx i w w'"
  using assms(3)
  by (cases rule: life_step.cases)
    (metis stepsD assms(1,2) lifecycle_start lifecycle_supervise_exit lifecycle_stop lifecycle_remove lifecycle_create
      lifecycle_sandboxes lifecycle_images)+

text \<open>A container's process ends with code 0 while its record says \<open>Running\<close>.\<close>

definition sample_done :: container_record where
  "sample_done = (sample_container Running)\<lparr>ct_state := Exited, ct_exit_code := Some 0, ct_finished_at := Some 0,
     ct_reason := Some ''Completed''\<rparr>"

definition sample_running :: "mem_db cri_os" where
  "sample_running = sample_world (sample_db [] [(''k8s.io/c1'', [0])] []) [] []"

lemma sample_done_differs [simp]: "sample_container Running \<noteq> sample_done" "sample_done \<noteq> sample_container Running"
  by (auto simp: sample_container_def sample_done_def)

end
