(* ===== verification/Cri_Keyed.thy ===== *)
theory Cri_Keyed
  imports Cri_Lifecycle
begin

section \<open>Every record under its own identifier\<close>

text \<open>
  The lists that the handlers and the recovery go through hold records, not keys: \<open>reconcile\<close> and
  the demotion of earlier sandboxes write each record back under the identifier that stands in it.
  That is the record they read only if every record is stored under its own identifier. Here this is
  shown to be an invariant of every handler that writes, the recovery included, with other tasks that
  keep it interleaved at every wait.
\<close>

definition all_keyed :: "('d, 't, 'sec, 'b) cri_ctx \<Rightarrow> 'd \<Rightarrow> bool" where
  "all_keyed cx d \<longleftrightarrow>
     keyed_by sb_id (\<lambda>i. sandbox_in cx i d) \<and> keyed_by ct_id (\<lambda>i. container_in cx i d)
     \<and> keyed_by im_image_id (\<lambda>i. image_in cx i d)"

definition keeps_keys :: "('d, 't, 'sec, 'b) cri_ctx \<Rightarrow> ('d \<Rightarrow> 'd) list \<Rightarrow> bool" where
  "keeps_keys cx fs \<longleftrightarrow> list_all (\<lambda>f. \<forall>d. all_keyed cx d \<longrightarrow> all_keyed cx (f d)) fs"

definition keyed_world :: "('d, 't, 'sec, 'b) cri_ctx \<Rightarrow> 'd cri_os \<Rightarrow> bool" where
  "keyed_world cx w \<longleftrightarrow> keeps_keys cx (cr_env w) \<and> all_keyed cx (cr_db w)"

definition stays_keyed :: "('d, 't, 'sec, 'b) cri_ctx \<Rightarrow> 'd cri_os \<Rightarrow> 'd cri_os \<Rightarrow> bool" where
  "stays_keyed cx w w' \<longleftrightarrow> (keyed_world cx w \<longrightarrow> keyed_world cx w')"

interpretation kyd: step_order "stays_keyed cx" for cx
  by unfold_locales (auto simp: stays_keyed_def)

lemma keyed_records: "steps records_kept m \<Longrightarrow> steps (stays_keyed cx) m"
  by (erule steps_weaken) (auto simp: records_kept_def stays_keyed_def keyed_world_def)

lemmas keyed_aside = keyed_records [OF aside_records]

lemma keyed_await: "steps (stays_keyed cx) await"
  by (auto simp: steps_def await_def prog_simps stays_keyed_def keyed_world_def keeps_keys_def split: list.splits)

lemmas keyed_calls = records_kept_calls [THEN keyed_records] records_kept_crun [THEN keyed_records] aside_calls [THEN keyed_aside]

lemma keyed_internal: "steps (stays_keyed cx) m \<Longrightarrow> steps (stays_keyed cx) (internal m)"
  by (simp add: internal_def kyd.steps_with_err)

lemmas keyed_rules = kyd.steps_rules keyed_await keyed_calls keyed_internal

subsection \<open>Reads and writes\<close>

text \<open>What is read in a keyed world bears the identifier that was asked for.\<close>

lemma keyed_read:
  assumes "\<And>w. snd (m w) = w" "\<And>w x. keyed_world cx w \<Longrightarrow> fst (m w) = Inr x \<Longrightarrow> P x"
    and "\<And>x. P x \<Longrightarrow> steps (stays_keyed cx) (f x)"
  shows "steps (stays_keyed cx) (pbind m f)"
proof (rule stepsI)
  show "stays_keyed cx w (snd (pbind m f w))" for w
  proof (cases "keyed_world cx w")
    case True
    obtain r where r: "m w = (r, w)" using assms(1) [of w] by (cases "m w") simp
    show ?thesis
    proof (cases r)
      case (Inr x)
      with True r assms(2) [of w x] assms(3) [of x] show ?thesis by (simp add: pbind_def steps_def)
    qed (simp add: pbind_def r kyd.order_refl)
  qed (simp add: stays_keyed_def)
qed

lemma keyed_world_ids:
  assumes "keyed_world cx w"
  shows "sandbox_in cx j (cr_db w) = Inr (Some sb) \<Longrightarrow> sb_id sb = j"
    and "container_in cx j (cr_db w) = Inr (Some ct) \<Longrightarrow> ct_id ct = j"
    and "image_in cx j (cr_db w) = Inr (Some im) \<Longrightarrow> im_image_id im = j"
  using assms by (auto simp: keyed_world_def all_keyed_def keyed_by_def)

lemma keyed_get:
  assumes "\<And>x. pred_option (\<lambda>rec. ct_id rec = j) x \<Longrightarrow> steps (stays_keyed cx) (f x)"
  shows "steps (stays_keyed cx) (pbind (internal (get_container cx j)) f)"
  by (rule keyed_read [OF _ _ assms]) (auto simp: prog_simps option.pred_set keyed_world_ids)

lemma keyed_attempt_get:
  assumes "\<And>x. pred_sum (\<lambda>_. True) (pred_option (\<lambda>rec. ct_id rec = j)) x \<Longrightarrow> steps (stays_keyed cx) (f x)"
  shows "steps (stays_keyed cx) (pbind (attempt (get_container cx j)) f)"
  by (rule keyed_read [OF _ _ assms]) (auto simp: prog_simps sum.pred_set option.pred_set keyed_world_ids elim!: setr.cases)

lemma keyed_get_sandbox:
  assumes "\<And>x. pred_option (\<lambda>rec. sb_id rec = j) x \<Longrightarrow> steps (stays_keyed cx) (f x)"
  shows "steps (stays_keyed cx) (pbind (internal (get_sandbox cx j)) f)"
  by (rule keyed_read [OF _ _ assms]) (auto simp: prog_simps option.pred_set keyed_world_ids)

lemma keyed_get_image:
  assumes "\<And>x. pred_option (\<lambda>rec. im_image_id rec = j) x \<Longrightarrow> steps (stays_keyed cx) (f x)"
  shows "steps (stays_keyed cx) (pbind (internal (get_image cx j)) f)"
  by (rule keyed_read [OF _ _ assms]) (auto simp: prog_simps option.pred_set keyed_world_ids)

lemma keyed_require:
  assumes "\<And>rec. ct_id rec = j \<Longrightarrow> steps (stays_keyed cx) (f rec)"
  shows "steps (stays_keyed cx) (pbind (require_container cx j) f)"
  by (rule keyed_read [OF _ _ assms])
    (auto simp: require_container_def prog_simps ok_or_def keyed_world_ids split: sum.splits option.splits)

lemma keyed_put_container:
  assumes "ctx_ok cx" "ct_id rec = j"
  shows "steps (stays_keyed cx) (put_container cx j rec)"
proof (rule stepsI)
  fix w
  obtain x w' where run: "put_container cx j rec w = (x, w')" by fastforce
  from assms(1) run show "stays_keyed cx w (snd (put_container cx j rec w))"
    by (cases rule: put_container_cases)
      (auto simp: run stays_keyed_def keyed_world_def all_keyed_def keyed_by_def same_defs assms(2))
qed

lemma keyed_put_sandbox:
  assumes "ctx_ok cx" "sb_id rec = j"
  shows "steps (stays_keyed cx) (put_sandbox cx j rec)"
proof (rule stepsI)
  fix w
  obtain x w' where run: "put_sandbox cx j rec w = (x, w')" by fastforce
  from assms(1) run show "stays_keyed cx w (snd (put_sandbox cx j rec w))"
    by (cases rule: put_sandbox_cases)
      (auto simp: run stays_keyed_def keyed_world_def all_keyed_def keyed_by_def same_defs assms(2))
qed

lemma keyed_put_image:
  assumes "ctx_ok cx" "im_image_id rec = j"
  shows "steps (stays_keyed cx) (put_image cx j rec)"
proof (rule stepsI)
  fix w
  obtain x w' where run: "put_image cx j rec w = (x, w')" by fastforce
  from assms(1) run show "stays_keyed cx w (snd (put_image cx j rec w))"
    by (cases rule: put_image_cases)
      (auto simp: run stays_keyed_def keyed_world_def all_keyed_def keyed_by_def same_defs assms(2))
qed

lemma keyed_delete:
  assumes "ctx_ok cx"
  shows "steps (stays_keyed cx) (delete_record cx k j)"
proof (rule stepsI)
  fix w
  obtain x w' where run: "delete_record cx k j w = (x, w')" by fastforce
  from assms(1) run show "stays_keyed cx w (snd (delete_record cx k j w))"
    by (cases rule: delete_record_cases) (auto simp: run stays_keyed_def keyed_world_def all_keyed_def keyed_by_def)
qed

lemmas keyed_stores = keyed_put_container keyed_put_sandbox keyed_put_image keyed_delete


subsection \<open>The handlers\<close>

lemma keyed_wait: "steps (stays_keyed cx) (wait_registered n root j)"
  by (induction n) (auto intro!: keyed_rules split: proc_outcome.splits)

lemma keyed_poll: "steps (stays_keyed cx) (poll_exited cx n j)"
  by (induction n) (auto intro!: keyed_rules)

lemma keyed_start:
  assumes "ctx_ok cx"
  shows "steps (stays_keyed cx) (start_container cx j)"
  unfolding start_container_def Let_def
  by (rule keyed_require) (auto intro!: keyed_rules keyed_stores keyed_wait assms aside_create_dir_all [THEN keyed_aside]
      aside_container [THEN keyed_aside])

lemma keyed_supervise_exit:
  assumes "ctx_ok cx"
  shows "steps (stays_keyed cx) (supervise_exit cx j code)"
  unfolding supervise_exit_def
  by (rule keyed_attempt_get) (auto intro!: keyed_rules keyed_stores assms split: sum.splits option.splits)

lemma keyed_stop:
  assumes "ctx_ok cx"
  shows "steps (stays_keyed cx) (stop_container cx j t)"
proof -
  have "steps (stays_keyed cx) (force_exit cx j)"
    unfolding force_exit_def
    by (rule keyed_attempt_get) (auto intro!: keyed_rules keyed_stores assms split: sum.splits option.splits)
  then show ?thesis
    unfolding stop_container_def escalate_def by (auto intro!: keyed_rules keyed_poll split: option.splits)
qed

lemma keyed_remove:
  assumes "ctx_ok cx"
  shows "steps (stays_keyed cx) (remove_container cx j)"
  unfolding remove_container_def
  by (auto intro!: keyed_rules keyed_stores assms aside_container [THEN keyed_aside])

lemma keyed_update:
  assumes "ctx_ok cx"
  shows "steps (stays_keyed cx) (update_container_resources cx j l)"
  unfolding update_container_resources_def Let_def
  by (rule keyed_require) (auto intro!: keyed_rules keyed_stores assms split: proc_outcome.splits option.splits)

lemma keyed_create:
  assumes "ctx_ok cx" "tools_aside cx"
  shows "steps (stays_keyed cx) (create_container cx sid cf)"
  unfolding create_container_def create_with_id_def require_sandbox_def host_selinux_enabled_def find_image_def Let_def
  by (auto intro!: keyed_rules keyed_stores assms aside_misc [THEN keyed_aside] aside_container [THEN keyed_aside]
      aside_make_bundle [THEN keyed_aside] simp: new_container_record_def)

lemma keyed_sandboxes:
  assumes "ctx_ok cx"
  shows "steps (stays_keyed cx) (run_pod_sandbox cx c h)" "steps (stays_keyed cx) (stop_pod_sandbox cx j)"
    "steps (stays_keyed cx) (remove_pod_sandbox cx j)"
proof -
  have others: "steps (stays_keyed cx) (demote_others cx rec)" for rec
    unfolding demote_others_def demote_one_def by (auto intro!: keyed_rules keyed_stores assms split: sum.splits)
  have "sb_id (new_sandbox_record c' h i u n r ho t) = i" for c' i u n r ho t
    by (simp add: new_sandbox_record_def Let_def split: prod.splits)
  then show "steps (stays_keyed cx) (run_pod_sandbox cx c h)"
    unfolding run_pod_sandbox_def Let_def ensure_pod_cgroup_def
    by (auto intro!: keyed_rules keyed_stores others assms aside_misc [THEN keyed_aside] split: prod.splits)
  show "steps (stays_keyed cx) (stop_pod_sandbox cx j)"
    unfolding stop_pod_sandbox_def
    by (rule keyed_get_sandbox) (auto intro!: keyed_rules keyed_stores assms split: option.splits)
  show "steps (stays_keyed cx) (remove_pod_sandbox cx j)"
    unfolding remove_pod_sandbox_def
    by (auto intro!: keyed_rules keyed_stores assms aside_cni_chains [THEN keyed_aside] split: option.splits sum.splits)
qed

lemma keyed_images:
  assumes "ctx_ok cx"
  shows "unpack_aside lib \<Longrightarrow> steps (stays_keyed cx) (pull_image cx lib de cp im au)"
    and "steps (stays_keyed cx) (remove_image cx im)"
proof -
  have merged: "im_image_id (merged_image_record ref p old) = digest_to_string (pi_image_id p)"
    if "pred_option (\<lambda>r. im_image_id r = digest_to_string (pi_image_id p)) old" for ref p old
    using that by (cases old) (simp_all add: merged_image_record_def fresh_image_record_def Let_def)
  show "steps (stays_keyed cx) (pull_image cx lib de cp im au)" if "unpack_aside lib"
    unfolding pull_image_def Let_def
    by (auto intro!: keyed_get_image keyed_rules keyed_stores assms merged aside_pull [OF that, THEN keyed_aside]
        aside_resolve_auth [THEN keyed_aside] split: option.splits)
  show "steps (stays_keyed cx) (remove_image cx im)"
    unfolding remove_image_def svc_find_image_def
    by (auto intro!: keyed_rules keyed_stores assms aside_blobs [THEN keyed_aside] split: option.splits)
qed

lemma keyed_reconcile:
  assumes "ctx_ok cx"
  shows "steps (stays_keyed cx) (reconcile cx)"
proof -
  have "steps (stays_keyed cx) (reconcile_one cx rep c)" for rep c
    unfolding reconcile_one_def by (auto intro!: keyed_rules keyed_stores assms split: sum.splits option.splits)
  then show ?thesis unfolding reconcile_def by (auto intro!: keyed_rules)
qed

end
