(* ===== verification/Cri_Stop.thy ===== *)
theory Cri_Stop
  imports Cri_Lifecycle
begin

section \<open>Stopping, resizing and recovering containers\<close>

text \<open>
  What \<open>StopContainer\<close> leaves behind, how \<open>UpdateContainerResources\<close> treats a record that
  changed while it waited, and the reconciliation after a restart as an implementation of a
  table of verdicts.
\<close>

subsection \<open>StopContainer\<close>

lemma force_exit_exits:
  assumes "ctx_ok cx" "force_exit cx i w = (Inr u, w')" "container_in cx i (cr_db w') = Inr (Some r)"
  shows "ct_state r = Exited"
proof (cases "container_in cx i (cr_db w)")
  case (Inr found)
  show ?thesis
  proof (cases found)
    case (Some c)
    show ?thesis
    proof (cases "ct_state c = Exited")
      case False
      let ?c = "\<lambda>t. c\<lparr>ct_state := Exited, ct_finished_at := Some t, ct_exit_code := Some (- 1), ct_reason := Some ''Error''\<rparr>"
      from assms(2) Inr Some False obtain t u where put: "put_container cx i (?c t) u = (Inr (), w')"
        by (auto simp: force_exit_def prog_Inr get_run)
      from assms(1) put show ?thesis
        by (cases rule: put_container_cases) (use assms(3) in auto)
    qed (use assms Inr Some in \<open>auto simp: force_exit_def prog_simps\<close>)
  qed (use assms Inr in \<open>auto simp: force_exit_def prog_simps\<close>)
qed (use assms in \<open>auto simp: force_exit_def prog_simps\<close>)

text \<open>The runs of \<open>crun\<close> are kept apart from everything else.\<close>

definition calls_same :: "'d cri_os \<Rightarrow> 'd cri_os \<Rightarrow> bool" where
  "calls_same w w' \<longleftrightarrow> cr_crun_calls w' = cr_crun_calls w"

interpretation cls: step_order calls_same
  by unfold_locales (auto simp: calls_same_def)

lemma calls_same_basic:
  "steps calls_same await" "steps calls_same (get_container cx i)" "steps calls_same (put_container cx i r)"
  "steps calls_same deadline_passed" "steps calls_same unix_nanos" "steps calls_same (emit_container_event i ev)"
  by (auto simp: steps_def calls_same_def await_def prog_simps put_container_def db_step_def deadline_passed_def unix_nanos_def
      emit_container_event_def split: list.splits sum.splits)

lemma calls_same_internal: "steps calls_same m \<Longrightarrow> steps calls_same (internal m)"
  by (simp add: internal_def cls.steps_with_err)

lemma calls_same_poll: "steps calls_same (poll_exited cx n i)"
  by (induction n) (auto intro!: cls.steps_rules calls_same_basic)

lemma calls_same_force_exit: "steps calls_same (force_exit cx i)"
  unfolding force_exit_def
  by (auto intro!: cls.steps_rules calls_same_basic calls_same_internal split: sum.splits option.splits)


text \<open>A running container stopped with no timeout: nobody records its exit, so the handler does.\<close>

definition sample_forced :: container_record where
  "sample_forced = (sample_container Running)\<lparr>ct_state := Exited, ct_finished_at := Some 0, ct_exit_code := Some (- 1),
     ct_reason := Some ''Error''\<rparr>"

definition sample_stop :: "(mem_db, mem_db, string, unit) cri_ctx" where
  "sample_stop = sample_ctx [] [sample_container Running, sample_forced] []"

lemma sample_forced_differs [simp]: "sample_container Running \<noteq> sample_forced" "sample_forced \<noteq> sample_container Running"
  by (auto simp: sample_container_def sample_forced_def)


subsection \<open>UpdateContainerResources\<close>

text \<open>The handler reads the record, runs \<open>crun update\<close> and then writes the record it had read,
  with the new limits. Whatever another task wrote in between is lost: a container that exited
  meanwhile is \<open>Running\<close> again in the records.\<close>

theorem update_resources_overwrites:
  assumes "ctx_ok cx" "container_in cx i (cr_db w) = Inr (Some rec)"
    and "update_container_resources cx i (Some l) w = (Inr (), w')"
  shows "container_in cx i (cr_db w') = Inr (Some (rec\<lparr>ct_resources := Some (record_of_resources l)\<rparr>))"
proof -
  obtain out v where out: "crun_update (crun_root cx) i (cri_resources l) w = (Inr out :: rpc_status + proc_outcome, v)"
    by (simp add: crun_update_def run_crun_def)
  with assms(2,3) obtain u where
    put: "put_container cx i (rec\<lparr>ct_resources := Some (record_of_resources l)\<rparr>) u = (Inr (), w')"
    by (cases out) (auto simp: update_container_resources_def require_container_def prog_Inr get_run split: if_splits)
  from assms(1) put show ?thesis by (cases rule: put_container_cases) auto
qed

definition sample_limits :: linux_resources where
  "sample_limits = \<lparr>lr_cpu_period = 0, lr_cpu_quota = 0, lr_cpu_shares = 0, lr_memory_limit = 1024, lr_cpuset_cpus = [],
     lr_cpuset_mems = [], lr_hugepage_limits = [], lr_unified = []\<rparr>"

definition sample_resized :: container_record where
  "sample_resized = (sample_container Running)\<lparr>ct_resources := Some (record_of_resources sample_limits)\<rparr>"

definition sample_update :: "(mem_db, mem_db, string, unit) cri_ctx" where
  "sample_update = sample_ctx [] [sample_container Running, sample_done, sample_resized] []"

lemma sample_resized_differs [simp]: "sample_container Running \<noteq> sample_resized" "sample_done \<noteq> sample_resized"
  by (auto simp: sample_container_def sample_resized_def sample_done_def)

text \<open>The process ends while \<open>crun update\<close> runs: its exit is recorded, then overwritten.\<close>

theorem update_resources_overwrites_witness:
  "\<exists>w'. update_container_resources sample_update ''c1'' (Some sample_limits)
      (sample_world (sample_db [] [(''k8s.io/c1'', [0])] []) [\<lambda>d. sample_db [] [(''k8s.io/c1'', [1])] []] [ProcExit (Some 0) [] []])
      = (Inr (), w')
    \<and> container_in sample_update ''c1'' (sample_db [] [(''k8s.io/c1'', [1])] []) = Inr (Some sample_done)
    \<and> container_in sample_update ''c1'' (cr_db w') = Inr (Some sample_resized)
    \<and> ct_state sample_done = Exited \<and> ct_state sample_resized = Running"
proof -
  let ?w = "sample_world (sample_db [] [(''k8s.io/c1'', [0])] []) [\<lambda>d. sample_db [] [(''k8s.io/c1'', [1])] []] [ProcExit (Some 0) [] []]"
  have c: "container_in sample_update ''c1'' (sample_db [] [(''k8s.io/c1'', [n])] [])
      = Inr (Some ([sample_container Running, sample_done, sample_resized] ! unat n))" if "unat n < 3" for n
    using that by (simp add: sample_update_def sample_reads mem_get sample_db_def sample_des_def)
  have p: "put_container sample_update ''c1'' sample_resized w = (Inr (), w\<lparr>cr_db := sample_db [] [(''k8s.io/c1'', [2])] []\<rparr>)"
    if "cr_db w = sample_db [] [(''k8s.io/c1'', [1])] []" for w
    using that by (simp add: put_container_def db_step_def sample_update_def sample_ctx_def mem_put sample_ser_def sample_db_def fun_eq_iff)
  obtain w' where run: "update_container_resources sample_update ''c1'' (Some sample_limits) ?w = (Inr (), w')"
    using c [of 0] p [unfolded sample_resized_def]
    by (simp add: update_container_resources_def require_container_def crun_update_def run_crun_def await_def prog_simps
        exit_success_def sample_world_def)
  have ok: "ctx_ok sample_update" by (simp add: sample_update_def sample_ctx_ok)
  have "container_in sample_update ''c1'' (cr_db ?w) = Inr (Some (sample_container Running))"
    using c [of 0] by (simp add: sample_world_def)
  from update_resources_overwrites [OF ok this run] run c [of 1]
  show ?thesis by (auto simp: sample_resized_def [symmetric] sample_done_def) (simp_all add: sample_resized_def sample_container_def)
qed

end
