(* ===== verification/Cri_Reconcile.thy ===== *)
theory Cri_Reconcile
  imports Cri_Stop
begin

section \<open>Recovery after a restart\<close>

text \<open>
  The specification of \<open>reconcile\<close>: a verdict on each container that the records call running,
  taken from what \<open>crun state\<close> answers for it, and what a verdict means for the record and for
  the process. \<open>reconcile\<close> is shown to carry out exactly that.
\<close>

datatype verdict = Alive "int option" | Finished | Lost

definition verdict_of :: "(bytes \<Rightarrow> json option) \<Rightarrow> proc_outcome \<Rightarrow> verdict" where
  "verdict_of js out =
     (case out of
        ProcError _ \<Rightarrow> Lost
      | ProcExit code sout _ \<Rightarrow>
          if \<not> exit_success code then Lost
          else case parse_state js sout of
                 None \<Rightarrow> Lost
               | Some st \<Rightarrow> if is_running st then Alive (rst_pid st) else Finished)"

definition next_outcome :: "proc_outcome list \<Rightarrow> proc_outcome" where
  "next_outcome outs = (case outs of [] \<Rightarrow> ProcError NotFound | r # _ \<Rightarrow> r)"

definition is_alive :: "verdict \<Rightarrow> bool" where
  "is_alive v = (case v of Alive _ \<Rightarrow> True | _ \<Rightarrow> False)"

text \<open>The verdicts on \<open>n\<close> containers: a container that is not alive costs a second run, its
  deletion.\<close>

fun verdicts :: "(bytes \<Rightarrow> json option) \<Rightarrow> proc_outcome list \<Rightarrow> nat \<Rightarrow> verdict list" where
  "verdicts js outs 0 = []"
| "verdicts js outs (Suc n) =
     (let v = verdict_of js (next_outcome outs) in
      v # verdicts js (if is_alive v then tl outs else tl (tl outs)) n)"

definition verdict_calls :: "fpath \<Rightarrow> container_record \<Rightarrow> verdict \<Rightarrow> string list list" where
  "verdict_calls root c v =
     state_args root (ct_id c) # (if is_alive v then [] else [delete_force_args root (ct_id c)])"

definition settled :: "fpath \<Rightarrow> verdict \<Rightarrow> container_record \<Rightarrow> container_record \<Rightarrow> bool" where
  "settled root v c c' =
     (case v of
        Alive pid \<Rightarrow>
          c' = c\<lparr>ct_crun_root := Some (path_display root), ct_pid := (if pid \<noteq> None then pid else ct_pid c)\<rparr>
      | Finished \<Rightarrow>
          ct_state c' = Exited \<and> ct_finished_at c' \<noteq> None \<and> (ct_finished_at c \<noteq> None \<longrightarrow> ct_finished_at c' = ct_finished_at c)
          \<and> ct_exit_code c' = Some (unwrap_or (- 1) (ct_exit_code c)) \<and> ct_id c' = ct_id c
      | Lost \<Rightarrow> c' = c\<lparr>ct_state := Unknown\<rparr>)"

definition count_verdicts :: "verdict list \<Rightarrow> reconcile_report \<Rightarrow> reconcile_report" where
  "count_verdicts vs rep =
     rep\<lparr>rc_readopted := rc_readopted rep + length (filter is_alive vs),
         rc_reaped := rc_reaped rep + length (filter (\<lambda>v. v = Finished) vs),
         rc_marked_unknown := rc_marked_unknown rep + length (filter (\<lambda>v. v = Lost) vs)\<rparr>"

text \<open>One probe and what it means.\<close>

definition probed :: "string list \<Rightarrow> 'd cri_os \<Rightarrow> 'd cri_os" where
  "probed args w = w\<lparr>cr_crun_calls := cr_crun_calls w @ [args], cr_crun := tl (cr_crun w)\<rparr>"

lemma run_crun_probed: "run_crun args w = (Inr (next_outcome (cr_crun w)), probed args w)"
  by (simp add: run_crun_def next_outcome_def probed_def split: list.splits)

lemma probed_simps [simp]:
  "cr_db (probed args w) = cr_db w" "cr_crun_calls (probed args w) = cr_crun_calls w @ [args]"
  "cr_crun (probed args w) = tl (cr_crun w)"
  by (simp_all add: probed_def)

lemma probe_cases:
  obtains (alive) st where "crun_probe js root i w = (Inr (Some st), probed (state_args root i) w)" "is_running st"
      "verdict_of js (next_outcome (cr_crun w)) = Alive (rst_pid st)"
  | (finished) st where "crun_probe js root i w = (Inr (Some st), probed (state_args root i) w)" "\<not> is_running st"
      "verdict_of js (next_outcome (cr_crun w)) = Finished"
  | (lost) r where "crun_probe js root i w = (r, probed (state_args root i) w)" "\<And>st. r \<noteq> Inr (Some st)"
      "verdict_of js (next_outcome (cr_crun w)) = Lost"
proof (cases "next_outcome (cr_crun w)")
  case (ProcExit code sout serr)
  show ?thesis
  proof (cases "exit_success code \<and> parse_state js sout \<noteq> None")
    case True
    then obtain st where st: "parse_state js sout = Some st" by blast
    show ?thesis
      by (cases "is_running st")
        (rule alive finished; use True ProcExit st in \<open>simp add: crun_probe_def crun_state_def run_crun_probed prog_simps verdict_of_def\<close>)+
  qed (rule lost [of "Inr None"]; use ProcExit in \<open>auto simp: crun_probe_def crun_state_def run_crun_probed prog_simps verdict_of_def\<close>)
qed (rule lost; use sum.distinct(1) in \<open>auto simp: crun_probe_def crun_state_def run_crun_probed prog_simps verdict_of_def\<close>)

lemma put_settles:
  assumes "ctx_ok cx" "put_container cx i r u = (Inr (), u')"
  shows "container_in cx j (cr_db u') = (if j = i then Inr (Some r) else container_in cx j (cr_db u))"
    and "cr_crun_calls u' = cr_crun_calls u" "cr_crun u' = cr_crun u"
  using assms by (cases rule: put_container_cases; simp)+

lemma reconcile_one_runs:
  assumes ok: "ctx_ok cx" and run: "reconcile_one cx rep c w = (Inr rep', w')" and st: "ct_state c = Running"
  defines "v \<equiv> verdict_of (cx_json cx) (next_outcome (cr_crun w))"
  shows "cr_crun_calls w' = cr_crun_calls w @ verdict_calls (crun_root cx) c v
    \<and> cr_crun w' = (if is_alive v then tl (cr_crun w) else tl (tl (cr_crun w)))
    \<and> (\<exists>c'. settled (crun_root cx) v c c' \<and>
         (\<forall>j. container_in cx j (cr_db w') = (if j = ct_id c then Inr (Some c') else container_in cx j (cr_db w))))
    \<and> rep' = count_verdicts [v] rep"
proof (cases rule: probe_cases [of "cx_json cx" "crun_root cx" "ct_id c" w])
  case (alive s)
  let ?c = "c\<lparr>ct_crun_root := Some (path_display (crun_root cx)), ct_pid := (if rst_pid s \<noteq> None then rst_pid s else ct_pid c)\<rparr>"
  from run alive st have put: "put_container cx (ct_id c) ?c (probed (state_args (crun_root cx) (ct_id c)) w) = (Inr (), w')"
    and rep: "rep' = rep\<lparr>rc_readopted := rc_readopted rep + 1\<rparr>"
    by (auto simp: reconcile_one_def prog_Inr)
  have "settled (crun_root cx) v c ?c" "v = Alive (rst_pid s)" using alive(3) by (simp_all add: v_def settled_def)
  with put_settles [OF ok put] rep show ?thesis
    by (intro conjI exI [of _ ?c]) (simp_all add: is_alive_def verdict_calls_def count_verdicts_def)
next
  case (finished s)
  let ?w = "probed (delete_force_args (crun_root cx) (ct_id c)) (probed (state_args (crun_root cx) (ct_id c)) w)"
  define reap where "reap fin = (if ct_exit_code c = None then c\<lparr>ct_exit_code := Some (- 1), ct_reason := Some ''Unknown''\<rparr> else c)
    \<lparr>ct_state := Exited, ct_finished_at := fin\<rparr>" for fin
  from run finished st obtain fin u where
    fin: "(if ct_finished_at c = None then pbind unix_nanos (\<lambda>t. pret (Some t)) else pret (ct_finished_at c)) ?w = (Inr fin :: meta_error + _, u)"
    and put: "put_container cx (ct_id c) (reap fin) u = (Inr (), w')" and rep: "rep' = rep\<lparr>rc_reaped := rc_reaped rep + 1\<rparr>"
    by (auto simp: reconcile_one_def prog_Inr crun_delete_def run_crun_probed reap_def split del: if_split)
  from fin have u: "cr_db u = cr_db ?w" "cr_crun_calls u = cr_crun_calls ?w" "cr_crun u = cr_crun ?w"
    and "fin \<noteq> None" "ct_finished_at c \<noteq> None \<longrightarrow> fin = ct_finished_at c"
    by (auto simp: prog_simps unix_nanos_def split: if_splits)
  then have r: "settled (crun_root cx) Finished c (reap fin)" by (auto simp: settled_def reap_def)
  have "settled (crun_root cx) v c (reap fin)" "v = Finished" using finished(3) r by (simp_all add: v_def)
  with put_settles [OF ok put] u rep show ?thesis
    by (intro conjI exI [of _ "reap fin"]) (simp_all add: is_alive_def verdict_calls_def count_verdicts_def)
next
  case (lost p)
  let ?c = "c\<lparr>ct_state := Unknown\<rparr>"
  let ?w = "probed (delete_force_args (crun_root cx) (ct_id c)) (probed (state_args (crun_root cx) (ct_id c)) w)"
  from run lost st have put: "put_container cx (ct_id c) ?c ?w = (Inr (), w')"
    and rep: "rep' = rep\<lparr>rc_marked_unknown := rc_marked_unknown rep + 1\<rparr>"
    by (cases p; auto simp: reconcile_one_def prog_Inr crun_delete_def run_crun_probed split: option.splits)+
  have "settled (crun_root cx) v c ?c" "v = Lost" using lost(3) by (simp_all add: v_def settled_def)
  with put_settles [OF ok put] rep show ?thesis
    by (intro conjI exI [of _ ?c]) (simp_all add: is_alive_def verdict_calls_def count_verdicts_def)
qed

definition was_running :: "container_record list \<Rightarrow> container_record list" where
  "was_running cs = filter (\<lambda>c. ct_state c = Running) cs"

lemma was_running_simps [simp]:
  "was_running [] = []" "was_running (c # cs) = (if ct_state c = Running then c # was_running cs else was_running cs)"
  by (simp_all add: was_running_def)

lemma was_running_ids: "ct_id ` set (was_running cs) \<subseteq> ct_id ` set cs"
  by (auto simp: was_running_def)

lemma count_verdicts_Cons: "count_verdicts (v # vs) rep = count_verdicts vs (count_verdicts [v] rep)"
  by (cases v) (simp_all add: count_verdicts_def is_alive_def)

lemma reconcile_fold:
  assumes "ctx_ok cx" "distinct (map ct_id cs)" "pfold (reconcile_one cx) rep cs w = (Inr rep', w')"
  defines "vs \<equiv> verdicts (cx_json cx) (cr_crun w) (length (was_running cs))"
  shows "cr_crun_calls w' = cr_crun_calls w @ concat (map2 (verdict_calls (crun_root cx)) (was_running cs) vs)
    \<and> list_all2 (\<lambda>c v. \<exists>c'. settled (crun_root cx) v c c' \<and> container_in cx (ct_id c) (cr_db w') = Inr (Some c')) (was_running cs) vs
    \<and> (\<forall>j. j \<notin> ct_id ` set (was_running cs) \<longrightarrow> container_in cx j (cr_db w') = container_in cx j (cr_db w))
    \<and> rep' = count_verdicts vs rep"
  using assms(2,3) unfolding vs_def
proof (induction cs arbitrary: rep w)
  case Nil
  then show ?case by (auto simp: prog_simps count_verdicts_def)
next
  case (Cons c cs)
  from Cons.prems obtain rep1 w1 where one: "reconcile_one cx rep c w = (Inr rep1, w1)"
    and rest: "pfold (reconcile_one cx) rep1 cs w1 = (Inr rep', w')" by (auto simp: prog_Inr)
  from Cons.prems have "distinct (map ct_id cs)" and new: "ct_id c \<notin> ct_id ` set (was_running cs)"
    using was_running_ids [of cs] by auto
  note IH = Cons.IH [OF this(1) rest]
  show ?case
  proof (cases "ct_state c = Running")
    case False
    with one have "rep1 = rep" "w1 = w" by (auto simp: reconcile_one_def prog_simps)
    with IH False show ?thesis by simp
  next
    case True
    let ?v = "verdict_of (cx_json cx) (next_outcome (cr_crun w))"
    let ?vs = "verdicts (cx_json cx) (cr_crun w1) (length (was_running cs))"
    from reconcile_one_runs [OF assms(1) one True] obtain c' where
      w1: "cr_crun_calls w1 = cr_crun_calls w @ verdict_calls (crun_root cx) c ?v"
        "cr_crun w1 = (if is_alive ?v then tl (cr_crun w) else tl (tl (cr_crun w)))"
      and c': "settled (crun_root cx) ?v c c'"
      and db: "\<And>j. container_in cx j (cr_db w1) = (if j = ct_id c then Inr (Some c') else container_in cx j (cr_db w))"
      and rep1: "rep1 = count_verdicts [?v] rep" by blast
    have vs: "verdicts (cx_json cx) (cr_crun w) (length (was_running (c # cs))) = ?v # ?vs"
      using True w1(2) by (simp add: Let_def)
    from IH have calls: "cr_crun_calls w' = cr_crun_calls w1 @ concat (map2 (verdict_calls (crun_root cx)) (was_running cs) ?vs)"
      and recs: "list_all2 (\<lambda>c v. \<exists>c'. settled (crun_root cx) v c c' \<and> container_in cx (ct_id c) (cr_db w') = Inr (Some c')) (was_running cs) ?vs"
      and kept: "\<And>j. j \<notin> ct_id ` set (was_running cs) \<Longrightarrow> container_in cx j (cr_db w') = container_in cx j (cr_db w1)"
      and rep': "rep' = count_verdicts ?vs rep1" by blast+
    have "container_in cx (ct_id c) (cr_db w') = Inr (Some c')" using kept [OF new] db [of "ct_id c"] by simp
    then have "\<exists>c'. settled (crun_root cx) ?v c c' \<and> container_in cx (ct_id c) (cr_db w') = Inr (Some c')" using c' by blast
    moreover have "container_in cx j (cr_db w') = container_in cx j (cr_db w)" if "j \<notin> ct_id ` set (was_running (c # cs))" for j
      using that True kept [of j] db [of j] by simp
    moreover have "rep' = count_verdicts (?v # ?vs) rep" unfolding rep' rep1 by (rule count_verdicts_Cons [symmetric])
    ultimately show ?thesis
      unfolding vs using True recs calls w1(1) by simp
  qed
qed

text \<open>C9. After a restart, each container that the records call running gets a verdict from \<open>crun
  state\<close>, and only those do. A live one is never deleted and stays \<open>Running\<close>, with its handles
  refreshed; one that is known but not running is deleted and recorded \<open>Exited\<close>, with its exit
  code if it had one; one for which the probe gives nothing is deleted and recorded \<open>Unknown\<close>.
  Every other record is untouched, and the report counts the three groups.\<close>

theorem reconcile_implements_verdicts:
  assumes "ctx_ok cx" "keyed_by ct_id (\<lambda>i. container_in cx i (cr_db w))"
    and "list_container_records cx w = (Inr cs, w)" "reconcile cx w = (Inr rep, w')"
  shows "let vs = verdicts (cx_json cx) (cr_crun w) (length (was_running cs)) in
     cr_crun_calls w' = cr_crun_calls w @ concat (map2 (verdict_calls (crun_root cx)) (was_running cs) vs)
   \<and> list_all2 (\<lambda>c v. \<exists>c'. settled (crun_root cx) v c c' \<and> container_in cx (ct_id c) (cr_db w') = Inr (Some c')) (was_running cs) vs
   \<and> (\<forall>j. j \<notin> ct_id ` set (was_running cs) \<longrightarrow> container_in cx j (cr_db w') = container_in cx j (cr_db w))
   \<and> rc_containers rep = length cs \<and> rc_readopted rep = length (filter is_alive vs)
   \<and> rc_reaped rep = length (filter (\<lambda>v. v = Finished) vs) \<and> rc_marked_unknown rep = length (filter (\<lambda>v. v = Lost) vs)"
proof -
  from assms(3) have ls: "store_list (cx_redb cx) (cx_des_container cx) Container (cx_namespace cx) (cr_db w) = Inr cs"
    by (simp add: list_container_records_def)
  have dist: "distinct (map ct_id cs)" using ctr.lst_keyed [OF assms(1) ls assms(2)] by blast
  from assms(3,4) obtain n where fold: "pfold (reconcile_one cx) \<lparr>rc_sandboxes = n, rc_containers = length cs, rc_readopted = 0,
      rc_reaped = 0, rc_marked_unknown = 0\<rparr> cs w = (Inr rep, w')"
    by (auto simp: reconcile_def prog_Inr list_sandboxes_def)
  show ?thesis using reconcile_fold [OF assms(1) dist fold] by (simp add: Let_def count_verdicts_def)
qed

text \<open>A container that \<open>crun\<close> no longer knows.\<close>

definition sample_recovery :: "(mem_db, mem_db, string, unit) cri_ctx" where
  "sample_recovery = sample_ctx [] [sample_container Running, sample_container Unknown] []"

lemma sample_unknown [simp]:
  "(sample_container Running)\<lparr>ct_state := Unknown\<rparr> = sample_container Unknown"
  "sample_container Running \<noteq> sample_container Unknown" "ct_state (sample_container st) = st" "ct_id (sample_container st) = ''c1''"
  by (simp_all add: sample_container_def)

theorem reconcile_implements_verdicts_witness:
  "\<exists>rep w'. reconcile sample_recovery sample_running = (Inr rep, w')
    \<and> container_in sample_recovery ''c1'' (cr_db w') = Inr (Some (sample_container Unknown)) \<and> rc_marked_unknown rep = 1
    \<and> cr_crun_calls w' = [state_args (crun_root sample_recovery) ''c1'', delete_force_args (crun_root sample_recovery) ''c1'']"
proof -
  let ?d = "sample_db [] [(''k8s.io/c1'', [0])] []"
  have w: "cr_db sample_running = ?d" "cr_crun sample_running = []" "cr_crun_calls sample_running = []"
    by (simp_all add: sample_running_def sample_world_def)
  have ok: "ctx_ok sample_recovery" by (simp add: sample_recovery_def sample_ctx_ok)
  have c: "container_in sample_recovery j ?d = (if j = ''c1'' then Inr (Some (sample_container Running)) else Inr None)" for j
    by (simp add: sample_recovery_def sample_reads mem_get sample_db_def sample_des_def)
  have keyed: "keyed_by ct_id (\<lambda>i. container_in sample_recovery i (cr_db sample_running))" by (simp add: keyed_by_def w c)
  have ls: "list_container_records sample_recovery sample_running = (Inr [sample_container Running], sample_running)"
    "list_sandboxes sample_recovery sample_running = (Inr [], sample_running)"
    by (simp_all add: list_container_records_def list_sandboxes_def w store_list_def sample_recovery_def sample_ctx_def mem_redb_def
        sample_db_def starts_with_def sample_des_def)
  have p: "put_container sample_recovery ''c1'' (sample_container Unknown) v = (Inr (), v\<lparr>cr_db := sample_db [] [(''k8s.io/c1'', [1])] []\<rparr>)"
    if "cr_db v = ?d" for v
    using that by (simp add: put_container_def db_step_def sample_recovery_def sample_ctx_def mem_put sample_ser_def sample_db_def fun_eq_iff)
  obtain rep w' where run: "reconcile sample_recovery sample_running = (Inr rep, w')"
    using p by (simp add: reconcile_def ls prog_simps reconcile_one_def crun_probe_def crun_state_def crun_delete_def run_crun_probed
        next_outcome_def w)
  from reconcile_implements_verdicts [OF ok keyed ls(1) run] run show ?thesis
    by (auto simp: w next_outcome_def verdict_of_def is_alive_def verdict_calls_def settled_def)
qed

end
