(* ===== verification/Daemon.thy ===== *)
theory Daemon
  imports Cri_Exec Cri_Frames
begin

section \<open>The daemon\<close>

text \<open>
  \<open>crates/containerd-rs\<close>: the configuration (\<open>config.rs\<close>), what \<open>main\<close> does up to the point where the two
  servers run, \<open>sd_notify_ready\<close>, and \<open>host_ip\<close> of \<open>crates/sandbox/src/net.rs\<close>. The TOML reader, \<open>statfs\<close>,
  \<open>Database::create\<close> and the parsing of a socket address are arguments.
\<close>

subsection \<open>Configuration\<close>

record cri_config =
  cc_sandbox_image :: string
  cc_default_runtime_name :: string
  cc_runtime_type :: string
  cc_snapshotter :: string
  cc_systemd_cgroup :: bool
  cc_registry_config_path :: fpath
  cc_cni_conf_dir :: fpath
  cc_cni_bin_dir :: fpath
  cc_no_pivot_root :: bool

record config =
  cf_root :: fpath
  cf_state :: fpath
  cf_cri_socket :: fpath
  cf_stream_server_address :: string
  cf_cri :: cri_config

definition cri_config_default :: cri_config where
  "cri_config_default =
     \<lparr>cc_sandbox_image = ''registry.k8s.io/pause:3.10'', cc_default_runtime_name = ''crun'', cc_runtime_type = ''io.containerd.crun.v2'',
      cc_snapshotter = ''overlayfs'', cc_systemd_cgroup = False, cc_registry_config_path = [''etc'', ''containerd-rs'', ''certs.d''],
      cc_cni_conf_dir = [''etc'', ''cni'', ''net.d''], cc_cni_bin_dir = [''opt'', ''cni'', ''bin''], cc_no_pivot_root = False\<rparr>"

definition config_default :: config where
  "config_default =
     \<lparr>cf_root = [''var'', ''lib'', ''containerd-rs''], cf_state = [''run'', ''containerd-rs''], cf_cri_socket = [''run'', ''containerd-rs.sock''],
      cf_stream_server_address = ''127.0.0.1:10010'', cf_cri = cri_config_default\<rparr>"

datatype daemon_error =
    DaemonIo io_error
  | DaemonContent content_error
  | DaemonMeta meta_error
  | DaemonConfig string
  | DaemonCgroup
  | DaemonAddress string string
  | DaemonHolder

definition config_load :: "(string \<Rightarrow> string + config) \<Rightarrow> fpath \<Rightarrow> ('z os_scheme, daemon_error, config) prog" where
  "config_load from_toml p =
     pbind (path_exists p) (\<lambda>there.
       if there then
         pbind (with_err DaemonIo (read_to_string p)) (\<lambda>text'. plift (map_err DaemonConfig (from_toml text')))
       else pret config_default)"

definition content_dir :: "config \<Rightarrow> fpath" where
  "content_dir cfg = cf_root cfg @ [''io.containerd.content.v1.content'']"

definition snapshots_dir :: "config \<Rightarrow> fpath" where
  "snapshots_dir cfg = cf_root cfg @ [''io.containerd.snapshotter.v1.overlayfs'']"

definition metadata_db :: "config \<Rightarrow> fpath" where
  "metadata_db cfg = cf_root cfg @ [''io.containerd.metadata.v1.redb'', ''meta.db'']"

subsection \<open>The context\<close>

definition cni_new :: "fpath \<Rightarrow> fpath \<Rightarrow> cni" where
  "cni_new conf_dir bin_dir = \<lparr>cn_conf_dir = conf_dir, cn_bin_dir = bin_dir, cn_netns_dir = [''run'', ''netns'']\<rparr>"

text \<open>\<open>base\<close> carries the library functions of the context, which do not depend on the configuration. The
  second result is the registry of streaming sessions, the third the registry configuration for pulls.\<close>

definition context_new ::
  "('d, 't, 'sec, 'b) cri_ctx \<Rightarrow> store \<Rightarrow> fpath \<Rightarrow> fpath \<Rightarrow> string \<Rightarrow> fpath \<Rightarrow> fpath \<Rightarrow> fpath option \<Rightarrow> bool
   \<Rightarrow> ('d, 't, 'sec, 'b) cri_ctx \<times> sessions \<times> fpath option" where
  "context_new base content snapshots_root state_dir stream_addr cni_conf_dir cni_bin_dir registry_config_path no_pivot_root =
     (base\<lparr>cx_content := content, cx_snapshots_root := snapshots_root, cx_state_dir := state_dir, cx_namespace := ns_CRI,
           cx_stream_base_url := ''http://'' @ stream_addr, cx_cni := cni_new cni_conf_dir cni_bin_dir,
           cx_no_pivot_root := no_pivot_root\<rparr>,
      sessions_new (state_dir @ [''crun'']), registry_config_path)"

subsection \<open>Starting\<close>

record ('d, 'a) daemon_lib =
  dl_from_toml :: "string \<Rightarrow> string + config"
  dl_statfs :: "fpath \<Rightarrow> io_error + i64"
  dl_create_db :: "fpath \<Rightarrow> 'd \<Rightarrow> string + 'd"
  dl_parse_addr :: "string \<Rightarrow> string + 'a"

text \<open>\<open>cgroup.rs\<close>: \<open>f_type\<close> is signed and read as a \<open>u64\<close>.\<close>

definition detect :: "(fpath \<Rightarrow> io_error + i64) \<Rightarrow> fpath \<Rightarrow> io_error + cgroup_version" where
  "detect statfs mnt = rbind (statfs mnt) (\<lambda>f_type. Inr (version_from_magic f_type))"

definition detect_default :: "(fpath \<Rightarrow> io_error + i64) \<Rightarrow> io_error + cgroup_version" where
  "detect_default statfs = detect statfs [''sys'', ''fs'', ''cgroup'']"

text \<open>A host whose control groups cannot be inspected is taken for a unified one.\<close>

definition cgroup_ok :: "io_error + cgroup_version \<Rightarrow> bool" where
  "cgroup_ok detected = (case detected of Inr v \<Rightarrow> v = V2 | Inl _ \<Rightarrow> True)"

definition init_stores :: "('d, 'a) daemon_lib \<Rightarrow> ('d, 't) redb \<Rightarrow> config \<Rightarrow> ('d cri_os, daemon_error, store) prog" where
  "init_stores lib rd cfg =
     pseq (with_err DaemonIo (create_dir_all (cf_root cfg)))
     (pseq (with_err DaemonIo (create_dir_all (cf_state cfg)))
     (pbind (with_err DaemonContent (open_store (content_dir cfg))) (\<lambda>content.
      pseq (with_err DaemonIo (create_dir_all (butlast (metadata_db cfg))))
      (pseq (with_err DaemonMeta (db_step (\<lambda>d. rbind (store_open rd (dl_create_db lib (metadata_db cfg) d)) (\<lambda>d. Inr ((), d)))))
      (pseq (with_err DaemonIo (create_dir_all (snapshots_dir cfg))) (pret content))))))"

text \<open>\<open>None\<close> is the end of a \<open>--check\<close> run; otherwise what the two servers are started with, and what
  became of the recovery, whose failure is only logged.\<close>

definition daemon_start ::
  "('d, 'a) daemon_lib \<Rightarrow> ('d, 't, 'sec, 'b) cri_ctx \<Rightarrow> bool \<Rightarrow> config
   \<Rightarrow> ('d cri_os, daemon_error, ((('d, 't, 'sec, 'b) cri_ctx \<times> sessions \<times> fpath option) \<times> (meta_error + reconcile_report) \<times> fpath \<times> 'a) option) prog" where
  "daemon_start lib base check cfg =
     pseq (pguard (cgroup_ok (detect_default (dl_statfs lib))) DaemonCgroup)
     (pbind (init_stores lib (cx_redb base) cfg) (\<lambda>content.
      if check then pret None
      else
        (let ctx = context_new base content (snapshots_dir cfg) (cf_state cfg) (cf_stream_server_address cfg)
                     (cc_cni_conf_dir (cf_cri cfg)) (cc_cni_bin_dir (cf_cri cfg)) (Some (cc_registry_config_path (cf_cri cfg)))
                     (cc_no_pivot_root (cf_cri cfg)) in
         pbind (attempt (reconcile (fst ctx))) (\<lambda>report.
         pseq (if cf_cri_socket cfg \<noteq> [] then with_err DaemonIo (create_dir_all (butlast (cf_cri_socket cfg))) else pret ())
         (pbind (plift (map_err (DaemonAddress (cf_stream_server_address cfg)) (dl_parse_addr lib (cf_stream_server_address cfg)))) (\<lambda>addr.
            pret (Some (ctx, report, cf_cri_socket cfg, addr))))))))"

definition daemon_main ::
  "('d, 'a) daemon_lib \<Rightarrow> ('d, 't, 'sec, 'b) cri_ctx \<Rightarrow> fpath \<Rightarrow> bool
   \<Rightarrow> ('d cri_os, daemon_error, ((('d, 't, 'sec, 'b) cri_ctx \<times> sessions \<times> fpath option) \<times> (meta_error + reconcile_report) \<times> fpath \<times> 'a) option) prog" where
  "daemon_main lib base config_path check = pbind (config_load (dl_from_toml lib) config_path) (daemon_start lib base check)"

text \<open>Before that, \<open>main\<close> looks for the helper's own argument: \<open>Some\<close> is the pid file of the holder.\<close>

definition holder_mode :: "string list \<Rightarrow> daemon_error + path option" where
  "holder_mode raw =
     (if 1 < length raw \<and> raw ! 1 = ''__pid-holder'' then
        (if 2 < length raw then Inr (Some (raw ! 2)) else Inl DaemonHolder)
      else Inr None)"

text \<open>Where \<open>READY=1\<close> is sent.\<close>

definition sd_notify_target :: "string option \<Rightarrow> string option" where
  "sd_notify_target env =
     (case env of
        None \<Rightarrow> None
      | Some p \<Rightarrow> if p = [] \<or> starts_with p ''@'' then None else Some p)"

text \<open>\<open>serve\<close> of the CRI socket: a stale file is removed before the bind.\<close>

definition clear_socket :: "fpath \<Rightarrow> ('z os_scheme, io_error, unit) prog" where
  "clear_socket p = pbind (path_exists p) (\<lambda>there. pwhen there (remove_file p))"

definition host_ip :: "io_error + string \<Rightarrow> string" where
  "host_ip local = unwrap_or ''127.0.0.1'' (ok local)"

subsection \<open>Settings without effect\<close>

text \<open>The fields of the configuration that reach neither the context nor a server.\<close>

definition same_effect :: "config \<Rightarrow> config \<Rightarrow> bool" where
  "same_effect c d \<longleftrightarrow>
     cf_root c = cf_root d \<and> cf_state c = cf_state d \<and> cf_cri_socket c = cf_cri_socket d
     \<and> cf_stream_server_address c = cf_stream_server_address d
     \<and> cc_registry_config_path (cf_cri c) = cc_registry_config_path (cf_cri d) \<and> cc_cni_conf_dir (cf_cri c) = cc_cni_conf_dir (cf_cri d)
     \<and> cc_cni_bin_dir (cf_cri c) = cc_cni_bin_dir (cf_cri d) \<and> cc_no_pivot_root (cf_cri c) = cc_no_pivot_root (cf_cri d)"

lemma init_stores_same: "same_effect c d \<Longrightarrow> init_stores lib rd c = init_stores lib rd d"
  by (simp add: same_effect_def init_stores_def content_dir_def metadata_db_def snapshots_dir_def)

lemma daemon_start_same:
  assumes "same_effect c d"
  shows "daemon_start lib base check c = daemon_start (lib\<lparr>dl_from_toml := toml\<rparr>) base check d"
proof -
  have stores: "init_stores (lib\<lparr>dl_from_toml := toml\<rparr>) = init_stores lib"
    by (intro ext) (simp add: init_stores_def)
  have kept: "dl_parse_addr (lib\<lparr>dl_from_toml := toml\<rparr>) = dl_parse_addr lib"
      "dl_statfs (lib\<lparr>dl_from_toml := toml\<rparr>) = dl_statfs lib"
    by simp_all
  note same = assms [unfolded same_effect_def]
  show ?thesis
    unfolding daemon_start_def stores init_stores_same [OF assms] snapshots_dir_def
    by (simp only: same kept)
qed

lemma same_effect_load:
  assumes same: "\<And>text'. rel_sum (=) same_effect (from_toml text') (toml text')"
  shows "rel_prod (rel_sum (=) same_effect) (=) (config_load from_toml p w) (config_load toml p w)"
proof -
  have refl: "same_effect c c" for c
    by (simp add: same_effect_def)
  have parsed: "rel_sum (=) same_effect (map_err DaemonConfig (from_toml text')) (map_err DaemonConfig (toml text'))" for text'
    using same [of text'] by (auto simp: map_err_def elim!: rel_sum.cases)
  obtain there w1 where seen: "path_exists p w = (there :: daemon_error + bool, w1)"
    by fastforce
  show ?thesis
    using seen parsed refl
    by (cases "read_to_string p w1"; cases there) (auto simp: config_load_def prog_simps split: sum.splits)
qed

text \<open>Two configurations that differ only in the sandbox image, the runtime name, the runtime type, the
  snapshotter or the choice of the systemd cgroup driver start the same daemon.\<close>

theorem ignored_settings:
  assumes "\<And>text'. rel_sum (=) same_effect (dl_from_toml lib text') (toml text')"
  shows "daemon_main lib base p check w = daemon_main (lib\<lparr>dl_from_toml := toml\<rparr>) base p check w"
  using same_effect_load [of "dl_from_toml lib" toml p w, OF assms]
  by (cases "config_load (dl_from_toml lib) p w"; cases "config_load toml p w")
    (auto simp: daemon_main_def pbind_def elim!: rel_sum.cases intro!: fun_cong [OF daemon_start_same])

end
