(* ===== verification/Cri_System.thy ===== *)
theory Cri_System
  imports Cri_Keyed Cri_Reconcile Daemon
begin

section \<open>The daemon over time\<close>

text \<open>
  Requests and restarts together. A restart is the whole of \<open>daemon_main\<close>: the configuration is
  read, the stores are opened, and the recovery goes through the records. Two invariants hold over
  any history of requests, process ends and restarts: every record stays under its own identifier,
  and a container's state only moves forward.
\<close>

subsection \<open>The recovery and the states\<close>

definition others_kept :: "('d, 't, 'sec, 'b) cri_ctx \<Rightarrow> string \<Rightarrow> 'd cri_os \<Rightarrow> 'd cri_os \<Rightarrow> bool" where
  "others_kept cx j w w' \<longleftrightarrow> (\<forall>k. k \<noteq> j \<longrightarrow> container_in cx k (cr_db w') = container_in cx k (cr_db w))"

interpretation okp: step_order "others_kept cx j" for cx j
  by unfold_locales (simp_all add: others_kept_def)

lemma others_kept_records: "steps records_kept m \<Longrightarrow> steps (others_kept cx j) m"
  by (erule steps_weaken) (simp add: records_kept_def others_kept_def)

lemma others_kept_put:
  assumes "ctx_ok cx"
  shows "steps (others_kept cx j) (put_container cx j r)"
proof (rule stepsI)
  fix w
  obtain x w' where run: "put_container cx j r w = (x, w')" by fastforce
  from assms run show "others_kept cx j w (snd (put_container cx j r w))"
    by (cases rule: put_container_cases) (auto simp: run others_kept_def)
qed

lemma reconcile_one_others:
  assumes "ctx_ok cx"
  shows "steps (others_kept cx (ct_id c)) (reconcile_one cx rep c)"
  unfolding reconcile_one_def
  by (auto intro!: okp.steps_rules others_kept_put assms records_kept_calls [THEN others_kept_records]
      records_kept_crun [THEN others_kept_records] aside_calls [THEN aside_records, THEN others_kept_records]
      split: sum.splits option.splits)

lemma reconcile_one_moves:
  assumes "ctx_ok cx"
  shows "steps_if (reads cx (ct_id c) c) (lifecycle cx i) (reconcile_one cx rep c)"
proof (cases "ct_state c = Running")
  case True
  have put: "steps_if (reads cx (ct_id c) c) (lifecycle cx i) (pseq (put_container cx (ct_id c) r') (pret rep'))"
    if "Running \<le> ct_state r'" for r' rep'
    using that True by (intro reads_last put_moves assms lfc.steps_rules) simp
  show ?thesis
    unfolding reconcile_one_def using True
    by (auto intro!: reads_then reads_then_seq put rck.steps_rules records_kept_crun aside_calls [THEN aside_records]
        split: sum.splits option.splits)
qed (simp add: reconcile_one_def steps_if_def prog_simps lfc.order_refl)

lemma reconcile_moves:
  assumes "ctx_ok cx" "distinct (map ct_id cs)" "\<And>c. c \<in> set cs \<Longrightarrow> reads cx (ct_id c) c w"
    and "pfold (reconcile_one cx) rep cs w = (r, w')"
  shows "lifecycle cx i w w'"
  using assms(2-)
proof (induction cs arbitrary: rep w)
  case Nil
  then show ?case by (simp add: prog_simps lfc.order_refl)
next
  case (Cons c cs)
  obtain x u where u: "reconcile_one cx rep c w = (x, u)" by fastforce
  have one: "lifecycle cx i w u"
    by (rule steps_ifD [OF reconcile_one_moves [OF assms(1)] _ u]) (simp add: Cons.prems(2))
  show ?case
  proof (cases x)
    case (Inr rep1)
    have "reads cx (ct_id d) d u" if d: "d \<in> set cs" for d
    proof -
      have "ct_id d \<noteq> ct_id c" using Cons.prems(1) d by (metis distinct.simps(2) imageI list.map(2) set_map)
      then show ?thesis
        using stepsD [OF reconcile_one_others [OF assms(1)] u] Cons.prems(2) [of d] d by (simp add: others_kept_def reads_def)
    qed
    moreover have "pfold (reconcile_one cx) rep1 cs u = (r, w')" using Cons.prems(3) u Inr by (simp add: prog_simps)
    ultimately have "lifecycle cx i u w'" using Cons.IH Cons.prems(1) by simp
    with one show ?thesis by (rule lfc.order_trans)
  qed (use Cons.prems(3) u one in \<open>simp add: prog_simps\<close>)
qed

lemma lifecycle_reconcile:
  assumes ok: "ctx_ok cx"
  shows "steps_if (keyed_world cx) (lifecycle cx i) (reconcile cx)"
proof (rule steps_ifI)
  fix w r w' assume keyed: "keyed_world cx w" and run: "reconcile cx w = (r, w')"
  consider (lists) sbs cs where "list_sandboxes cx w = (Inr sbs, w)" "list_container_records cx w = (Inr cs, w)"
    | (fails) "w' = w"
    using run by (cases "fst (list_sandboxes cx w)"; cases "fst (list_container_records cx w)")
      (auto simp: reconcile_def prog_simps list_sandboxes_def list_container_records_def)
  then show "lifecycle cx i w w'"
  proof cases
    case (lists sbs cs)
    then have "store_list (cx_redb cx) (cx_des_container cx) Container (cx_namespace cx) (cr_db w) = Inr cs"
      by (simp add: list_container_records_def)
    from ctr.lst_keyed [OF ok this] keyed have "distinct (map ct_id cs)" "\<And>c. c \<in> set cs \<Longrightarrow> reads cx (ct_id c) c w"
      by (auto simp: keyed_world_def all_keyed_def reads_def)
    moreover obtain rep where "pfold (reconcile_one cx) rep cs w = (r, w')"
      using run lists by (auto simp: reconcile_def prog_simps)
    ultimately show ?thesis by (rule reconcile_moves [OF ok])
  qed (simp add: lfc.order_refl)
qed


subsection \<open>A restart\<close>

text \<open>What is relied on of \<open>Database::create\<close>: a database that exists is opened with its contents.\<close>

definition opens_kept :: "('d, 't, 'sec, 'b) cri_ctx \<Rightarrow> ('d, 'a) daemon_lib \<Rightarrow> bool" where
  "opens_kept cx lib \<longleftrightarrow>
     (\<forall>p d d'. dl_create_db lib p d = Inr d' \<longrightarrow> same_sandboxes cx d d' \<and> same_containers cx d d' \<and> same_images cx d d')"

definition records_same :: "('d, 't, 'sec, 'b) cri_ctx \<Rightarrow> 'd cri_os \<Rightarrow> 'd cri_os \<Rightarrow> bool" where
  "records_same cx w w' \<longleftrightarrow>
     cr_env w' = cr_env w \<and> same_sandboxes cx (cr_db w) (cr_db w') \<and> same_containers cx (cr_db w) (cr_db w')
     \<and> same_images cx (cr_db w) (cr_db w')"

interpretation rsm: step_order "records_same cx" for cx
  by unfold_locales (simp_all add: records_same_def same_defs)

lemma records_same_aside: "steps aside m \<Longrightarrow> steps (records_same cx) m"
  by (erule steps_weaken) (simp add: aside_def records_same_def same_defs)

lemma store_open_same:
  assumes "ctx_ok cx" "store_open (cx_redb cx) (Inr d) = Inr d'"
  shows "same_sandboxes cx d d' \<and> same_containers cx d d' \<and> same_images cx d d'"
proof -
  from assms(1) obtain view tview where db: "redb_ok (cx_redb cx) view tview" "\<And>d. read_ok (cx_redb cx) d"
    by (auto simp: ctx_ok_def)
  then show ?thesis
    by (simp add: same_defs sandbox_in_def container_in_def image_in_def store_get_view [OF db] store_open_view [OF db(1) assms(2)])
qed

lemma init_stores_same_records:
  assumes "ctx_ok cx" "opens_kept cx lib"
  shows "steps (records_same cx) (init_stores lib (cx_redb cx) cfg)"
proof -
  have same: "same_sandboxes cx d d2 \<and> same_containers cx d d2 \<and> same_images cx d d2"
    if "store_open (cx_redb cx) (dl_create_db lib p d) = Inr d2" for p d d2
  proof -
    from that obtain d1 where d1: "dl_create_db lib p d = Inr d1" by (auto simp: store_open_def)
    with assms(2) that store_open_same [OF assms(1), of d1 d2] show ?thesis by (auto simp: opens_kept_def same_defs)
  qed
  have "steps (records_same cx) (db_step (\<lambda>d. rbind (store_open (cx_redb cx) (dl_create_db lib p d)) (\<lambda>d. Inr ((), d))))" for p
    using same [of p] by (auto simp: steps_def db_step_def records_same_def same_defs split: sum.splits)
  then show ?thesis
    unfolding init_stores_def open_store_def Let_def
    by (auto intro!: rsm.steps_rules aside_create_dir_all [THEN records_same_aside] aside_calls [THEN records_same_aside])
qed


text \<open>The context that \<open>main\<close> builds reads the same records as the one it is built on.\<close>

lemma context_new_reads:
  assumes "cx_namespace cx = ns_CRI" "cx' = fst (context_new cx content snaps st addr conf bin reg nop)"
  shows "sandbox_in cx' = sandbox_in cx" "container_in cx' = container_in cx" "image_in cx' = image_in cx" "ctx_ok cx' = ctx_ok cx"
  using assms by (simp_all add: context_new_def fun_eq_iff sandbox_in_def container_in_def image_in_def ctx_ok_def)

definition advances :: "('d, 't, 'sec, 'b) cri_ctx \<Rightarrow> string \<Rightarrow> 'd cri_os \<Rightarrow> 'd cri_os \<Rightarrow> bool" where
  "advances cx i w w' \<longleftrightarrow> (keyed_world cx w \<longrightarrow> keyed_world cx w' \<and> lifecycle cx i w w')"

interpretation adv: step_order "advances cx i" for cx i
  by unfold_locales (auto simp: advances_def intro: lfc.order_refl lfc.order_trans)

lemma advances_both:
  "steps (stays_keyed cx) m \<Longrightarrow> steps_if (keyed_world cx) (lifecycle cx i) m \<Longrightarrow> steps (advances cx i) m"
  by (simp add: steps_def steps_if_def stays_keyed_def advances_def)



text \<open>A relation that holds where no record changes, and of every recovery, holds of a whole start.\<close>

lemma daemon_main_steps:
  assumes "ctx_ok cx" "opens_kept cx lib" "step_order R" "\<And>w w'. records_same cx w w' \<Longrightarrow> R w w'"
    and recover: "\<And>content snaps st addr conf bin reg nop. steps R (reconcile (fst (context_new cx content snaps st addr conf bin reg nop)))"
  shows "steps R (daemon_main lib cx p check)"
proof -
  note same = steps_weaken [OF _ assms(4)] and files = steps_weaken [OF records_same_aside assms(4)]
  show ?thesis
    unfolding daemon_main_def config_load_def daemon_start_def Let_def
    by (auto intro!: step_order.steps_rules [OF assms(3)] recover init_stores_same_records [THEN same] assms(1,2)
        aside_create_dir_all [THEN files] aside_calls [THEN files] aside_files [THEN files])
qed

lemma advances_daemon_main:
  assumes "ctx_ok cx" "opens_kept cx lib" "cx_namespace cx = ns_CRI"
  shows "steps (advances cx i) (daemon_main lib cx p check)"
proof (rule daemon_main_steps [OF assms(1,2)])
  show "step_order (advances cx i)" by unfold_locales
  show "advances cx i w w'" if "records_same cx w w'" for w w'
    using that by (simp add: records_same_def advances_def keyed_world_def all_keyed_def lifecycle_def moves_def same_defs)
  fix content snaps st addr conf bin reg nop
  show "steps (advances cx i) (reconcile (fst (context_new cx content snaps st addr conf bin reg nop)))" (is "steps _ (reconcile ?cx)")
  proof -
    define cx' where "cx' = ?cx"
    note same = context_new_reads [OF assms(3) cx'_def]
    have "keyed_world cx' = keyed_world cx" "lifecycle cx' i = lifecycle cx i"
      by (simp_all add: fun_eq_iff keyed_world_def keeps_keys_def all_keyed_def lifecycle_def calm_def moves_def same)
    moreover have "ctx_ok cx'" using assms(1) same by simp
    ultimately have "steps (stays_keyed cx) (reconcile cx')" "steps_if (keyed_world cx) (lifecycle cx i) (reconcile cx')"
      using keyed_reconcile [of cx'] lifecycle_reconcile [of cx' i] by (simp_all add: stays_keyed_def [abs_def])
    then show ?thesis unfolding cx'_def [symmetric] by (rule advances_both)
  qed
qed


subsection \<open>Histories\<close>

text \<open>A history as container \<open>i\<close> sees it: requests, the ends of processes, and restarts of the daemon.\<close>

inductive daemon_step :: "('d, 't, 'sec, 'b) cri_ctx \<Rightarrow> string \<Rightarrow> 'd cri_os \<Rightarrow> 'd cri_os \<Rightarrow> bool" for cx i where
  ds_request: "life_step cx i w w' \<Longrightarrow> daemon_step cx i w w'"
| ds_restart: "daemon_main (lib :: ('d, string) daemon_lib) cx p check w = (r, w') \<Longrightarrow> opens_kept cx lib \<Longrightarrow> daemon_step cx i w w'"

text \<open>Every call that writes a record: with the creation of any container and the change of resources.\<close>

inductive record_step :: "('d, 't, 'sec, 'b) cri_ctx \<Rightarrow> 'd cri_os \<Rightarrow> 'd cri_os \<Rightarrow> bool" for cx where
  rs_daemon: "daemon_step cx i w w' \<Longrightarrow> record_step cx w w'"
| rs_create: "create_container cx sid cf w = (r, w') \<Longrightarrow> record_step cx w w'"
| rs_update: "update_container_resources cx j l w = (r', w') \<Longrightarrow> record_step cx w w'"

definition daemon_ok :: "('d, 't, 'sec, 'b) cri_ctx \<Rightarrow> bool" where
  "daemon_ok cx \<longleftrightarrow> ctx_ok cx \<and> tools_aside cx \<and> cx_namespace cx = ns_CRI"

lemma life_step_keyed:
  assumes "ctx_ok cx" "tools_aside cx" "life_step cx i w w'"
  shows "stays_keyed cx w w'"
  using assms(3)
  by (cases rule: life_step.cases)
    (metis stepsD assms(1,2) keyed_start keyed_supervise_exit keyed_stop keyed_remove keyed_create keyed_sandboxes keyed_images)+

lemma daemon_step_advances:
  assumes "daemon_ok cx" "daemon_step cx i w w'"
  shows "advances cx i w w'"
  using assms(2)
proof cases
  case ds_request
  with assms(1) life_step_keyed life_step_lifecycle show ?thesis by (auto simp: daemon_ok_def advances_def stays_keyed_def)
next
  case (ds_restart lib p check r)
  with assms(1) show ?thesis by (auto simp: daemon_ok_def intro: stepsD [OF advances_daemon_main])
qed

interpretation hst: invariant_system "\<lambda>w. daemon_ok cx \<and> keyed_world cx w" "record_step cx" "\<lambda>w. daemon_ok cx \<and> keyed_world cx w" for cx
proof
  fix w w' assume ok: "daemon_ok cx \<and> keyed_world cx w" and step: "record_step cx w w'"
  then have cx: "ctx_ok cx" "tools_aside cx" by (simp_all add: daemon_ok_def)
  from step have "stays_keyed cx w w'"
  proof cases
    case (rs_daemon i)
    with ok daemon_step_advances show ?thesis by (auto simp: advances_def stays_keyed_def)
  qed (auto intro: stepsD [OF keyed_create [OF cx]] stepsD [OF keyed_update [OF cx(1)]])
  with ok show "daemon_ok cx \<and> keyed_world cx w'" by (simp add: stays_keyed_def)
qed

lemma daemon_steps_advance:
  assumes "daemon_ok cx" "(daemon_step cx i)\<^sup>*\<^sup>* w w'"
  shows "advances cx i w w'"
  using assms(2) by induction (auto intro: adv.order_refl adv.order_trans daemon_step_advances assms(1))


text \<open>C2. Every record stays under its own identifier: the sandboxes, containers and images of a
  database in which that holds keep it through any history of calls that write records, restarts
  and their recoveries included. So a listing of the containers never holds an identifier twice, and
  looking up what it holds finds that record.\<close>

theorem records_stay_keyed:
  assumes "daemon_ok cx" "keyed_world cx w" "(record_step cx)\<^sup>*\<^sup>* w w'"
  shows "all_keyed cx (cr_db w')
    \<and> (\<forall>cs. list_container_records cx w' = (Inr cs, w') \<longrightarrow>
         distinct (map ct_id cs) \<and> (\<forall>c \<in> set cs. container_in cx (ct_id c) (cr_db w') = Inr (Some c)))"
proof -
  have "daemon_ok cx \<and> keyed_world cx w'"
    using assms(3) by induction (auto intro: assms(1,2) hst.inv_step [THEN conjunct2])
  then have ok: "ctx_ok cx" and keyed: "all_keyed cx (cr_db w')" by (simp_all add: daemon_ok_def keyed_world_def)
  then show ?thesis using ctr.lst_keyed [OF ok] by (simp add: all_keyed_def list_container_records_def)
qed


subsection \<open>A restart that loses a container\<close>

text \<open>A file system of directories on which no call fails.\<close>

definition only_dirs :: "'z os_scheme \<Rightarrow> bool" where
  "only_dirs w \<longleftrightarrow> os_sched w = [] \<and> (\<forall>p n. map_of (os_fs w) p = Some n \<longrightarrow> n = Dir)"

lemma only_dirs_make:
  "only_dirs w \<Longrightarrow> \<exists>fs. create_dir_all p w = (Inr (), w\<lparr>os_fs := fs\<rparr>) \<and> only_dirs (w\<lparr>os_fs := fs\<rparr>)"
proof -
  have "only_dirs w \<Longrightarrow> \<exists>fs. create_dirs pre cs w = (Inr (), w\<lparr>os_fs := fs\<rparr>) \<and> only_dirs (w\<lparr>os_fs := fs\<rparr>)" for pre cs
  proof (induction pre cs arbitrary: w rule: create_dirs.induct)
    case (1 pre)
    then show ?case by (intro exI [of _ "os_fs w"]) (simp add: prog_simps)
  next
    case (2 pre c cs)
    let ?p = "pre @ [c]"
    have "\<exists>fs. ensure_dir ?p w = (Inr (), w\<lparr>os_fs := fs\<rparr>) \<and> only_dirs (w\<lparr>os_fs := fs\<rparr>)"
    proof (cases "map_of (os_fs w) ?p")
      case None
      with 2(2) show ?thesis
        by (intro exI [of _ "AList.update ?p Dir (os_fs w)"])
          (auto simp: ensure_dir_def syscall_def lookup_def set_node_def tick_def only_dirs_def next_event_def update_conv')
    next
      case (Some n)
      with 2(2) have n: "n = Dir" by (simp add: only_dirs_def)
      with 2(2) Some show ?thesis
        by (intro exI [of _ "os_fs w"]) (auto simp: ensure_dir_def syscall_def lookup_def tick_def only_dirs_def next_event_def)
    qed
    then obtain fs where fs: "ensure_dir ?p w = (Inr (), w\<lparr>os_fs := fs\<rparr>)" "only_dirs (w\<lparr>os_fs := fs\<rparr>)" by blast
    from 2(1) [OF fs(2)] fs(1) show ?case by (auto simp: prog_simps)
  qed
  then show "only_dirs w \<Longrightarrow> ?thesis" by (simp add: create_dir_all_def)
qed

definition sample_daemon_lib :: "(mem_db, string) daemon_lib" where
  "sample_daemon_lib = \<lparr>dl_from_toml = (\<lambda>t. Inl ''not used''), dl_statfs = (\<lambda>p. Inr CGROUP2_SUPER_MAGIC), dl_create_db = (\<lambda>p d. Inr d),
     dl_parse_addr = Inr\<rparr>"

lemma sample_opens: "opens_kept cx sample_daemon_lib"
  by (simp add: opens_kept_def sample_daemon_lib_def same_defs)

lemma sample_stores:
  assumes "only_dirs w"
  shows "\<exists>st fs. init_stores sample_daemon_lib mem_redb cfg w = (Inr st, w\<lparr>os_fs := fs\<rparr>) \<and> only_dirs (w\<lparr>os_fs := fs\<rparr>)"
proof -
  have make: "\<exists>fs. create_dir_all p (w\<lparr>os_fs := fs0\<rparr>) = (Inr (), w\<lparr>os_fs := fs\<rparr>) \<and> only_dirs (w\<lparr>os_fs := fs\<rparr>)"
    if "only_dirs (w\<lparr>os_fs := fs0\<rparr>)" for p fs0
    using only_dirs_make [OF that, of p] by simp
  obtain a where a: "create_dir_all (cf_root cfg) w = (Inr (), w\<lparr>os_fs := a\<rparr>)" "only_dirs (w\<lparr>os_fs := a\<rparr>)"
    using only_dirs_make [OF assms] by blast
  obtain b where b: "create_dir_all (cf_state cfg) (w\<lparr>os_fs := a\<rparr>) = (Inr (), w\<lparr>os_fs := b\<rparr>)" "only_dirs (w\<lparr>os_fs := b\<rparr>)"
    using make [OF a(2)] by blast
  obtain c where c: "create_dir_all (content_dir cfg @ [''blobs'', ''sha256'']) (w\<lparr>os_fs := b\<rparr>) = (Inr (), w\<lparr>os_fs := c\<rparr>)"
      "only_dirs (w\<lparr>os_fs := c\<rparr>)"
    using make [OF b(2)] by blast
  obtain d where d: "create_dir_all (content_dir cfg @ [''ingest'']) (w\<lparr>os_fs := c\<rparr>) = (Inr (), w\<lparr>os_fs := d\<rparr>)" "only_dirs (w\<lparr>os_fs := d\<rparr>)"
    using make [OF c(2)] by blast
  obtain e where e: "create_dir_all (butlast (metadata_db cfg)) (w\<lparr>os_fs := d\<rparr>) = (Inr (), w\<lparr>os_fs := e\<rparr>)" "only_dirs (w\<lparr>os_fs := e\<rparr>)"
    using make [OF d(2)] by blast
  obtain f where f: "create_dir_all (snapshots_dir cfg) (w\<lparr>os_fs := e\<rparr>) = (Inr (), w\<lparr>os_fs := f\<rparr>)" "only_dirs (w\<lparr>os_fs := f\<rparr>)"
    using make [OF e(2)] by blast
  have db: "db_step (\<lambda>d. rbind (store_open mem_redb (dl_create_db sample_daemon_lib p d)) (\<lambda>d. Inr ((), d))) u = (Inr (), u)" for p u
    by (simp add: db_step_def sample_daemon_lib_def store_open_def mem_redb_def)
  show ?thesis
    by (intro exI [of _ "\<lparr>st_root = content_dir cfg\<rparr>"] exI [of _ f]) (simp add: init_stores_def open_store_def prog_simps a b c d e f db)
qed


lemma sample_recovers:
  assumes "cr_db u = sample_db [] [(''k8s.io/c1'', [0])] []" "cr_crun u = []"
    and cx: "cx = fst (context_new sample_recovery content snaps st addr conf bin reg nop)"
  shows "\<exists>rep v. reconcile cx u = (Inr rep, v) \<and> cr_db v = sample_db [] [(''k8s.io/c1'', [1])] []"
proof -
  have fields: "cx_redb cx = mem_redb" "cx_namespace cx = ''k8s.io''" "cx_des_sandbox cx = sample_des []"
      "cx_ser_container cx = sample_ser [sample_container Running, sample_container Unknown]"
      "cx_des_container cx = sample_des [sample_container Running, sample_container Unknown]"
    by (simp_all add: cx context_new_def sample_recovery_def sample_ctx_def ns_CRI_def)
  have ls: "list_container_records cx u = (Inr [sample_container Running], u)" "list_sandboxes cx u = (Inr [], u)"
    by (simp_all add: list_container_records_def list_sandboxes_def assms(1,2) fields store_list_def mem_redb_def sample_db_def
        starts_with_def sample_des_def)
  have p: "put_container cx ''c1'' (sample_container Unknown) v = (Inr (), v\<lparr>cr_db := sample_db [] [(''k8s.io/c1'', [1])] []\<rparr>)"
    if "cr_db v = cr_db u" for v
    using that by (simp add: put_container_def db_step_def fields assms(1,2) mem_put sample_ser_def sample_db_def fun_eq_iff)
  show ?thesis
    using p by (simp add: reconcile_def ls prog_simps reconcile_one_def crun_probe_def crun_state_def crun_delete_def run_crun_probed
        next_outcome_def assms(1,2))
qed

lemma sample_restart:
  obtains r w' where "daemon_main sample_daemon_lib sample_recovery [''etc'', ''containerd-rs.toml''] False sample_running = (r, w')"
    and "cr_db w' = sample_db [] [(''k8s.io/c1'', [1])] []"
proof -
  let ?cfg = "config_default"
  have start: "only_dirs sample_running" "cr_db sample_running = sample_db [] [(''k8s.io/c1'', [0])] []" "cr_crun sample_running = []"
    by (simp_all add: only_dirs_def sample_running_def sample_world_def)
  obtain st fs where stores: "init_stores sample_daemon_lib mem_redb ?cfg sample_running = (Inr st, sample_running\<lparr>os_fs := fs\<rparr>)"
    using sample_stores [OF start(1)] by blast
  define cx where "cx = context_new sample_recovery st (snapshots_dir ?cfg) (cf_state ?cfg) (cf_stream_server_address ?cfg)
    (cc_cni_conf_dir (cf_cri ?cfg)) (cc_cni_bin_dir (cf_cri ?cfg)) (Some (cc_registry_config_path (cf_cri ?cfg))) (cc_no_pivot_root (cf_cri ?cfg))"
  obtain rep v where rec: "reconcile (fst cx) (sample_running\<lparr>os_fs := fs\<rparr>) = (Inr rep, v)" "cr_db v = sample_db [] [(''k8s.io/c1'', [1])] []"
    using sample_recovers [OF _ _ arg_cong [OF cx_def, of fst], of "sample_running\<lparr>os_fs := fs\<rparr>"] start by auto
  have load: "config_load (dl_from_toml sample_daemon_lib) [''etc'', ''containerd-rs.toml''] sample_running = (Inr ?cfg, sample_running)"
    by (simp add: config_load_def prog_simps path_exists_def lookup_def tick_def sample_running_def sample_world_def next_event_def)
  have guard: "cgroup_ok (detect_default (dl_statfs sample_daemon_lib))"
    by (simp add: cgroup_ok_def detect_default_def detect_def sample_daemon_lib_def version_from_magic_def)
  let ?rest = "pseq (if cf_cri_socket ?cfg \<noteq> [] then with_err DaemonIo (create_dir_all (butlast (cf_cri_socket ?cfg))) else pret ())
    (pbind (plift (map_err (DaemonAddress (cf_stream_server_address ?cfg)) (dl_parse_addr sample_daemon_lib (cf_stream_server_address ?cfg))))
      (\<lambda>addr. pret (Some (cx, Inr rep :: meta_error + _, cf_cri_socket ?cfg, addr))))"
  have asd: "steps aside ?rest" by (auto intro!: aside_rules aside_create_dir_all)
  obtain r w' where w': "?rest v = (r, w')" by fastforce
  have "cr_db w' = cr_db v" by (rule aside_db [OF stepsD [OF asd w']])
  moreover have rd: "cx_redb sample_recovery = mem_redb" by (simp add: sample_recovery_def sample_ctx_def)
  have "daemon_main sample_daemon_lib sample_recovery [''etc'', ''containerd-rs.toml''] False sample_running = (r, w')"
    unfolding w' [symmetric] daemon_main_def daemon_start_def Let_def
    by (simp only: pbind_def pseq_def load guard pguard_def pret_def stores prod.case sum.case if_True if_False attempt_run rec fst_conv snd_conv
        rd cx_def [symmetric])
  ultimately show ?thesis using that rec(2) by simp
qed


lemma sample_recovery_ok:
  "daemon_ok sample_recovery" "keyed_world sample_recovery sample_running" "calm sample_recovery i (cr_env sample_running)"
proof -
  show "daemon_ok sample_recovery"
    by (simp add: daemon_ok_def sample_recovery_def sample_ctx_ok sample_tools) (simp add: sample_ctx_def ns_CRI_def)
  show "keyed_world sample_recovery sample_running"
    by (auto simp: keyed_world_def keeps_keys_def all_keyed_def keyed_by_def sample_recovery_def sample_reads mem_get sample_running_def
        sample_world_def sample_db_def sample_des_def split: if_splits)
  show "calm sample_recovery i (cr_env sample_running)" by (simp add: calm_def sample_running_def sample_world_def)
qed

lemma sample_unknown_found:
  "container_in sample_recovery i (sample_db [] [(''k8s.io/c1'', [1])] []) = (if i = ''c1'' then Inr (Some (sample_container Unknown)) else Inr None)"
  by (simp add: sample_recovery_def sample_reads mem_get sample_db_def sample_des_def)


theorem records_stay_keyed_witness:
  "\<exists>w'. (record_step sample_recovery)\<^sup>*\<^sup>* sample_running w' \<and> cr_db w' \<noteq> cr_db sample_running \<and> all_keyed sample_recovery (cr_db w')"
proof -
  obtain r w' where "daemon_main sample_daemon_lib sample_recovery [''etc'', ''containerd-rs.toml''] False sample_running = (r, w')"
    and db: "cr_db w' = sample_db [] [(''k8s.io/c1'', [1])] []" by (rule sample_restart)
  then have steps: "(record_step sample_recovery)\<^sup>*\<^sup>* sample_running w'"
    by (intro r_into_rtranclp rs_daemon ds_restart [OF _ sample_opens])
  have "cr_db w' ''containers'' \<noteq> cr_db sample_running ''containers''"
    by (simp add: db sample_running_def sample_world_def sample_db_def)
  with records_stay_keyed [OF sample_recovery_ok(1,2) steps] steps show ?thesis by metis
qed

end
