(* ===== verification/Cri_One_Ready.thy ===== *)
theory Cri_One_Ready
  imports Cri_System Cri_Pods
begin

section \<open>One ready sandbox per pod\<close>

text \<open>
  \<open>RunPodSandbox\<close> demotes the earlier sandboxes of its pod and no other call makes a sandbox ready.
  Together with the keyed records of \<open>Cri_Keyed\<close> this gives an invariant of every history: no pod
  ever has two ready sandboxes. The demotion passes over a failing write, so the database is assumed to
  take a record that is only marked not ready, and to list the sandboxes.
\<close>

definition one_ready :: "('d, 't, 'sec, 'b) cri_ctx \<Rightarrow> 'd \<Rightarrow> bool" where
  "one_ready cx d \<longleftrightarrow>
     (\<forall>i j r s. sandbox_in cx i d = Inr (Some r) \<and> sandbox_in cx j d = Inr (Some s)
        \<and> sb_state r = Ready \<and> sb_state s = Ready \<and> same_pod r s \<longrightarrow> i = j)"

definition ready_calm :: "('d, 't, 'sec, 'b) cri_ctx \<Rightarrow> ('d \<Rightarrow> 'd) list \<Rightarrow> bool" where
  "ready_calm cx fs \<longleftrightarrow> list_all (\<lambda>f. \<forall>d. one_ready cx d \<longrightarrow> one_ready cx (f d)) fs"

definition ready_world :: "('d, 't, 'sec, 'b) cri_ctx \<Rightarrow> 'd cri_os \<Rightarrow> bool" where
  "ready_world cx w \<longleftrightarrow> ready_calm cx (cr_env w) \<and> one_ready cx (cr_db w)"

definition stays_ready :: "('d, 't, 'sec, 'b) cri_ctx \<Rightarrow> 'd cri_os \<Rightarrow> 'd cri_os \<Rightarrow> bool" where
  "stays_ready cx w w' \<longleftrightarrow> (ready_world cx w \<longrightarrow> ready_world cx w')"

text \<open>What is assumed of the database.\<close>

definition demotable :: "('d, 't, 'sec, 'b) cri_ctx \<Rightarrow> 'd \<Rightarrow> bool" where
  "demotable cx d \<longleftrightarrow>
     can_demote cx d \<and> (\<exists>rs. store_list (cx_redb cx) (cx_des_sandbox cx) Sandbox (cx_namespace cx) d = Inr rs)"

interpretation ord: step_order "stays_ready cx" for cx
  by unfold_locales (auto simp: stays_ready_def)

subsection \<open>Calls that make no sandbox ready\<close>

lemma ready_same:
  "same_sandboxes cx (cr_db w) (cr_db w') \<Longrightarrow> cr_env w' = cr_env w \<Longrightarrow> stays_ready cx w w'"
  by (simp add: stays_ready_def ready_world_def one_ready_def same_sandboxes_def)

lemma ready_fewer: "ready_from cx w w' \<Longrightarrow> cr_env w' = cr_env w \<Longrightarrow> stays_ready cx w w'"
  unfolding stays_ready_def ready_world_def ready_from_def one_ready_def by metis

lemma ready_records: "steps records_kept m \<Longrightarrow> steps (stays_ready cx) m"
  by (erule steps_weaken) (auto simp: records_kept_def same_sandboxes_def intro!: ready_same)

lemmas ready_aside = ready_records [OF aside_records]

lemma ready_await: "steps (stays_ready cx) await"
  by (auto simp: steps_def await_def prog_simps stays_ready_def ready_world_def ready_calm_def split: list.splits)

lemma ready_puts:
  assumes "ctx_ok cx"
  shows "steps (stays_ready cx) (put_container cx j c)" "steps (stays_ready cx) (put_image cx j m)"
    "sb_state s = NotReady \<Longrightarrow> steps (stays_ready cx) (put_sandbox cx j s)" "steps (stays_ready cx) (delete_record cx k j)"
proof -
  show "steps (stays_ready cx) (put_container cx j c)"
  proof (rule stepsI)
    fix w obtain x w' where run: "put_container cx j c w = (x, w')" by fastforce
    from assms run show "stays_ready cx w (snd (put_container cx j c w))"
      by (cases rule: put_container_cases) (auto simp: run same_sandboxes_def intro!: ready_same)
  qed
  show "steps (stays_ready cx) (put_image cx j m)"
  proof (rule stepsI)
    fix w obtain x w' where run: "put_image cx j m w = (x, w')" by fastforce
    from assms run show "stays_ready cx w (snd (put_image cx j m w))"
      by (cases rule: put_image_cases) (auto simp: run same_sandboxes_def intro!: ready_same)
  qed
  show "steps (stays_ready cx) (put_sandbox cx j s)" if "sb_state s = NotReady"
  proof (rule stepsI)
    fix w obtain x w' where run: "put_sandbox cx j s w = (x, w')" by fastforce
    from assms run show "stays_ready cx w (snd (put_sandbox cx j s w))"
      by (cases rule: put_sandbox_cases) (use that in \<open>auto simp: run ready_from_def ord.order_refl split: if_splits intro!: ready_fewer\<close>)
  qed
  show "steps (stays_ready cx) (delete_record cx k j)"
  proof (rule stepsI)
    fix w obtain x w' where run: "delete_record cx k j w = (x, w')" by fastforce
    from assms run show "stays_ready cx w (snd (delete_record cx k j w))"
      by (cases rule: delete_record_cases) (auto simp: run ready_from_def ord.order_refl split: if_splits intro!: ready_fewer)
  qed
qed

lemma ready_internal: "steps (stays_ready cx) m \<Longrightarrow> steps (stays_ready cx) (internal m)"
  by (simp add: internal_def ord.steps_with_err)

lemmas ready_rules = ord.steps_rules ready_await ready_internal records_kept_calls [THEN ready_records]
  records_kept_crun [THEN ready_records] aside_calls [THEN ready_aside]

lemma ready_loops: "steps (stays_ready cx) (wait_registered n root j)" "steps (stays_ready cx) (poll_exited cx n j)"
  by (induction n) (auto intro!: ready_rules split: proc_outcome.splits)

lemma ready_containers:
  assumes "ctx_ok cx"
  shows "steps (stays_ready cx) (start_container cx j)" "steps (stays_ready cx) (supervise_exit cx j code)"
    "steps (stays_ready cx) (stop_container cx j t)" "steps (stays_ready cx) (remove_container cx j)"
    "steps (stays_ready cx) (update_container_resources cx j l)"
    "tools_aside cx \<Longrightarrow> steps (stays_ready cx) (create_container cx sid cf)" "steps (stays_ready cx) (reconcile cx)"
proof -
  note puts = ready_puts [OF assms] ready_loops aside_create_dir_all [THEN ready_aside] aside_container [THEN ready_aside]
    aside_misc [THEN ready_aside]
  have req: "steps (stays_ready cx) (require_container cx j)" for j
    unfolding require_container_def by (auto intro!: ready_rules)
  show "steps (stays_ready cx) (start_container cx j)"
    unfolding start_container_def Let_def by (auto intro!: ready_rules req puts)
  show "steps (stays_ready cx) (supervise_exit cx j code)"
    unfolding supervise_exit_def by (auto intro!: ready_rules puts split: sum.splits option.splits)
  show "steps (stays_ready cx) (stop_container cx j t)"
    unfolding stop_container_def escalate_def force_exit_def by (auto intro!: ready_rules puts split: sum.splits option.splits)
  show "steps (stays_ready cx) (remove_container cx j)"
    unfolding remove_container_def by (auto intro!: ready_rules puts)
  show "steps (stays_ready cx) (update_container_resources cx j l)"
    unfolding update_container_resources_def Let_def by (auto intro!: ready_rules req puts split: proc_outcome.splits option.splits)
  show "steps (stays_ready cx) (create_container cx sid cf)" if "tools_aside cx"
    unfolding create_container_def create_with_id_def require_sandbox_def host_selinux_enabled_def find_image_def Let_def
    by (auto intro!: ready_rules puts aside_make_bundle [OF that, THEN ready_aside])
  show "steps (stays_ready cx) (reconcile cx)"
    unfolding reconcile_def reconcile_one_def by (auto intro!: ready_rules puts split: sum.splits option.splits)
qed

lemma ready_others:
  assumes "ctx_ok cx"
  shows "steps (stays_ready cx) (stop_pod_sandbox cx j)" "steps (stays_ready cx) (remove_pod_sandbox cx j)"
    "unpack_aside lib \<Longrightarrow> steps (stays_ready cx) (pull_image cx lib de cp im au)" "steps (stays_ready cx) (remove_image cx im)"
proof -
  note puts = ready_puts [OF assms]
  show "steps (stays_ready cx) (stop_pod_sandbox cx j)"
    unfolding stop_pod_sandbox_def by (auto intro!: ready_rules puts split: option.splits)
  show "steps (stays_ready cx) (remove_pod_sandbox cx j)"
    unfolding remove_pod_sandbox_def
    by (auto intro!: ready_rules puts aside_cni_chains [THEN ready_aside] split: option.splits sum.splits)
  show "steps (stays_ready cx) (pull_image cx lib de cp im au)" if "unpack_aside lib"
    unfolding pull_image_def Let_def
    by (auto intro!: ready_rules puts aside_pull [OF that, THEN ready_aside] aside_resolve_auth [THEN ready_aside] split: option.splits)
  show "steps (stays_ready cx) (remove_image cx im)"
    unfolding remove_image_def svc_find_image_def
    by (auto intro!: ready_rules puts aside_blobs [THEN ready_aside] split: option.splits)
qed


subsection \<open>RunPodSandbox\<close>

definition env_kept :: "'d cri_os \<Rightarrow> 'd cri_os \<Rightarrow> bool" where
  "env_kept w w' \<longleftrightarrow> cr_env w' = cr_env w"

interpretation evk: step_order env_kept
  by unfold_locales (simp_all add: env_kept_def)

lemma run_pod_env: "steps env_kept (run_pod_sandbox cx c h)"
proof -
  have put: "steps env_kept (put_sandbox cx i r)" for i r
    by (auto simp: steps_def put_sandbox_def db_step_def env_kept_def split: sum.splits prod.splits)
  have "steps env_kept (demote_others cx rec)" for rec
    unfolding demote_others_def demote_one_def
    by (auto intro!: evk.steps_rules put records_kept_calls [THEN steps_weaken] split: sum.splits simp: records_kept_def env_kept_def)
  then show ?thesis
    unfolding run_pod_sandbox_def Let_def ensure_pod_cgroup_def internal_def
    by (auto intro!: evk.steps_rules put aside_misc [THEN aside_records, THEN steps_weaken]
        aside_calls [THEN aside_records, THEN steps_weaken] split: prod.splits simp: records_kept_def env_kept_def)
qed

lemma ready_run_pod:
  assumes ok: "ctx_ok cx" "demotable cx (cr_db w)" "keyed_world cx w" and run: "run_pod_sandbox cx c h w = (r, w')"
  shows "stays_ready cx w w'"
proof -
  have env: "cr_env w' = cr_env w" using stepsD [OF run_pod_env run] by (simp add: env_kept_def)
  show ?thesis
  proof (cases c)
    case None
    with run have "w' = w" by (simp add: run_pod_sandbox_def prog_simps)
    then show ?thesis by (simp add: ord.order_refl)
  next
    case (Some config)
    show ?thesis
    proof (cases r)
      case (Inl e)
      with run Some have "run_pod_sandbox cx (Some config) h w = (Inl e, w')" by simp
      with ok(1) have "ready_from cx w w'" by (cases rule: run_pod_sandbox_Inl) (auto intro: ready_from_aside)
      then show ?thesis using env by (rule ready_fewer)
    next
      case (Inr i)
      with run Some have done': "run_pod_sandbox cx (Some config) h w = (Inr i, w')" by simp
      from ok(2) obtain rs where ls: "list_sandboxes cx w = (Inr rs, w)" and dem: "can_demote cx (cr_db w)"
        by (force simp: demotable_def list_sandboxes_def)
      have keyed: "keyed_by sb_id (\<lambda>i. sandbox_in cx i (cr_db w))" using ok(3) by (simp add: keyed_world_def all_keyed_def)
      note after = run_pod_sandbox_demotes [OF ok(1) keyed ls dem done']
      obtain new where new: "sandbox_in cx i (cr_db w') = Inr (Some new)" "of_pod config new" using after by blast
      have others: "\<not> of_pod config s \<and> sandbox_in cx j (cr_db w) = Inr (Some s)"
        if "j \<noteq> i" "sandbox_in cx j (cr_db w') = Inr (Some s)" "sb_state s = Ready" for j s
        using that after by (metis sandbox_state.distinct(1))
      have pod: "of_pod config s" if "same_pod s t" "of_pod config t" for s t using that by (simp add: same_pod_def of_pod_def)
      have sym: "same_pod s t \<Longrightarrow> same_pod t s" for s t by (simp add: same_pod_def)
      have "j = k" if "one_ready cx (cr_db w)" "sandbox_in cx j (cr_db w') = Inr (Some s)" "sandbox_in cx k (cr_db w') = Inr (Some t)"
          "sb_state s = Ready" "sb_state t = Ready" "same_pod s t" for j k s t
      proof (cases "j = i \<or> k = i")
        case True
        with that new others [of j s] others [of k t] pod sym show ?thesis by (metis Inr_inject option.inject)
      next
        case False
        with that others [of j s] others [of k t] show ?thesis unfolding one_ready_def by blast
      qed
      then have "one_ready cx (cr_db w) \<Longrightarrow> one_ready cx (cr_db w')" unfolding one_ready_def by blast
      with env show ?thesis by (simp add: stays_ready_def ready_world_def)
    qed
  qed
qed


subsection \<open>Histories\<close>

lemma ready_life_step:
  assumes "daemon_ok cx" "demotable cx (cr_db w)" "keyed_world cx w" "life_step cx i w w'"
  shows "stays_ready cx w w'"
proof -
  from assms(1) have cx: "ctx_ok cx" "tools_aside cx" by (simp_all add: daemon_ok_def)
  note steps = ready_containers [OF cx(1)] ready_others [OF cx(1)]
  from assms(4) show ?thesis
    by (cases rule: life_step.cases) (metis stepsD steps cx(2) ready_run_pod [OF cx(1) assms(2,3)])+
qed

lemma ready_daemon_main:
  assumes "daemon_ok cx" "opens_kept cx lib"
  shows "steps (stays_ready cx) (daemon_main lib cx p check)"
proof (rule daemon_main_steps)
  show "ctx_ok cx" "opens_kept cx lib" using assms by (simp_all add: daemon_ok_def)
  show "step_order (stays_ready cx)" by unfold_locales
  show "stays_ready cx w w'" if "records_same cx w w'" for w w'
    using that by (auto simp: records_same_def intro: ready_same)
  fix content snaps st addr conf bin reg nop
  define cx' where "cx' = fst (context_new cx content snaps st addr conf bin reg nop)"
  have "cx_namespace cx = ns_CRI" using assms(1) by (simp add: daemon_ok_def)
  note same = context_new_reads [OF this cx'_def]
  have "stays_ready cx' = stays_ready cx"
    by (simp add: fun_eq_iff stays_ready_def ready_world_def ready_calm_def one_ready_def same)
  moreover have "ctx_ok cx'" using assms(1) same by (simp add: daemon_ok_def)
  ultimately show "steps (stays_ready cx) (reconcile (fst (context_new cx content snaps st addr conf bin reg nop)))"
    using ready_containers(7) [of cx'] by (simp add: cx'_def)
qed

lemma ready_record_step:
  assumes "daemon_ok cx" "demotable cx (cr_db w)" "keyed_world cx w" "record_step cx w w'"
  shows "stays_ready cx w w'"
proof -
  from assms(1) have cx: "ctx_ok cx" "tools_aside cx" by (simp_all add: daemon_ok_def)
  from assms(4) show ?thesis
  proof cases
    case (rs_daemon i)
    then show ?thesis
      by (cases rule: daemon_step.cases) (auto intro: ready_life_step [OF assms(1-3)] stepsD [OF ready_daemon_main [OF assms(1)]])
  qed (auto intro: stepsD [OF ready_containers(6) [OF cx]] stepsD [OF ready_containers(5) [OF cx(1)]])
qed

text \<open>A step from a database that can mark its sandboxes not ready.\<close>

definition steady_step :: "('d, 't, 'sec, 'b) cri_ctx \<Rightarrow> 'd cri_os \<Rightarrow> 'd cri_os \<Rightarrow> bool" where
  "steady_step cx w w' \<longleftrightarrow> record_step cx w w' \<and> demotable cx (cr_db w)"

interpretation rdy: invariant_system
  "\<lambda>w. daemon_ok cx \<and> keyed_world cx w \<and> ready_world cx w" "steady_step cx" "\<lambda>w. daemon_ok cx \<and> keyed_world cx w \<and> ready_world cx w" for cx
proof
  fix w w' assume w: "daemon_ok cx \<and> keyed_world cx w \<and> ready_world cx w" and step: "steady_step cx w w'"
  then have "stays_ready cx w w'" using ready_record_step by (auto simp: steady_step_def)
  with w step hst.inv_step [of cx w w'] show "daemon_ok cx \<and> keyed_world cx w' \<and> ready_world cx w'"
    by (auto simp: stays_ready_def steady_step_def)
qed


text \<open>Why the database has to list its sandboxes: when it cannot (one record that does not decode is
  enough), the demotion is left out without a word, and a pod that is run again has two ready sandboxes.\<close>

lemma unlisted_sandboxes_stay_ready:
  assumes ok: "ctx_ok cx" and ls: "list_sandboxes cx w = (Inl e, w)"
    and run: "run_pod_sandbox cx (Some config) h w = (Inr i, w')"
    and old: "sandbox_in cx j (cr_db w) = Inr (Some r)" "j \<noteq> i" "sb_state r = Ready" "of_pod config r"
  shows "\<not> one_ready cx (cr_db w')"
proof -
  from run obtain w1 w2 userns net resolv holder created where w1: "aside w w1"
    and dem: "demote_others cx (new_sandbox_record config h i userns net resolv holder created) w1 = (Inr (), w2)"
    and put: "put_sandbox cx i (new_sandbox_record config h i userns net resolv holder created) w2 = (Inr (), w')"
    by (rule run_pod_sandbox_Inr)
  have "list_sandboxes cx w1 = (Inl e, w1)" using ls aside_db [OF w1] by (simp add: list_sandboxes_def)
  with dem have "w2 = w1" by (simp add: demote_others_def prog_simps)
  with ok put old(2) have "sandbox_in cx j (cr_db w') = sandbox_in cx j (cr_db w)"
      "sandbox_in cx i (cr_db w') = Inr (Some (new_sandbox_record config h i userns net resolv holder created))"
    by (cases rule: put_sandbox_cases; simp add: aside_db [OF w1])+
  with old of_pod_new(2) show ?thesis unfolding one_ready_def by (metis new_sandbox_fields(2))
qed


end
