(* ===== verification/Pid_Holder.thy ===== *)
theory Pid_Holder
  imports Cri_Container "HOL-Library.Stream"
begin

section \<open>The holder process\<close>

text \<open>
  \<open>run_holder\<close> of \<open>crates/sandbox/src/pid_holder.rs\<close>, the program that the daemon runs of itself to keep a pod's
  namespaces alive, and the handshake between the two: the helper writes the process number of its
  child to a file, and \<open>spawn_holder\<close> reads it. \<open>unshare\<close>, \<open>fork\<close> and \<open>wait\<close> are system calls: their
  results are arguments.
\<close>

text \<open>The child: it waits for orphans, and sleeps when there is nothing to wait for, for ever. \<open>waits\<close>
  are the results of \<open>wait\<close>; the second argument counts the seconds slept.\<close>

partial_function (option) reap :: "int stream \<Rightarrow> nat \<Rightarrow> nat option" where
  "reap waits slept = (if shd waits < 0 then reap (stl waits) (slept + 1) else reap (stl waits) slept)"

text \<open>\<open>None\<close>: the process does not return, which is what its child does.\<close>

definition run_holder ::
  "io_error + unit \<Rightarrow> int \<Rightarrow> io_error \<Rightarrow> int stream \<Rightarrow> fpath \<Rightarrow> 'z os_scheme \<Rightarrow> ((io_error + unit) \<times> 'z os_scheme) option" where
  "run_holder unshared pid last_os_error waits pidfile w =
     (case unshared of
        Inl e \<Rightarrow> Some (Inl e, w)
      | Inr _ \<Rightarrow>
          if pid = - 1 then Some (Inl last_os_error, w)
          else if pid = 0 then map_option (\<lambda>_. (Inr (), w)) (reap waits 0)
          else Some (fs_write pidfile (str_bytes (dec_int pid)) w))"

text \<open>What is left of the helper when it has returned: the exit code of \<open>main\<close>, and the file.\<close>

definition helper_left :: "fpath \<Rightarrow> (io_error + unit) \<times> 'z os_scheme \<Rightarrow> int \<times> bytes option" where
  "helper_left pidfile = (\<lambda>(r, w).
     (case r of Inr _ \<Rightarrow> 0 | Inl _ \<Rightarrow> 1, case lookup w pidfile of Some (File bs) \<Rightarrow> Some bs | _ \<Rightarrow> None))"

subsection \<open>The child\<close>

lemma reap_never_returns: "reap waits n = None"
proof -
  have "reap waits n = Some m \<Longrightarrow> False" for m
    by (rule reap.raw_induct [where P = "\<lambda>_ _ _. False", rotated]) (auto split: if_splits)
  then show ?thesis by (cases "reap waits n") auto
qed

lemma run_holder_child: "run_holder (Inr ()) 0 e waits p w = None"
  by (simp add: run_holder_def reap_never_returns)

lemma run_holder_parent:
  assumes "run_holder unshared pid e waits p w = Some (Inr (), w')"
  shows "pid \<noteq> 0" "pid \<noteq> - 1" "fs_write p (str_bytes (dec_int pid)) w = (Inr (), w')"
  using assms by (auto simp: run_holder_def reap_never_returns split: sum.splits if_splits)

subsection \<open>Writing and reading the number\<close>

text \<open>A write that succeeds leaves exactly the given bytes, however it was cut up.\<close>

lemma write_from_contents:
  "write_from p pos buf w = (Inr (), w') \<Longrightarrow> lookup w p = Some (File bs) \<Longrightarrow> length bs = pos \<Longrightarrow> lookup w' p = Some (File (bs @ buf))"
proof (induction p pos buf w arbitrary: bs rule: write_from.induct)
  case (1 p pos buf w)
  show ?case
  proof (cases "buf = []")
    case False
    with "1.prems"(1) obtain n w1 where w1: "write_at p pos buf w = (Inr n, w1)" and n: "n \<noteq> 0"
      and rest: "write_from p (pos + n) (drop n buf) w1 = (Inr (), w')"
      by (subst (asm) write_from.simps) (auto split: prod.splits sum.splits if_splits)
    from w1 have le: "n \<le> length buf"
      by (auto simp: write_at_def File_System.accepted_def Let_def split: if_splits io_event.splits)
    from w1 "1.prems"(2,3) have "lookup w1 p = Some (File (bs @ take n buf))"
      by (auto simp: write_at_def Let_def fs_simps split: if_splits)
    with "1.IH" [OF False w1 [symmetric] refl n rest, of "bs @ take n buf"] "1.prems"(3) le show ?thesis by simp
  qed (use "1.prems" in \<open>simp add: write_from.simps\<close>)
qed

lemma fs_write_contents: "fs_write p bs w = (Inr (), w') \<Longrightarrow> lookup w' p = Some (File bs)"
  using write_from_contents [of p 0 bs _ w' "[]"]
  by (auto simp: fs_write_def prog_Inr create_file_def syscall_def fs_simps split: if_splits)

lemma digit_bounds: "digit_val c \<noteq> None \<Longrightarrow> 48 \<le> (of_char c :: nat) \<and> (of_char c :: nat) \<le> 57"
  by (auto simp: digit_val_def split: if_splits)

lemma dec_int_chars:
  "c \<in> set (dec_int i) \<Longrightarrow> c = CHR ''-'' \<or> digit_val c \<noteq> None"
  by (auto simp: dec_int_def dest: dec_chars split: if_splits)

lemma dec_int_utf8: "from_utf8 (str_bytes (dec_int i)) = Some (dec_int i)"
proof -
  have "bytes_text (str_bytes s) = s" for s
    by (simp add: bytes_text_def str_bytes_def unat_of_char comp_def)
  moreover have "is_utf8 (dec_int i)"
    by (rule ascii_is_utf8) (auto simp: list_all_iff dest!: dec_int_chars digit_bounds)
  ultimately show ?thesis by (simp add: from_utf8_def)
qed

lemma dec_int_trim: "trim (dec_int i) = dec_int i"
proof -
  have ws: "\<not> is_ws c" if "c \<in> set (dec_int i)" for c
    using dec_int_chars [OF that] by (auto simp: is_ws_def digit_val_def)
  have drops: "dropWhile is_ws xs = xs" if "\<And>c. c \<in> set xs \<Longrightarrow> \<not> is_ws c" for xs
    using that by (cases xs) auto
  show ?thesis
    using drops [of "dec_int i"] drops [of "rev (dec_int i)"] ws by (simp add: trim_def trim_start_def trim_end_def)
qed

lemma parse_signed_dec_int:
  assumes "- (2 ^ (w - 1)) \<le> i" "i < 2 ^ (w - 1)"
  shows "parse_signed w (dec_int i) = Some i"
proof (cases "i < 0")
  case False
  obtain c t where ct: "dec (nat i) = c # t" by (cases "dec (nat i)") auto
  with dec_hd have "c \<noteq> CHR ''+''" "c \<noteq> CHR ''-''" by blast+
  with ct False assms show ?thesis
    using parse_nat_dec [of "nat i"] by (simp add: parse_signed_def dec_int_def Let_def del: parse_nat_dec)
qed (use assms in \<open>simp add: parse_signed_def dec_int_def Let_def\<close>)


subsection \<open>The handshake\<close>

lemma remove_file_helpers:
  assumes "remove_file p w = (r, w')"
  shows "cr_helpers w' = cr_helpers w" "os_sched w = [] \<Longrightarrow> os_sched w' = []"
  using assms by (auto simp: remove_file_def syscall_def tick_def del_node_def split: if_splits option.splits node.splits)

lemma spawn_holder_reads:
  assumes "cr_helpers w = Inr (0, Some (str_bytes (dec_int pid))) # hs" "- (2 ^ 31) \<le> pid" "pid < 2 ^ 31"
  shows "spawn_holder dir i w = (Inr got, w') \<Longrightarrow> got = pid"
    and "os_sched w = [] \<Longrightarrow> \<exists>w'. spawn_holder dir i w = (Inr pid, w')"
proof -
  let ?p = "pidfile_path dir i"
  obtain r w1 where w1: "remove_file ?p w = (r, w1)" by fastforce
  note helpers = remove_file_helpers [OF w1]
  define w2 where "w2 = set_node ?p (File (str_bytes (dec_int pid))) (w1\<lparr>cr_helpers := hs\<rparr>)"
  have run: "spawn_holder dir i w = pbind (read_to_string ?p) (\<lambda>s. plift (ok_or Fault (parse_signed 32 (trim s)))) w2"
    using assms(1) helpers(1) by (simp add: spawn_holder_def Let_def pseq_run pbind_run [of "run_helper _"] attempt_run w1 run_helper_def w2_def)
  have parsed: "parse_signed 32 (trim (dec_int pid)) = Some pid"
    using parse_signed_dec_int [of 32 pid] assms(2,3) by (simp add: dec_int_trim)
  have wrote: "lookup w2 ?p = Some (File (str_bytes (dec_int pid)))" by (simp add: w2_def fs_simps)
  show "got = pid" if "spawn_holder dir i w = (Inr got, w')"
    using that wrote parsed unfolding run
    by (auto simp: prog_Inr read_to_string_def read_file_def syscall_def fs_simps dec_int_utf8 ok_or_def split: if_splits)
  show "\<exists>w'. spawn_holder dir i w = (Inr pid, w')" if "os_sched w = []"
  proof -
    have "next_event w2 \<noteq> IoFail" using helpers(2) [OF that] by (simp add: next_event_def w2_def set_node_def)
    with wrote parsed show ?thesis
      unfolding run by (simp add: prog_simps read_to_string_def read_file_def syscall_def fs_simps dec_int_utf8 ok_or_def)
  qed
qed

text \<open>C33. The handshake with the namespace holder: the helper is run in any file system and its writes
  may be cut up or fail. If \<open>spawn_holder\<close> gives a process number, it is the number of the child that
  the helper forked, and never the helper's own error values; and if the helper succeeded and the
  daemon's own calls do not fail, \<open>spawn_holder\<close> does give it.\<close>

theorem holder_handshake:
  assumes "run_holder unshared pid e waits (pidfile_path dir i) v = Some left" "- (2 ^ 31) \<le> pid" "pid < 2 ^ 31"
    and "cr_helpers w = Inr (helper_left (pidfile_path dir i) left) # hs"
  shows "(\<forall>got w'. spawn_holder dir i w = (Inr got, w') \<longrightarrow> got = pid \<and> pid \<noteq> 0 \<and> pid \<noteq> - 1)
    \<and> (fst left = Inr () \<and> os_sched w = [] \<longrightarrow> (\<exists>w'. spawn_holder dir i w = (Inr pid, w')))"
proof (cases "fst left")
  case (Inl e')
  then obtain f where "cr_helpers w = Inr (1, f) # hs" using assms(4) by (auto simp: helper_left_def split: prod.splits)
  moreover obtain r w1 where "remove_file (pidfile_path dir i) w = (r, w1)" by fastforce
  moreover from this have "cr_helpers w1 = cr_helpers w" by (rule remove_file_helpers)
  ultimately show ?thesis using Inl by (auto simp: spawn_holder_def Let_def prog_simps run_helper_def split: option.splits)
next
  case (Inr u)
  then obtain v' where left: "left = (Inr (), v')" by (cases left) auto
  note parent = run_holder_parent [OF assms(1) [unfolded left]]
  have "cr_helpers w = Inr (0, Some (str_bytes (dec_int pid))) # hs"
    using assms(4) fs_write_contents [OF parent(3)] by (simp add: left helper_left_def)
  from spawn_holder_reads [OF this assms(2,3)] parent(1,2) show ?thesis by blast
qed


text \<open>The child's number is 4242, and the file system takes two bytes first.\<close>

definition sample_helper_fs :: os where
  "sample_helper_fs = \<lparr>os_fs = [([''run''], Dir)], os_sched = [IoOk, IoShort 2], os_pid = 7, os_seq = 0\<rparr>"

definition sample_spawner :: "unit cri_os" where
  "sample_spawner = \<lparr>os_fs = [([''run''], Dir)], os_sched = [], os_pid = 1, os_seq = 0, cw_calls = [], cw_outcomes = [], cr_db = (), cr_env = [],
     cr_clock = (\<lambda>n. 0), cr_reads = 0, cr_late = [], cr_crun = [], cr_crun_calls = [],
     cr_helpers = [Inr (0, Some (str_bytes ''4242''))], cr_kills = [], cr_events = []\<rparr>"

theorem holder_handshake_witness:
  "run_holder (Inr ()) 4242 Fault (sconst 1) (pidfile_path [''run''] ''s1'') sample_helper_fs \<noteq> None
    \<and> (\<exists>w'. spawn_holder [''run''] ''s1'' sample_spawner = (Inr 4242, w'))"
proof -
  have p: "pidfile_path [''run''] ''s1'' = [''run'', ''pidns-s1.pid'']"
    by (simp add: pidfile_path_def fjoin_def is_absolute_def starts_with_def components_def)
  have number: "dec_int 4242 = ''4242''" by (simp add: dec_int_def dec.simps digit_def) code_simp
  have wrote: "fs_write [''run'', ''pidns-s1.pid''] (str_bytes (dec_int 4242)) sample_helper_fs
      = (Inr (), \<lparr>os_fs = [([''run''], Dir), ([''run'', ''pidns-s1.pid''], File (str_bytes ''4242''))], os_sched = [], os_pid = 7, os_seq = 0\<rparr>)"
    by (simp add: fs_write_def prog_simps create_file_def syscall_def parent_ok_def lookup_def set_node_def tick_def next_event_def
        sample_helper_fs_def write_from.simps write_at_def File_System.accepted_def splice_def number str_bytes_def)
  then have run: "run_holder (Inr ()) 4242 Fault (sconst 1) (pidfile_path [''run''] ''s1'') sample_helper_fs
      = Some (Inr (), \<lparr>os_fs = [([''run''], Dir), ([''run'', ''pidns-s1.pid''], File (str_bytes ''4242''))], os_sched = [], os_pid = 7, os_seq = 0\<rparr>)"
    by (simp add: run_holder_def p)
  show ?thesis
    using holder_handshake [OF run, of sample_spawner "[]"] run
    by (simp add: helper_left_def sample_spawner_def p lookup_def)
qed

end
