(* ===== verification/Spec2Isabelle.thy ===== *)
theory Spec2Isabelle
  imports Content_Store Metadata_Store Image_Identity Snapshots Image_GC Bundle_Properties Cni Keyed_Locks
    Spdy_Mux Cri_Image_Files Cri_Logs
    Streaming_Properties Cri_Exec_Properties Cri_Stats_Properties Cri_Supervise Cri_One_Ready Pid_Holder
begin

section \<open>Verification of containerd-rs\<close>

text \<open>
  containerd-rs is a container daemon: the kubelet talks to it over the CRI gRPC service, it keeps
  images and records on disk, sets pods up with CNI plugins, runs containers with the program
  \<open>crun\<close>, and serves exec, attach and port-forward sessions over HTTP. Sources are named below
  \<open>src/crates/\<close>.

  \<^bold>\<open>The parts and how they interact.\<close>
  \<^item> \<open>containerd-rs/src\<close>: configuration and start of the daemon; it opens the stores, recovers the
    records and starts the CRI server and the streaming server on one shared context.
  \<^item> \<open>cri/src/server.rs\<close>: the handlers of the CRI service. They read and write the records of the
    metadata store, pull and remove images, write OCI bundles, run \<open>crun\<close> and register sessions.
  \<^item> \<open>cri/src/streaming.rs\<close>, \<open>spdy.rs\<close>: the streaming server, which redeems the one-time tokens of
    those sessions and relays the streams over WebSocket or SPDY; \<open>locks.rs\<close>: locks per key.
  \<^item> \<open>content\<close>, \<open>metadata\<close>, \<open>snapshots\<close>, \<open>images\<close>: blobs by digest, records by kind and name, unpacked
    layers, the pull and the garbage collection.
  \<^item> \<open>runtime\<close>, \<open>sandbox\<close>: the OCI specification, seccomp, control groups and \<open>crun\<close>; CNI, the network
    namespaces and the holder of a shared PID namespace.

  \<^bold>\<open>How code becomes definitions.\<close> A function that only computes is a HOL function of the same
  name. One that changes state is a program (\<open>prog\<close> of \<open>Rust_Effects\<close>): a function from a state to
  a result and a state, with \<open>?\<close> as \<open>pbind\<close>; errors are values of a datatype per crate, and a Rust
  panic is an error value of its own where the code has one. Machine integers are words. The
  state is a record that grows with the layers: \<open>os\<close> (a file system whose calls fail as a schedule
  says), \<open>cni_os\<close> (plugin runs), \<open>cri_os\<close> (database, clock, outcomes and traces of \<open>crun\<close>, helpers,
  signals, events). Other tasks that run while a handler waits are a list of changes of the
  database, applied one by one at each \<open>await\<close>. Tasks that run side by side within one session are
  a schedule, a list of turns; theorems hold for every schedule.

  \<^bold>\<open>Theories.\<close>
  \<^item> Prelude: \<open>Rust_Prelude\<close>, \<open>Rust_Text\<close>, \<open>Rust_Utf8\<close>, \<open>Rust_Effects\<close>, \<open>File_System\<close>, \<open>Rust_Files\<close>, \<open>Json\<close>:
    what the code uses of the standard library and of \<open>serde_json::Value\<close>; the program combinators,
    the relation \<open>steps\<close> between the states of a run, reachability.
  \<^item> \<open>Core_Types\<close> (\<open>core-types\<close>): digests, with parse and print inverse.
  \<^item> \<open>Content_Store\<close> (\<open>content\<close>): store and writer; interleaved writers as a step relation with the
    invariant that a blob has the bytes of its digest, for every schedule of failures.
  \<^item> \<open>Records\<close>, \<open>Metadata_Store\<close> (\<open>metadata\<close>): records, the container
    states as a linear order, the store as a map that opening keeps.
  \<^item> \<open>Snapshots\<close>, \<open>Image_Identity\<close>, \<open>Image_GC\<close>, \<open>Registry_Auth\<close>, \<open>Image_Pull\<close>, \<open>Pull_Properties\<close>
    (\<open>snapshots\<close>, \<open>images\<close>): layers stay below their target; chain identifiers and platforms; the
    collection keeps what remaining images use; credentials go to their own host; only verified
    layers are unpacked.
  \<^item> \<open>Oci_Types\<close>, \<open>Oci_Bundle\<close>, \<open>Seccomp\<close>, \<open>Bundle_Properties\<close> (\<open>runtime/src/bundle.rs\<close>, \<open>seccomp.rs\<close>): the
    specification of a container, its namespaces, capabilities and confinement.
  \<^item> \<open>Cni\<close> (\<open>sandbox/src/cni.rs\<close>): the plugin chains and their order.
  \<^item> \<open>Keyed_Locks\<close> (\<open>cri/src/locks.rs\<close>): mutual exclusion as an invariant of a transition system.
  \<^item> \<open>Spdy\<close>, \<open>Spdy_Properties\<close>, \<open>Spdy_Mux\<close> (\<open>cri/src/spdy.rs\<close>): frames and header blocks, their round trip,
    the connection and its read loop.
  \<^item> \<open>Cri_Messages\<close>, \<open>Cri_World\<close>, \<open>Cri_Sandbox\<close>, \<open>Cri_Container\<close>, \<open>Cri_Images\<close>, \<open>Cri_Stats\<close>, \<open>Cri_Exec\<close>
    (\<open>cri/src/server.rs\<close>, with \<open>crun.rs\<close>, \<open>cgroup.rs\<close>, \<open>shim.rs\<close>, \<open>pid_holder.rs\<close>): messages, context and
    every handler.
  \<^item> \<open>Cri_Store\<close>, \<open>Cri_Frames\<close>, \<open>Cri_Sample\<close>, \<open>Cri_Lifecycle\<close>, \<open>Cri_Stop\<close>, \<open>Cri_Reconcile\<close>, \<open>Cri_Pods\<close>,
    \<open>Cri_Image_Service\<close>, \<open>Cri_Stats_Properties\<close>, \<open>Cri_Exec_Properties\<close>: what the handlers do to the
    records: states only advance, a stop ends in an exited record, recovery implements its
    decision table, one ready sandbox per pod, images are found and kept, statistics are complete,
    URLs lead to their session.
  \<^item> \<open>Cri_Keyed\<close>, \<open>Cri_System\<close>, \<open>Cri_One_Ready\<close>: the invariants over whole histories of requests, ends of processes and
    restarts: records stay under their identifiers, states only move forward, a pod has at most one
    ready sandbox. The statements about
    single handlers that assume keyed records rest on the first.
  \<^item> \<open>Cri_Image_Files\<close>: pull, records and collection together: an image that has a record has its
    configuration and layers in the content store.
  \<^item> \<open>Pid_Holder\<close> (\<open>sandbox/src/pid_holder.rs\<close>): the helper process that holds a pod's namespaces, and its
    handshake with \<open>spawn_holder\<close>.
  \<^item> \<open>Cri_Logs\<close>, \<open>Cri_Supervise\<close>: the log format, the supervision of a container and log rotation.
  \<^item> \<open>Stream_Sessions\<close>, \<open>Stream_Run\<close>, \<open>Crun_Io\<close>, \<open>Streaming\<close>, \<open>Streaming_Properties\<close> (\<open>cri/src/streaming.rs\<close>,
    \<open>crun.rs\<close>): the registry of tokens, the pumps of a session, interactive runs of \<open>crun\<close>, the
    endpoints and sessions: tokens work once, output arrives in order and before the exit status,
    sessions end, forwarded bytes stay on their channel.
  \<^item> \<open>Daemon\<close> (\<open>containerd-rs/src\<close>, \<open>Context::new\<close>, \<open>net.rs\<close>): configuration and start.

  \<^bold>\<open>Interfaces.\<close> \<open>step_order\<close> (\<open>Rust_Effects\<close>) gives for a reflexive and transitive relation on states
  the rules by which whole programs respect it; it is interpreted for every frame condition:
  \<open>frm\<close>, \<open>dadd\<close>, \<open>qt\<close> (files), \<open>rem\<close> (collection), \<open>out\<close> (pull), \<open>ck\<close> (plugins), \<open>asd\<close>, \<open>rck\<close>, \<open>lfc\<close>,
  \<open>cls\<close>, \<open>rdf\<close>, \<open>kfs\<close>, \<open>kyd\<close> (handlers), \<open>okp\<close>, \<open>rsm\<close>, \<open>adv\<close>, \<open>ord\<close>, \<open>evk\<close>, \<open>clk\<close> (histories). \<open>invariant_system\<close> is a transition system with an invariant
  (\<open>ingest_sys\<close>, \<open>lock_sys\<close>, \<open>hst\<close>, \<open>rdy\<close>, \<open>ims\<close> for the records of the daemon). \<open>record_table\<close> (\<open>Cri_Store\<close>) is what the handlers rely on in the metadata
  store, interpreted for sandboxes, containers and images (\<open>sbx\<close>, \<open>ctr\<close>, \<open>img\<close>). \<open>ticket_table\<close>
  (\<open>Stream_Sessions\<close>) is what the streaming server relies on in the registry, for its three kinds of
  session (\<open>ext\<close>, \<open>att\<close>, \<open>pft\<close>). \<open>client_link\<close> (\<open>Stream_Run\<close>) is what a session relies on in its
  connection, for WebSocket and SPDY (\<open>wsl\<close>, \<open>spl\<close>).

  \<^bold>\<open>Parameters.\<close> Third-party code is an argument, and what is relied on is a named hypothesis with an
  instance that satisfies it: SHA-256 (\<open>sha_hex_ok\<close>, and that it does not collide on the texts of
  tokens), redb and serde (\<open>redb_ok\<close>, \<open>serde_ok\<close>, \<open>opens_kept\<close>), the OCI builders (\<open>builders_ok\<close>), zlib, tar and the
  decompressors, the registry client, the plugins, \<open>crun\<close>, the TOML reader, sockets,
  \<open>statfs\<close>, \<open>fork\<close> and \<open>wait\<close>, and \<open>lchown\<close>.

  \<^bold>\<open>Bounds.\<close> The loops around zlib have fuel: three rounds are enough to compress when the output
  grows by less than 256 bytes, the output length plus three to decompress; that no fuel is
  enough after the end of the compressed stream is a theorem. \<open>dir_size\<close> and \<open>chown_tree\<close> recurse
  to one more than the depth of the deepest path, which is proved enough. The start of a
  container asks 100 times whether it is registered and a stop polls ten times a second, as the
  code does. The number of turns of an exec session is bounded by the chunks of its pipes.

  \<^bold>\<open>Waiting without end.\<close> A call that may never return has the result \<open>None\<close>: the accept on a console
  socket that \<open>crun\<close> never connects to, and the child of the holder process, of which it is proved.

  \<^bold>\<open>Not modelled.\<close> Logging and the format of log messages; the generated protobuf bindings, the gRPC
  and HTTP libraries, the tokio runtime and the accept loops of the two servers; what the kernel
  does when a namespace is unshared, bind-mounted or joined; file modes, owners and symbolic links,
  except that layer entries of any kind are an unpack call. Fields of messages that the code leaves
  unset have no counterpart. Between two turns of a session nothing but the other tasks of that
  session acts on its connection. All other functions of the crates have a definition.
\<close>

end
